theory Spec2Isabelle
  imports Main
begin

unbundle bit_operations_syntax

section \<open>Exceptions\<close>

text \<open>
  The exception classes that \<^verbatim>\<open>mapi.py\<close> raises or lets escape. The first seven are the
  classes of \<^verbatim>\<open>pymonetdb.exceptions\<close>; the others are Python built-ins. An exception
  is a class together with its message; a function that can raise returns
  \<open>error + 'a\<close>, with \<open>Inl\<close> for the raise.
\<close>

datatype exc_class =
    OperationalError | DatabaseError | ProgrammingError | NotSupportedError
  | IntegrityError | InternalError | InterfaceError
  | BrokenPipeError | OSError | SSLError | ValueError | StructError
  | AssertionError | AttributeError | UnicodeDecodeError

datatype error = Raise exc_class string

section \<open>Python string primitives\<close>

text \<open>
  A Python \<^verbatim>\<open>str\<close> or \<^verbatim>\<open>bytes\<close> value is a \<open>string\<close>. Slices \<^verbatim>\<open>s[:n]\<close> and
  \<^verbatim>\<open>s[n:]\<close> with \<open>n \<ge> 0\<close> are \<open>take n s\<close> and \<open>drop n s\<close>.
\<close>

fun find_char :: "char \<Rightarrow> string \<Rightarrow> nat option" where
  "find_char c [] = None"
| "find_char c (x # xs) = (if x = c then Some 0 else map_option Suc (find_char c xs))"

text \<open>\<^verbatim>\<open>str.index(s, c, start)\<close>: the least index \<open>\<ge> start\<close> holding \<open>c\<close>, or ValueError.\<close>

definition str_index :: "string \<Rightarrow> char \<Rightarrow> nat \<Rightarrow> error + nat" where
  "str_index s c start =
     (case find_char c (drop start s) of
        None \<Rightarrow> Inl (Raise ValueError ''substring not found'')
      | Some k \<Rightarrow> Inr (start + k))"

section \<open>The error classifier\<close>

definition errors :: "string \<rightharpoonup> exc_class" where
  "errors = map_of
     [(''42S02'', OperationalError),
      (''40002'', IntegrityError),
      (''2D000'', IntegrityError),
      (''40000'', IntegrityError),
      (''M0M29'', IntegrityError)]"

definition handle_error :: "string \<Rightarrow> error + (exc_class \<times> string)" where
  "handle_error error0 =
     (case (if take 13 error0 = ''SQLException:''
            then (case str_index error0 CHR '':'' 14 of
                    Inl e \<Rightarrow> Inl e
                  | Inr idx \<Rightarrow> Inr (drop (idx + 10) error0))
            else Inr error0) of
        Inl e \<Rightarrow> Inl e
      | Inr err \<Rightarrow>
          (if length err > 5 \<and> errors (take 5 err) \<noteq> None
           then Inr (the (errors (take 5 err)), err)
           else Inr (OperationalError, err)))"

section \<open>Sockets\<close>

text \<open>
  A socket is modelled by what the peer still has to deliver and what has been sent on
  it. \<open>incoming\<close> is the finite sequence of segments in which the peer's bytes arrive;
  once it is exhausted the peer has closed and a receive returns 0 bytes. An empty
  segment likewise stands for a receive that returns 0 bytes. \<open>send_fails\<close> says that
  the operating system reports an error on the next send. A send that succeeds is taken
  to deliver all of its bytes.
\<close>

record sock =
  incoming :: "string list"
  outgoing :: string
  closed :: bool
  send_fails :: bool

definition sock_send :: "sock \<Rightarrow> string \<Rightarrow> error + sock" where
  "sock_send s data =
     (if closed s \<or> send_fails s then Inl (Raise OSError ''send failed'')
      else Inr (s\<lparr>outgoing := outgoing s @ data\<rparr>))"

text \<open>\<^verbatim>\<open>socket.recv_into(view)\<close> for a view of \<open>m\<close> bytes: the bytes received and the socket after.\<close>

definition recv_into :: "sock \<Rightarrow> nat \<Rightarrow> error + (sock \<times> string)" where
  "recv_into s m =
     (if closed s then Inl (Raise OSError ''Bad file descriptor'')
      else case incoming s of
             [] \<Rightarrow> Inr (s, [])
           | seg # rest \<Rightarrow>
               Inr (s\<lparr>incoming := (if length seg \<le> m then rest else drop m seg # rest)\<rparr>,
                    take m seg))"

definition sock_close :: "sock \<Rightarrow> sock" where
  "sock_close s = s\<lparr>closed := True\<rparr>"

section \<open>The framer\<close>

definition MAX_PACKAGE_LENGTH :: nat where
  "MAX_PACKAGE_LENGTH = (1024 * 8) - 2"

text \<open>\<^verbatim>\<open>struct.pack('<H', v)\<close>: two bytes, little-endian; \<^verbatim>\<open>struct.error\<close> out of range.\<close>

definition struct_pack_H :: "nat \<Rightarrow> error + string" where
  "struct_pack_H v =
     (if v < 65536 then Inr [char_of (v mod 256), char_of (v div 256)]
      else Inl (Raise StructError ''ushort format requires 0 <= number <= 65535''))"

text \<open>
  \<^verbatim>\<open>_putblock_raw\<close>. \<open>pos\<close> is the loop variable; the loop body runs at least once and
  stops after the first chunk shorter than \<open>MAX_PACKAGE_LENGTH\<close>.
\<close>

function putblock_raw_loop :: "sock \<Rightarrow> string \<Rightarrow> bool \<Rightarrow> nat \<Rightarrow> error + sock" where
  "putblock_raw_loop s block finish pos =
     (let data = take MAX_PACKAGE_LENGTH (drop pos block);
          len = length data;
          last = (if len < MAX_PACKAGE_LENGTH then 1 else 0 :: nat)
      in case struct_pack_H (push_bit 1 len + (if finish then last else 0)) of
           Inl e \<Rightarrow> Inl e
         | Inr flag \<Rightarrow>
             (case sock_send s flag of
                Inl e \<Rightarrow> Inl e
              | Inr s1 \<Rightarrow>
                  (case sock_send s1 data of
                     Inl e \<Rightarrow> Inl e
                   | Inr s2 \<Rightarrow>
                       if last \<noteq> 0 then Inr s2
                       else putblock_raw_loop s2 block finish (pos + len))))"
  by pat_completeness auto
termination
  by (relation "measure (\<lambda>(s, block, finish, pos). length block - pos)")
     (auto simp: MAX_PACKAGE_LENGTH_def split: if_splits)

declare putblock_raw_loop.simps [simp del]

definition putblock_raw :: "sock \<Rightarrow> string \<Rightarrow> bool \<Rightarrow> error + sock" where
  "putblock_raw s block finish = putblock_raw_loop s block finish 0"

text \<open>
  \<^verbatim>\<open>_getbytes\<close>: the receive loop, writing each delivery into the buffer in place, and
  the enlargement of the buffer before it.
\<close>

function getbytes_loop :: "sock \<Rightarrow> string \<Rightarrow> nat \<Rightarrow> nat \<Rightarrow> error + (sock \<times> string)" where
  "getbytes_loop s buffer offset end =
     (if offset < end then
        (case recv_into s (end - offset) of
           Inl e \<Rightarrow> Inl e
         | Inr (s1, data) \<Rightarrow>
             if length data = 0 then Inl (Raise BrokenPipeError ''Server closed connection'')
             else getbytes_loop s1
                    (take offset buffer @ data @ drop (offset + length data) buffer)
                    (offset + length data) end)
      else Inr (s, buffer))"
  by pat_completeness auto
termination
  by (relation "measure (\<lambda>(s, buffer, offset, end). end - offset)")
     (auto simp: neq_Nil_conv)

declare getbytes_loop.simps [simp del]

definition getbytes :: "sock \<Rightarrow> string \<Rightarrow> nat \<Rightarrow> nat \<Rightarrow> error + (sock \<times> string \<times> nat)" where
  "getbytes s buffer offset count =
     (let end = count + offset;
          buffer1 = (if length buffer < end
                     then buffer @ replicate ((1 + (end - length buffer) div 8192) * 8192) (CHR 0x00)
                     else buffer)
      in case getbytes_loop s buffer1 offset end of
           Inl e \<Rightarrow> Inl e
         | Inr (s1, buffer2) \<Rightarrow> Inr (s1, buffer2, end))"

definition get_minor_block :: "sock \<Rightarrow> string \<Rightarrow> nat \<Rightarrow> error + (sock \<times> string \<times> nat \<times> bool)" where
  "get_minor_block s buffer offset =
     (case getbytes s buffer offset 2 of
        Inl e \<Rightarrow> Inl e
      | Inr (s1, buffer1, _) \<Rightarrow>
          (let unpacked = (of_char (buffer1 ! offset) :: nat) + 256 * of_char (buffer1 ! (offset + 1));
               len = drop_bit 1 unpacked;
               last = unpacked AND 1
           in if len \<noteq> 0
              then (case getbytes s1 buffer1 offset len of
                      Inl e \<Rightarrow> Inl e
                    | Inr (s2, buffer2, offset2) \<Rightarrow> Inr (s2, buffer2, offset2, last \<noteq> 0))
              else Inr (s1, buffer1, offset, last \<noteq> 0)))"

text \<open>The number of bytes the peer has yet to deliver.\<close>

definition pending :: "sock \<Rightarrow> nat" where
  "pending s = length (concat (incoming s))"

lemma recv_into_pending:
  "recv_into s m = Inr (s1, data) \<Longrightarrow> pending s1 + length data = pending s"
  by (auto simp: recv_into_def pending_def split: if_splits list.splits)

lemma getbytes_loop_pending:
  "getbytes_loop s buffer offset end = Inr (s1, buffer1) \<Longrightarrow> offset \<le> end \<Longrightarrow>
   pending s1 + (end - offset) = pending s"
proof (induction s buffer offset "end" arbitrary: s1 buffer1 rule: getbytes_loop.induct)
  case (1 s buffer offset "end")
  show ?case
  proof (cases "offset < end")
    case False
    with "1.prems" show ?thesis
      by (simp add: getbytes_loop.simps [of s buffer offset "end"])
  next
    case True
    with "1.prems" obtain s2 data where
      rc: "recv_into s (end - offset) = Inr (s2, data)" and ne: "length data \<noteq> 0" and
      rest: "getbytes_loop s2 (take offset buffer @ data @ drop (offset + length data) buffer)
               (offset + length data) end = Inr (s1, buffer1)"
      by (auto simp: getbytes_loop.simps [of s buffer offset "end"] split: sum.splits if_splits)
    from rc have le: "length data \<le> end - offset"
      by (auto simp: recv_into_def split: if_splits list.splits)
    with True have "offset + length data \<le> end" by simp
    with "1.IH" [OF True rc _ _ rest] ne
    have "pending s1 + (end - (offset + length data)) = pending s2" by simp
    with recv_into_pending [OF rc] le True show ?thesis by simp
  qed
qed

lemma getbytes_pending:
  "getbytes s buffer offset count = Inr (s1, buffer1, e) \<Longrightarrow> pending s1 + count = pending s"
  by (auto simp: getbytes_def Let_def split: sum.splits dest!: getbytes_loop_pending)

lemma get_minor_block_pending:
  "get_minor_block s buffer offset = Inr (s1, buffer1, offset1, fin) \<Longrightarrow> pending s1 < pending s"
  by (auto simp: get_minor_block_def Let_def split: sum.splits if_splits dest!: getbytes_pending)

text \<open>
  \<^verbatim>\<open>_getblock_raw\<close>: minor blocks are read until one carries the last flag. Every minor
  block takes at least its two header bytes from the finite supply of the socket.
\<close>

function getblock_raw :: "sock \<Rightarrow> string \<Rightarrow> nat \<Rightarrow> error + (sock \<times> string \<times> nat)" where
  "getblock_raw s buffer offset =
     (case get_minor_block s buffer offset of
        Inl e \<Rightarrow> Inl e
      | Inr (s1, buffer1, offset1, fin) \<Rightarrow>
          if fin then Inr (s1, buffer1, offset1) else getblock_raw s1 buffer1 offset1)"
  by pat_completeness auto
termination
  by (relation "measure (\<lambda>(s, buffer, offset). pending s)")
     (auto dest: get_minor_block_pending)

declare getblock_raw.simps [simp del]

section \<open>More string primitives\<close>

text \<open>
  Text is represented by its UTF-8 bytes, so \<^verbatim>\<open>encode\<close> is the identity and decoding
  checks that the bytes are well-formed UTF-8. Prefix tests, slices after an ASCII prefix
  and splitting at an ASCII separator are the same on bytes as on code points.
\<close>

definition starts_with :: "string \<Rightarrow> string \<Rightarrow> bool" where
  "starts_with s p = (take (length p) s = p)"

text \<open>\<^verbatim>\<open>s.split(c)\<close>: never empty; \<open>n\<close> separators give \<open>n + 1\<close> fields.\<close>

fun split_on :: "char \<Rightarrow> string \<Rightarrow> string list" where
  "split_on c [] = [[]]"
| "split_on c (x # xs) =
     (if x = c then [] # split_on c xs
      else (case split_on c xs of [] \<Rightarrow> [[x]] | w # ws \<Rightarrow> (x # w) # ws))"

text \<open>\<^verbatim>\<open>sep.join(xs)\<close>\<close>

fun join :: "string \<Rightarrow> string list \<Rightarrow> string" where
  "join sep [] = []"
| "join sep [x] = x"
| "join sep (x # y # ys) = x @ sep @ join sep (y # ys)"

text \<open>
  \<^verbatim>\<open>str.strip()\<close> removes the characters for which \<^verbatim>\<open>str.isspace\<close> holds; of these the
  model has the ASCII ones. \<^verbatim>\<open>bytes.strip()\<close> removes space, tab, newline, return,
  vertical tab and form feed.
\<close>

definition str_isspace :: "char \<Rightarrow> bool" where
  "str_isspace c = ((of_char c :: nat) \<in> {9, 10, 11, 12, 13, 28, 29, 30, 31, 32})"

definition bytes_isspace :: "char \<Rightarrow> bool" where
  "bytes_isspace c = ((of_char c :: nat) \<in> {9, 10, 11, 12, 13, 32})"

definition strip_with :: "(char \<Rightarrow> bool) \<Rightarrow> string \<Rightarrow> string" where
  "strip_with sp s = rev (dropWhile sp (rev (dropWhile sp s)))"

definition str_strip :: "string \<Rightarrow> string" where
  "str_strip = strip_with str_isspace"

definition bytes_strip :: "string \<Rightarrow> string" where
  "bytes_strip = strip_with bytes_isspace"

definition utf8_cont :: "nat \<Rightarrow> bool" where
  "utf8_cont b = (128 \<le> b \<and> b \<le> 191)"

fun utf8_valid :: "nat list \<Rightarrow> bool" where
  "utf8_valid [] = True"
| "utf8_valid (b0 # bs) =
     (if b0 < 128 then utf8_valid bs
      else if 194 \<le> b0 \<and> b0 \<le> 223 then
        (case bs of b1 # r \<Rightarrow> utf8_cont b1 \<and> utf8_valid r | _ \<Rightarrow> False)
      else if 224 \<le> b0 \<and> b0 \<le> 239 then
        (case bs of
           b1 # b2 # r \<Rightarrow>
             (if b0 = 224 then 160 \<le> b1 \<and> b1 \<le> 191
              else if b0 = 237 then 128 \<le> b1 \<and> b1 \<le> 159
              else utf8_cont b1)
             \<and> utf8_cont b2 \<and> utf8_valid r
         | _ \<Rightarrow> False)
      else if 240 \<le> b0 \<and> b0 \<le> 244 then
        (case bs of
           b1 # b2 # b3 # r \<Rightarrow>
             (if b0 = 240 then 144 \<le> b1 \<and> b1 \<le> 191
              else if b0 = 244 then 128 \<le> b1 \<and> b1 \<le> 143
              else utf8_cont b1)
             \<and> utf8_cont b2 \<and> utf8_cont b3 \<and> utf8_valid r
         | _ \<Rightarrow> False)
      else False)"

text \<open>\<^verbatim>\<open>str(b, 'utf-8')\<close>\<close>

definition decode_utf8 :: "string \<Rightarrow> error + string" where
  "decode_utf8 b =
     (if utf8_valid (map of_char b) then Inr b
      else Inl (Raise UnicodeDecodeError ''invalid utf-8''))"

text \<open>\<^verbatim>\<open>str(n)\<close> for an integer: decimal digits, with a minus sign when negative.\<close>

fun str_nat :: "nat \<Rightarrow> string" where
  "str_nat n = (if n < 10 then [char_of (48 + n)] else str_nat (n div 10) @ [char_of (48 + n mod 10)])"

declare str_nat.simps [simp del]

definition str_int :: "int \<Rightarrow> string" where
  "str_int i = (if i < 0 then CHR ''-'' # str_nat (nat (- i)) else str_nat (nat i))"

text \<open>
  Slice bounds as Python reads them: a negative bound counts from the end, and every
  bound is clipped to the length.
\<close>

definition py_bound :: "nat \<Rightarrow> int \<Rightarrow> nat" where
  "py_bound n i = (if i < 0 then nat (max 0 (int n + i)) else min (nat i) n)"

definition py_slice :: "string \<Rightarrow> int \<Rightarrow> int \<Rightarrow> string" where
  "py_slice xs a b = (let lo = py_bound (length xs) a; hi = py_bound (length xs) b
                      in take (hi - lo) (drop lo xs))"

text \<open>\<^verbatim>\<open>buffer.rfind(c, start, end)\<close> for a single byte \<open>c\<close>: the last index, or \<open>-1\<close>.\<close>

function rfind_loop :: "string \<Rightarrow> char \<Rightarrow> nat \<Rightarrow> nat \<Rightarrow> int" where
  "rfind_loop buffer c lo hi =
     (if hi \<le> lo then - 1
      else if buffer ! (hi - 1) = c then int (hi - 1)
      else rfind_loop buffer c lo (hi - 1))"
  by pat_completeness auto
termination
  by (relation "measure (\<lambda>(buffer, c, lo, hi). hi - lo)") auto

declare rfind_loop.simps [simp del]

definition bytearray_rfind :: "string \<Rightarrow> char \<Rightarrow> int \<Rightarrow> int \<Rightarrow> int" where
  "bytearray_rfind buffer c start end =
     rfind_loop buffer c (py_bound (length buffer) start) (py_bound (length buffer) end)"

text \<open>\<^verbatim>\<open>b.find(c)\<close> for a single byte \<open>c\<close>: the first index, or \<open>-1\<close>.\<close>

definition bytes_find :: "string \<Rightarrow> char \<Rightarrow> int" where
  "bytes_find b c = (case find_char c b of None \<Rightarrow> - 1 | Some k \<Rightarrow> int k)"

section \<open>Protocol constants\<close>

definition MSG_PROMPT :: string where "MSG_PROMPT = ''''"
definition MSG_MORE :: string where "MSG_MORE = [CHR 0x01, CHR 0x02, CHR 0x0A]"
definition MSG_FILETRANS :: string where "MSG_FILETRANS = [CHR 0x01, CHR 0x03, CHR 0x0A]"
definition MSG_INFO :: string where "MSG_INFO = ''#''"
definition MSG_ERROR :: string where "MSG_ERROR = ''!''"
definition MSG_Q :: string where "MSG_Q = ''&''"
definition MSG_QUPDATE :: string where "MSG_QUPDATE = ''&2''"
definition MSG_HEADER :: string where "MSG_HEADER = ''%''"
definition MSG_TUPLE :: string where "MSG_TUPLE = ''[''"
definition MSG_REDIRECT :: string where "MSG_REDIRECT = ''^''"
definition MSG_OK :: string where "MSG_OK = ''=OK''"

definition STATE_INIT :: nat where "STATE_INIT = 0"
definition STATE_READY :: nat where "STATE_READY = 1"

section \<open>The connection\<close>

text \<open>
  The attributes of \<^verbatim>\<open>Target\<close> (module \<^verbatim>\<open>pymonetdb.target\<close>) that the connection
  reads. \<open>user\<close>, \<open>password\<close> and \<open>database\<close> may be \<^verbatim>\<open>None\<close>.
\<close>

record target =
  user :: "string option"
  password :: "string option"
  database :: "string option"
  effective_language :: string
  effective_use_tls :: bool

text \<open>
  \<^verbatim>\<open>HandshakeOption\<close>. \<open>fallback\<close> is a callable of the caller; what the model keeps of a
  call is that it happened, with which value, and whether it returned (\<open>None\<close>) or
  raised.
\<close>

record HandshakeOption =
  level :: int
  name :: string
  opt_value :: int
  fallback :: "int \<Rightarrow> error option"
  sent :: bool

datatype log_level = DEBUG | INFO | ERROR

text \<open>
  The attributes of \<^verbatim>\<open>Connection\<close>, and after them what the connection does to the
  world around it:
  \<^item> \<open>logger\<close>: the records handed to the module's logger;
  \<^item> \<open>fallback_calls\<close>: the fallbacks invoked, by option name and argument;
  \<^item> \<open>option_objects\<close>: the option objects that the callback returned last, in their
    present state (Python changes their \<open>sent\<close> attribute in place);
  \<^item> \<open>released\<close>: the sockets the connection has let go of, as it left them;
  \<^item> \<open>endpoints\<close>: what the successive calls of \<^verbatim>\<open>try_connect\<close> will find: an error of the
    operating system, or a connected socket and whether it is a TCP socket.
\<close>

record conn =
  state :: nat
  target :: target
  socket :: "sock option"
  is_tcp :: "bool option"
  is_raw_control :: "bool option"
  handshake_options_callback :: "(int \<Rightarrow> HandshakeOption list) option"
  remaining_handshake_options :: "HandshakeOption list"
  stashed_buffer :: "string option"
  server_endian :: "string option"
  binexport_level :: int
  logger :: "(log_level \<times> string) list"
  fallback_calls :: "(string \<times> int) list"
  option_objects :: "HandshakeOption list"
  released :: "sock list"
  endpoints :: "(error + sock \<times> bool) list"

text \<open>
  What the connection calls outside \<^verbatim>\<open>mapi.py\<close>: \<^verbatim>\<open>hashlib.new\<close> (the message of its
  \<^verbatim>\<open>ValueError\<close>, or the function from the bytes fed to the hash to its hex digest),
  \<^verbatim>\<open>int\<close> on a string, the methods of \<^verbatim>\<open>Target\<close> (a \<^verbatim>\<open>ValueError\<close> message on the left),
  the TLS wrapping of a socket with its fingerprint check, and
  \<^verbatim>\<open>pymonetdb.filetransfer.handle_file_transfer\<close>.
\<close>

record env =
  hashlib_new :: "string \<Rightarrow> string + (string \<Rightarrow> string)"
  int_of_str :: "string \<Rightarrow> int option"
  validate :: "target \<Rightarrow> string option"
  parse_url :: "target \<Rightarrow> string \<Rightarrow> string + target"
  parse_mapi_merovingian_url :: "target \<Rightarrow> string \<Rightarrow> string + target"
  wrap_socket :: "target \<Rightarrow> sock \<Rightarrow> error + sock"
  handle_file_transfer :: "conn \<Rightarrow> string \<Rightarrow> error + conn"

definition log_to :: "log_level \<Rightarrow> string \<Rightarrow> conn \<Rightarrow> conn" where
  "log_to lvl msg c = c\<lparr>logger := logger c @ [(lvl, msg)]\<rparr>"

text \<open>\<^verbatim>\<open>x or ''\<close>\<close>

definition or_empty :: "string option \<Rightarrow> string" where
  "or_empty x = (case x of None \<Rightarrow> [] | Some s \<Rightarrow> s)"

text \<open>The truth value of an \<^verbatim>\<open>Optional[bool]\<close> attribute.\<close>

definition truthy :: "bool option \<Rightarrow> bool" where
  "truthy b = (b = Some True)"

text \<open>The message of the \<^verbatim>\<open>AttributeError\<close> for a method of a socket that is \<^verbatim>\<open>None\<close>.\<close>

definition no_attribute :: "string \<Rightarrow> string" where
  "no_attribute m = [CHR 0x27] @ ''NoneType'' @ [CHR 0x27] @ '' object has no attribute ''
                    @ [CHR 0x27] @ m @ [CHR 0x27]"

subsection \<open>Buffers\<close>

definition get_buffer :: "conn \<Rightarrow> string \<times> conn" where
  "get_buffer c =
     (case stashed_buffer c of
        None \<Rightarrow> (replicate 8192 (CHR 0x00), c)
      | Some b \<Rightarrow> if b \<noteq> [] then (b, c\<lparr>stashed_buffer := None\<rparr>)
                  else (replicate 8192 (CHR 0x00), c))"

definition stash_buffer :: "string \<Rightarrow> conn \<Rightarrow> conn" where
  "stash_buffer buffer c =
     (case stashed_buffer c of
        None \<Rightarrow> c\<lparr>stashed_buffer := Some buffer\<rparr>
      | Some b \<Rightarrow> if length b < length buffer then c\<lparr>stashed_buffer := Some buffer\<rparr> else c)"

subsection \<open>Blocks on the connection's socket\<close>

text \<open>\<^verbatim>\<open>_recv_to_end\<close>: the receive loop, then the joined parts stripped and decoded.\<close>

function recv_parts :: "sock \<Rightarrow> string list \<Rightarrow> error + (sock \<times> string list)" where
  "recv_parts s parts =
     (case recv_into s 4096 of
        Inl e \<Rightarrow> Inl e
      | Inr (s1, received) \<Rightarrow>
          if received = [] then Inr (s1, parts) else recv_parts s1 (parts @ [received]))"
  by pat_completeness auto
termination
proof (relation "measure (\<lambda>(s, parts). pending s)")
  show "wf (measure (\<lambda>(s, parts). pending s))" by simp
next
  fix s parts x2 s1 received
  assume "recv_into s 4096 = Inr x2" and "(s1, received) = x2" and "received \<noteq> []"
  then have "pending s1 + length received = pending s" and "received \<noteq> []"
    by (auto dest: recv_into_pending)
  then show "((s1, parts @ [received]), (s, parts)) \<in> measure (\<lambda>(s, parts). pending s)"
    by (cases received) auto
qed

declare recv_parts.simps [simp del]

definition recv_to_end :: "conn \<Rightarrow> error + (string \<times> conn)" where
  "recv_to_end c =
     (case socket c of
        None \<Rightarrow> Inl (Raise AssertionError [])
      | Some s \<Rightarrow>
          (case recv_parts s [] of
             Inl e \<Rightarrow> Inl e
           | Inr (s1, parts) \<Rightarrow>
               (case decode_utf8 (bytes_strip (concat parts)) of
                  Inl e \<Rightarrow> Inl e
                | Inr text \<Rightarrow> Inr (text, c\<lparr>socket := Some s1\<rparr>))))"

definition getblock :: "conn \<Rightarrow> error + (string \<times> conn)" where
  "getblock c =
     (if truthy (is_raw_control c) then recv_to_end c
      else
        (let (buf, c1) = get_buffer c
         in case socket c1 of
              None \<Rightarrow> Inl (Raise AssertionError [])
            | Some s \<Rightarrow>
                (case getblock_raw s buf 0 of
                   Inl e \<Rightarrow> Inl e
                 | Inr (s1, buf1, end) \<Rightarrow>
                     (case decode_utf8 (take end buf1) of
                        Inl e \<Rightarrow> Inl e
                      | Inr ret \<Rightarrow> Inr (ret, stash_buffer buf1 (c1\<lparr>socket := Some s1\<rparr>))))))"

text \<open>
  \<^verbatim>\<open>_send_all_and_shutdown\<close>. Each send delivers all of its bytes, so the loop advances
  by whole slices of 8192 bytes. The half-close that follows changes nothing that the
  socket model records, and its \<^verbatim>\<open>OSError\<close> is swallowed.
\<close>

function send_all_loop :: "sock \<Rightarrow> string \<Rightarrow> nat \<Rightarrow> error + sock" where
  "send_all_loop s block pos =
     (if pos < length block then
        (let data = take 8192 (drop pos block)
         in case sock_send s data of
              Inl e \<Rightarrow> Inl e
            | Inr s1 \<Rightarrow> send_all_loop s1 block (pos + length data))
      else Inr s)"
  by pat_completeness auto
termination
  by (relation "measure (\<lambda>(s, block, pos). length block - pos)") auto

declare send_all_loop.simps [simp del]

definition send_all_and_shutdown :: "conn \<Rightarrow> string \<Rightarrow> error + conn" where
  "send_all_and_shutdown c block =
     (case socket c of
        None \<Rightarrow> Inl (Raise AttributeError
                       (if block = [] then no_attribute ''shutdown'' else no_attribute ''send''))
      | Some s \<Rightarrow>
          (case send_all_loop s block 0 of
             Inl e \<Rightarrow> Inl e
           | Inr s1 \<Rightarrow> Inr (c\<lparr>socket := Some s1\<rparr>)))"

definition putblock :: "conn \<Rightarrow> string \<Rightarrow> error + conn" where
  "putblock c block =
     (let data = block
      in if truthy (is_raw_control c) then send_all_and_shutdown c data
         else (case socket c of
                 None \<Rightarrow> Inl (Raise AttributeError (no_attribute ''send''))
               | Some s \<Rightarrow>
                   (case putblock_raw s block True of
                      Inl e \<Rightarrow> Inl e
                    | Inr s1 \<Rightarrow> Inr (c\<lparr>socket := Some s1\<rparr>))))"

subsection \<open>The login challenge\<close>

text \<open>The loop over \<^verbatim>\<open>hashes.split(",")\<close>; \<open>None\<close> is its \<^verbatim>\<open>else\<close> branch.\<close>

fun select_hash :: "env \<Rightarrow> string list \<Rightarrow> string \<Rightarrow> string \<Rightarrow> string option" where
  "select_hash ev [] pw salt = None"
| "select_hash ev (i # rest) pw salt =
     (case hashlib_new ev i of
        Inl _ \<Rightarrow> select_hash ev rest pw salt
      | Inr s \<Rightarrow> Some (''{'' @ i @ ''}'' @ s (pw @ salt)))"

text \<open>The loop over \<^verbatim>\<open>challenges[6].split(",")\<close> that reads the options level.\<close>

fun options_level_loop :: "env \<Rightarrow> string list \<Rightarrow> int \<Rightarrow> error + int" where
  "options_level_loop ev [] options_level = Inr options_level"
| "options_level_loop ev (part # parts) options_level =
     (if starts_with part ''sql='' then
        (case int_of_str ev (drop 4 part) of
           None \<Rightarrow> Inl (Raise OperationalError
                         (''invalid sql options level in server challenge: '' @ part))
         | Some n \<Rightarrow> options_level_loop ev parts n)
      else options_level_loop ev parts options_level)"

text \<open>
  The loop over the handshake options: the entries appended to \<open>options\<close>, and the option
  objects as the loop leaves them.
\<close>

fun options_loop :: "int \<Rightarrow> HandshakeOption list \<Rightarrow> string list
                     \<Rightarrow> string list \<times> HandshakeOption list" where
  "options_loop options_level [] options = (options, [])"
| "options_loop options_level (opt # opts) options =
     (if level opt < options_level then
        (let (options1, objs) =
               options_loop options_level opts
                 (options @ [name opt @ ''='' @ str_int (opt_value opt)])
         in (options1, opt\<lparr>sent := True\<rparr> # objs))
      else
        (let (options1, objs) = options_loop options_level opts options
         in (options1, opt # objs)))"

text \<open>
  \<^verbatim>\<open>_challenge_response\<close> in three steps, in the order of the code: the credentials, the
  byte order, the two hashes and the response line \<^verbatim>\<open>BIG:user:pwhash:language:database:\<close>
  (with the byte order that is recorded on the way); the level of the binary export;
  the handshake options.
\<close>

definition response_line :: "env \<Rightarrow> conn \<Rightarrow> string list \<Rightarrow> error + (string \<times> string)" where
  "response_line ev c challenges =
     (let salt = challenges ! 0;
          server_type = challenges ! 1;
          protocol = challenges ! 2;
          hashes = challenges ! 3;
          endian = challenges ! 4;
          (usr, password0) =
            (if server_type = ''merovingian'' then (''merovingian'', [])
             else (or_empty (user (target c)), or_empty (password (target c))))
      in case (if endian = ''LIT'' then Inr ''little''
               else if endian = ''BIG'' then Inr ''big''
               else Inl (Raise NotSupportedError (''Unknown byte order: '' @ endian))) of
           Inl e \<Rightarrow> Inl e
         | Inr se \<Rightarrow>
        (case (if protocol = ''9'' then
                 (case hashlib_new ev (challenges ! 5) of
                    Inl msg \<Rightarrow> Inl (Raise NotSupportedError msg)
                  | Inr h \<Rightarrow> Inr (h password0))
               else Inl (Raise NotSupportedError ''We only speak protocol v9'')) of
           Inl e \<Rightarrow> Inl e
         | Inr password1 \<Rightarrow>
        (case select_hash ev (split_on CHR '','' hashes) password1 salt of
           None \<Rightarrow> Inl (Raise NotSupportedError
                         (''Unsupported hash algorithms required for login: '' @ hashes))
         | Some pwhash \<Rightarrow>
             Inr (se, join '':'' [''BIG'', usr, pwhash, effective_language (target c),
                                  or_empty (database (target c))] @ '':''))))"

definition read_binexport_level :: "env \<Rightarrow> string list \<Rightarrow> error + int" where
  "read_binexport_level ev challenges =
     (if length challenges \<ge> 8 then
        (let part = challenges ! 7
         in if \<not> starts_with part ''BINARY='' then Inl (Raise AssertionError [])
            else (case int_of_str ev (drop 7 part) of
                    None \<Rightarrow> Inl (Raise ValueError ''invalid literal for int()'')
                  | Some n \<Rightarrow> Inr n))
      else Inr 0)"

definition challenge_response :: "env \<Rightarrow> conn \<Rightarrow> string \<Rightarrow> error + (string \<times> conn)" where
  "challenge_response ev c challenge =
     (let challenges0 = split_on CHR '':'' challenge
      in if last challenges0 \<noteq> [] \<or> length challenges0 < 7
         then Inl (Raise OperationalError ''Server sent invalid challenge'')
         else
          (let challenges = butlast challenges0
           in case response_line ev c challenges of
                Inl e \<Rightarrow> Inl e
              | Inr (se, response) \<Rightarrow>
             (case read_binexport_level ev challenges of
                Inl e \<Rightarrow> Inl e
              | Inr binexport \<Rightarrow>
                (let handshake_options =
                       (case handshake_options_callback c of
                          None \<Rightarrow> []
                        | Some callback \<Rightarrow> callback binexport)
                 in case (if length challenges \<ge> 7 then
                            (case options_level_loop ev (split_on CHR '','' (challenges ! 6)) 0 of
                               Inl e \<Rightarrow> Inl e
                             | Inr options_level \<Rightarrow>
                                 (let (options, objs) = options_loop options_level handshake_options []
                                  in Inr (response @ ''FILETRANS:'' @ join '','' options @ '':'', objs)))
                          else Inr (response, handshake_options)) of
                      Inl e \<Rightarrow> Inl e
                    | Inr (response1, objs) \<Rightarrow>
                        Inr (response1,
                             c\<lparr>server_endian := Some se,
                               binexport_level := binexport,
                               option_objects := objs,
                               remaining_handshake_options := filter (\<lambda>opt. \<not> sent opt) objs\<rparr>)))))"

subsection \<open>Login and redirects\<close>

text \<open>
  \<^verbatim>\<open>_login\<close> and \<^verbatim>\<open>_handle_redirect\<close>. A connection is returned only when the call
  returns, so what the code logs just before it raises is not kept.
\<close>

definition release_socket :: "conn \<Rightarrow> conn" where
  "release_socket c =
     (case socket c of
        None \<Rightarrow> c
      | Some s \<Rightarrow> c\<lparr>socket := None, released := released c @ [s]\<rparr>)"

definition handle_redirect :: "env \<Rightarrow> conn \<Rightarrow> string \<Rightarrow> error + conn" where
  "handle_redirect ev c redirect =
     (if starts_with redirect ''mapi:merovingian:'' then
        (let c1 = log_to DEBUG ''restarting authentication'' c
         in case parse_mapi_merovingian_url ev (target c1) redirect of
              Inl msg \<Rightarrow> Inl (Raise DatabaseError msg)
            | Inr t \<Rightarrow> Inr (c1\<lparr>target := t\<rparr>))
      else
        (let c1 = log_to DEBUG (''redirect to '' @ redirect) c
         in case parse_url ev (target c1) redirect of
              Inl msg \<Rightarrow> Inl (Raise DatabaseError msg)
            | Inr t \<Rightarrow>
                (let c2 = c1\<lparr>target := t\<rparr>
                 in case socket c2 of
                      None \<Rightarrow> Inr c2
                    | Some s \<Rightarrow> Inr (release_socket (c2\<lparr>socket := Some (sock_close s)\<rparr>)))))"

definition login :: "env \<Rightarrow> conn \<Rightarrow> error + (bool \<times> conn)" where
  "login ev c =
     (if socket c = None then Inl (Raise AssertionError [])
      else case getblock c of
        Inl e \<Rightarrow> Inl e
      | Inr (challenge, c1) \<Rightarrow>
     (case challenge_response ev c1 challenge of
        Inl e \<Rightarrow> Inl e
      | Inr (response, c2) \<Rightarrow>
     (case putblock c2 response of
        Inl e \<Rightarrow> Inl e
      | Inr c3 \<Rightarrow>
     (case getblock c3 of
        Inl e \<Rightarrow> Inl e
      | Inr (prompt0, c4) \<Rightarrow>
          (let prompt = str_strip prompt0
           in if length prompt = 0 \<or> prompt = MSG_OK then Inr (True, c4)
              else if starts_with prompt MSG_INFO then Inr (True, log_to INFO (drop 1 prompt) c4)
              else if starts_with prompt MSG_ERROR then Inl (Raise DatabaseError (drop 1 prompt))
              else if starts_with prompt MSG_REDIRECT then
                (let redirect = drop 1 (hd (split_on CHR 0x0A prompt))
                 in case handle_redirect ev c4 redirect of
                      Inl e \<Rightarrow> Inl e
                    | Inr c5 \<Rightarrow> Inr (False, c5))
              else Inl (Raise ProgrammingError (''unknown state: '' @ prompt)))))))"

subsection \<open>Connecting\<close>

text \<open>
  \<^verbatim>\<open>try_connect\<close>: which endpoint answers is the environment's matter; the model takes
  the outcome of the call from \<open>endpoints\<close>.
\<close>

definition try_connect :: "conn \<Rightarrow> error + conn" where
  "try_connect c =
     (case endpoints c of
        [] \<Rightarrow> Inl (Raise OSError ''Connection refused'')
      | Inl e # rest \<Rightarrow> Inl e
      | Inr (s, tcp) # rest \<Rightarrow> Inr (c\<lparr>socket := Some s, is_tcp := Some tcp, endpoints := rest\<rparr>))"

definition prime_or_wrap_connection :: "env \<Rightarrow> conn \<Rightarrow> error + conn" where
  "prime_or_wrap_connection ev c =
     (case socket c of
        None \<Rightarrow> Inl (Raise AttributeError (no_attribute ''sendall''))
      | Some s \<Rightarrow>
          if \<not> effective_use_tls (target c) then
            (case sock_send s (replicate 8 (CHR 0x00)) of
               Inl e \<Rightarrow> Inl e
             | Inr s1 \<Rightarrow> Inr (c\<lparr>socket := Some s1\<rparr>))
          else
            (case wrap_socket ev (target c) s of
               Inl e \<Rightarrow> Inl e
             | Inr s1 \<Rightarrow> Inr (c\<lparr>socket := Some s1\<rparr>)))"

text \<open>
  The body of \<^verbatim>\<open>if self.socket is None:\<close> in the loop of \<^verbatim>\<open>connect\<close>. The timeout that
  the code puts back on the new socket has no part in the model, where a receive never
  waits.
\<close>

definition new_connection :: "env \<Rightarrow> conn \<Rightarrow> error + conn" where
  "new_connection ev c =
     (case try_connect c of
        Inl e \<Rightarrow> Inl e
      | Inr c1 \<Rightarrow>
          (case socket c1 of
             None \<Rightarrow> Inl (Raise AssertionError [])
           | Some s \<Rightarrow>
               (let c2 = c1\<lparr>is_raw_control := Some False\<rparr>
                in if truthy (is_tcp c2) then prime_or_wrap_connection ev c2
                   else if effective_language (target c2) = ''control''
                   then Inr (c2\<lparr>is_raw_control := Some True\<rparr>)
                   else (case sock_send s ''0'' of
                           Inl e \<Rightarrow> Inl e
                         | Inr s1 \<Rightarrow> Inr (c2\<lparr>socket := Some s1\<rparr>)))))"

text \<open>
  The loop \<^verbatim>\<open>for i in range(10)\<close> with its \<^verbatim>\<open>else\<close> branch; the first argument is the
  number of iterations left. Beside the outcome it returns how many iterations it
  entered.
\<close>

fun connect_loop :: "env \<Rightarrow> nat \<Rightarrow> conn \<Rightarrow> nat \<times> (error + conn)" where
  "connect_loop ev 0 c = (0, Inl (Raise OperationalError ''too many redirects''))"
| "connect_loop ev (Suc n) c =
     (case (if socket c = None then new_connection ev c else Inr c) of
        Inl e \<Rightarrow> (1, Inl e)
      | Inr c1 \<Rightarrow>
          if truthy (is_raw_control c1) then (1, Inr c1)
          else (case login ev c1 of
                  Inl e \<Rightarrow> (1, Inl e)
                | Inr (ok, c2) \<Rightarrow>
                    if ok then (1, Inr c2)
                    else (let (k, r) = connect_loop ev n c2 in (Suc k, r))))"

text \<open>
  The loop over \<^verbatim>\<open>self.remaining_handshake_options\<close> at the end of \<^verbatim>\<open>connect\<close>: the
  connection as the loop leaves it, and the exception that ends the loop when a
  fallback raises.
\<close>

fun fallback_loop :: "HandshakeOption list \<Rightarrow> conn \<Rightarrow> conn \<times> error option" where
  "fallback_loop [] c = (c, None)"
| "fallback_loop (opt # opts) c =
     (let c1 = c\<lparr>fallback_calls := fallback_calls c @ [(name opt, opt_value opt)]\<rparr>
      in case fallback opt (opt_value opt) of
           Some e \<Rightarrow> (c1, Some e)
         | None \<Rightarrow> fallback_loop opts c1)"

text \<open>
  What \<^verbatim>\<open>connect\<close> does once the loop has left it with a working connection: the
  connection as it is left, and the exception of a fallback, if one raised.
\<close>

definition connect_ready :: "conn \<Rightarrow> conn \<times> error option" where
  "connect_ready c =
     (let c1 = c\<lparr>state := STATE_READY\<rparr>
      in fallback_loop (remaining_handshake_options c1) c1)"

text \<open>
  \<^verbatim>\<open>connect\<close>, called with a \<^verbatim>\<open>Target\<close> and, possibly, a callback for the handshake
  options. (With the legacy arguments \<^verbatim>\<open>Target.apply_connect_kwargs\<close> builds the target
  first.)
\<close>

definition connect :: "env \<Rightarrow> conn \<Rightarrow> target \<Rightarrow> (int \<Rightarrow> HandshakeOption list) option
                       \<Rightarrow> error + conn" where
  "connect ev c tgt callback =
     (let c1 = (case callback of None \<Rightarrow> c | Some cb \<Rightarrow> c\<lparr>handshake_options_callback := Some cb\<rparr>);
          c2 = c1\<lparr>target := tgt\<rparr>
      in case validate ev (target c2) of
           Some msg \<Rightarrow> Inl (Raise DatabaseError msg)
         | None \<Rightarrow>
             (case (case socket c2 of
                      None \<Rightarrow> Inr c2
                    | Some s \<Rightarrow> if \<not> closed s then Inl (Raise AssertionError [])
                                else Inr (release_socket c2)) of
                Inl e \<Rightarrow> Inl e
              | Inr c3 \<Rightarrow>
                  (case snd (connect_loop ev 10 c3) of
                     Inl e \<Rightarrow> Inl e
                   | Inr c4 \<Rightarrow>
                       (case connect_ready c4 of
                          (c5, None) \<Rightarrow> Inr c5
                        | (c5, Some e) \<Rightarrow> Inl e))))"

subsection \<open>Teardown\<close>

definition disconnect :: "conn \<Rightarrow> error + conn" where
  "disconnect c =
     (let c1 = (log_to INFO ''disconnecting from database'' c)\<lparr>state := STATE_INIT\<rparr>
      in case socket c1 of
           None \<Rightarrow> Inl (Raise AttributeError (no_attribute ''close''))
         | Some s \<Rightarrow> Inr (c1\<lparr>socket := Some (sock_close s)\<rparr>))"

definition bad_body :: string where
  "bad_body = ''ERROR'' @ [CHR 0x80] @ ''ERROR''"

definition sabotage :: "conn \<Rightarrow> error + conn" where
  "sabotage c =
     (let sock = socket c;
          c1 = c\<lparr>socket := None, state := STATE_INIT\<rparr>
      in case sock of
           None \<Rightarrow> Inr c1
         | Some s \<Rightarrow>
             (case struct_pack_H (2 * 8193 + 0) of
                Inl e \<Rightarrow> Inl e
              | Inr bad_header \<Rightarrow>
                  (case sock_send s (bad_header @ bad_body) of
                     Inl e \<Rightarrow> Inr (c1\<lparr>released := released c1 @ [s]\<rparr>)
                   | Inr s1 \<Rightarrow> Inr (c1\<lparr>released := released c1 @ [sock_close s1]\<rparr>))))"

subsection \<open>Commands\<close>

text \<open>
  \<^verbatim>\<open>_getblock_and_transfer_files\<close>. The loop ends when a block carries no file transfer
  request; what the file transfer handler does to the connection is the environment's,
  so the loop has no bound of its own and \<open>None\<close> stands for its not returning.
\<close>

partial_function (option) transfer_loop ::
  "env \<Rightarrow> conn \<Rightarrow> string \<Rightarrow> nat \<Rightarrow> (error + (string \<times> nat \<times> conn)) option" where
  "transfer_loop ev c buffer offset =
     (let old_offset = offset
      in case socket c of
           None \<Rightarrow> Some (Inl (Raise AssertionError []))
         | Some s \<Rightarrow>
        (case getblock_raw s buffer old_offset of
           Inl e \<Rightarrow> Some (Inl e)
         | Inr (s1, buffer1, offset1) \<Rightarrow>
            (let c1 = c\<lparr>socket := Some s1\<rparr>;
                 i = bytearray_rfind buffer1 (CHR 0x0A) (int old_offset) (int offset1 - 1)
             in if i \<ge> int old_offset + 2 \<and> py_slice buffer1 (i - 2) (i + 1) = MSG_FILETRANS
                then
                  (case decode_utf8 (py_slice buffer1 (i + 1) (int offset1 - 1)) of
                     Inl e \<Rightarrow> Some (Inl e)
                   | Inr command \<Rightarrow>
                       (case handle_file_transfer ev c1 command of
                          Inl e \<Rightarrow> Some (Inl e)
                        | Inr c2 \<Rightarrow> transfer_loop ev c2 buffer1 (nat (i - 2))))
                else Some (Inr (buffer1, offset1, c1)))))"

definition getblock_and_transfer_files :: "env \<Rightarrow> conn \<Rightarrow> (error + (string \<times> conn)) option" where
  "getblock_and_transfer_files ev c =
     (if truthy (is_raw_control c) then Some (recv_to_end c)
      else
        (let (buffer, c1) = get_buffer c
         in case transfer_loop ev c1 buffer 0 of
              None \<Rightarrow> None
            | Some (Inl e) \<Rightarrow> Some (Inl e)
            | Some (Inr (buffer1, offset, c2)) \<Rightarrow>
                (let c3 = stash_buffer buffer1 c2
                 in case decode_utf8 (take offset buffer1) of
                      Inl e \<Rightarrow> Some (Inl e)
                    | Inr text \<Rightarrow> Some (Inr (text, c3)))))"

text \<open>
  The first line of an update response that starts with the error marker, if there is
  one: \<^verbatim>\<open>any\<close> and \<^verbatim>\<open>next\<close> over \<^verbatim>\<open>response.split('\n')\<close>.
\<close>

definition update_error_line :: "string \<Rightarrow> string option" where
  "update_error_line response =
     (if take 2 response = MSG_QUPDATE
      then find (\<lambda>line. starts_with line MSG_ERROR) (split_on (CHR 0x0A) response)
      else None)"

text \<open>
  \<^verbatim>\<open>exception, msg = handle_error(s); raise exception(msg)\<close>. The indices of
  \<^verbatim>\<open>handle_error\<close> count the elements of the string it is given: characters there, bytes
  here, the same for a message in ASCII.
\<close>

definition raise_handled :: "string \<Rightarrow> error" where
  "raise_handled s = (case handle_error s of Inl e \<Rightarrow> e | Inr (exception, msg) \<Rightarrow> Raise exception msg)"

text \<open>
  \<^verbatim>\<open>cmd\<close>. The result \<open>None\<close> inside \<open>Inr\<close> is Python's \<^verbatim>\<open>None\<close>: the value of a call
  that ends without a \<^verbatim>\<open>return\<close> statement.
\<close>

partial_function (option) cmd ::
  "env \<Rightarrow> conn \<Rightarrow> string \<Rightarrow> (error + (string option \<times> conn)) option" where
  "cmd ev c operation =
     (let c0 = log_to DEBUG (''executing command '' @ operation) c
      in if state c0 \<noteq> STATE_READY then Some (Inl (Raise ProgrammingError ''Not connected''))
         else case putblock c0 operation of
           Inl e \<Rightarrow> Some (Inl e)
         | Inr c1 \<Rightarrow>
        (case getblock_and_transfer_files ev c1 of
           None \<Rightarrow> None
         | Some (Inl e) \<Rightarrow> Some (Inl e)
         | Some (Inr (response, c2)) \<Rightarrow>
             if length response = 0 then Some (Inr (Some [], c2))
             else if starts_with response MSG_OK
               then Some (Inr (Some (str_strip (drop 3 response)), c2))
             else if response = MSG_MORE then cmd ev c2 []
             else (case update_error_line response of
                     Some line \<Rightarrow> Some (Inl (raise_handled (drop 1 line)))
                   | None \<Rightarrow>
                       if take 1 response \<in> {MSG_Q, MSG_HEADER, MSG_TUPLE}
                         then Some (Inr (Some response, c2))
                       else if take 1 response = MSG_ERROR
                         then Some (Inl (raise_handled (drop 1 response)))
                       else if take 1 response = MSG_INFO
                         then Some (Inr (None, log_to INFO (drop 1 response) c2))
                       else if truthy (is_raw_control c2)
                         then (if starts_with response ''OK''
                               then Some (Inr (Some (str_strip (drop 2 response)), c2))
                               else Some (Inr (Some response, c2)))
                       else Some (Inl (Raise ProgrammingError (''unknown state: '' @ response))))))"

text \<open>\<^verbatim>\<open>binary_cmd\<close>: the bytes of the view it returns.\<close>

definition binary_cmd :: "conn \<Rightarrow> string \<Rightarrow> error + (string \<times> conn)" where
  "binary_cmd c operation =
     (let c0 = log_to DEBUG (''executing binary command '' @ operation) c
      in if state c0 \<noteq> STATE_READY then Inl (Raise ProgrammingError ''Not connected'')
         else case putblock c0 operation of
           Inl e \<Rightarrow> Inl e
         | Inr c1 \<Rightarrow>
             (let (buffer, c2) = get_buffer c1
              in case socket c2 of
                   None \<Rightarrow> Inl (Raise AssertionError [])
                 | Some s \<Rightarrow>
                (case getblock_raw s buffer 0 of
                   Inl e \<Rightarrow> Inl e
                 | Inr (s1, buffer1, n) \<Rightarrow>
                     (let view = take n buffer1;
                          c3 = stash_buffer buffer1 (c2\<lparr>socket := Some s1\<rparr>)
                      in if take 1 view = MSG_ERROR then
                           (let idx = bytes_find view (CHR 0x0A);
                                msg_bytes = (if idx > 0 then py_slice view 1 (idx + 1) else view)
                            in case decode_utf8 msg_bytes of
                                 Inl e \<Rightarrow> Inl e
                               | Inr text \<Rightarrow> Inl (raise_handled text))
                         else Inr (view, c3)))))"

section \<open>Notions of the specification\<close>

subsection \<open>The wire format\<close>

text \<open>
  The framing as the specification words it (section 4.A), to compare with what the code
  sends: the payload is split into chunks of at most 8190 bytes; each chunk follows its
  header, the 16-bit little-endian value \<open>(length << 1) | last\<close>, where \<open>last\<close> is set on
  the final chunk when \<open>finish\<close> holds; a payload whose length is a multiple of 8190 ends
  with a chunk of length zero.
\<close>

definition spec_header :: "nat \<Rightarrow> bool \<Rightarrow> string" where
  "spec_header len lastbit =
     (let v = 2 * len + (if lastbit then 1 else 0) in [char_of (v mod 256), char_of (v div 256)])"

function spec_frames :: "bool \<Rightarrow> string \<Rightarrow> string" where
  "spec_frames finish p =
     (if length p < 8190 then spec_header (length p) finish @ p
      else spec_header 8190 False @ take 8190 p @ spec_frames finish (drop 8190 p))"
  by pat_completeness auto
termination
  by (relation "measure (\<lambda>(finish, p). length p)") auto

declare spec_frames.simps [simp del]

subsection \<open>A receive that returns nothing\<close>

text \<open>
  \<open>starved segs count\<close>: while \<open>count\<close> bytes are being read from the segments \<open>segs\<close>, a
  receive returns 0 bytes (the peer has closed, or an empty delivery) before \<open>count\<close>
  bytes have arrived.
\<close>

fun starved :: "string list \<Rightarrow> nat \<Rightarrow> bool" where
  "starved segs 0 = False"
| "starved [] (Suc n) = True"
| "starved (seg # segs) (Suc n) =
     (seg = [] \<or> (length seg < Suc n \<and> starved segs (Suc n - length seg)))"

subsection \<open>Redirects without end\<close>

text \<open>
  \<open>all_redirect ev n c\<close>: each of the next \<open>n\<close> iterations of the loop of \<^verbatim>\<open>connect\<close>, from
  the connection \<open>c\<close> on, gets as far as \<^verbatim>\<open>_login\<close>, and \<^verbatim>\<open>_login\<close> returns \<^verbatim>\<open>False\<close>.
\<close>

fun all_redirect :: "env \<Rightarrow> nat \<Rightarrow> conn \<Rightarrow> bool" where
  "all_redirect ev 0 c = True"
| "all_redirect ev (Suc n) c =
     (case (if socket c = None then new_connection ev c else Inr c) of
        Inl e \<Rightarrow> False
      | Inr c1 \<Rightarrow>
          \<not> truthy (is_raw_control c1)
          \<and> (case login ev c1 of
                Inl e \<Rightarrow> False
              | Inr (ok, c2) \<Rightarrow> \<not> ok \<and> all_redirect ev n c2))"

section \<open>Example values\<close>

definition fresh_sock :: "string list \<Rightarrow> sock" where
  "fresh_sock segs = \<lparr>incoming = segs, outgoing = [], closed = False, send_fails = False\<rparr>"

definition demo_target :: target where
  "demo_target = \<lparr>user = Some ''monetdb'', password = Some ''monetdb'', database = Some ''demo'',
                   effective_language = ''sql'', effective_use_tls = False\<rparr>"

text \<open>A \<^verbatim>\<open>Connection\<close> as its class attributes initialise it.\<close>

definition new_conn :: "target \<Rightarrow> conn" where
  "new_conn t = \<lparr>state = STATE_INIT, target = t, socket = None, is_tcp = None,
                 is_raw_control = None, handshake_options_callback = None,
                 remaining_handshake_options = [], stashed_buffer = None,
                 server_endian = None, binexport_level = 0,
                 logger = [], fallback_calls = [], option_objects = [], released = [],
                 endpoints = []\<rparr>"

text \<open>A connection that is logged in on the given socket.\<close>

definition ready_conn :: "sock \<Rightarrow> conn" where
  "ready_conn s = (new_conn demo_target)\<lparr>state := STATE_READY, socket := Some s,
                     is_tcp := Some True, is_raw_control := Some False\<rparr>"

text \<open>
  An environment to run examples in: a stand-in for the hash functions that shows what
  was hashed, a parser for unsigned decimal numbers, and collaborators that accept
  everything and change nothing.
\<close>

definition demo_hash :: "string \<Rightarrow> string \<Rightarrow> string" where
  "demo_hash algo b = algo @ ''('' @ b @ '')''"

definition demo_int :: "string \<Rightarrow> int option" where
  "demo_int s =
     (if s \<noteq> [] \<and> list_all (\<lambda>ch. 48 \<le> (of_char ch :: nat) \<and> (of_char ch :: nat) \<le> 57) s
      then Some (int (foldl (\<lambda>acc ch. 10 * acc + (of_char ch - 48)) 0 s))
      else None)"

definition demo_env :: env where
  "demo_env =
     \<lparr>hashlib_new = (\<lambda>algo. if algo \<in> {''SHA512'', ''SHA256'', ''SHA1''}
                            then Inr (demo_hash algo)
                            else Inl (''unsupported hash type '' @ algo)),
      int_of_str = demo_int,
      validate = (\<lambda>t. None),
      parse_url = (\<lambda>t url. Inr t),
      parse_mapi_merovingian_url = (\<lambda>t url. Inr t),
      wrap_socket = (\<lambda>t s. Inr s),
      handle_file_transfer = (\<lambda>c command. Inr c)\<rparr>"

text \<open>A reply that is an information message.\<close>

definition info_conn :: conn where
  "info_conn = ready_conn (fresh_sock [CHR 0x0D # CHR 0x00 # ''#hello''])"

text \<open>Three handshake options, as a callback would return them.\<close>

definition demo_options :: "int \<Rightarrow> HandshakeOption list" where
  "demo_options binexport =
     [\<lparr>level = 1, name = ''auto_commit'', opt_value = 1, fallback = (\<lambda>v. None), sent = False\<rparr>,
      \<lparr>level = 2, name = ''reply_size'', opt_value = 100, fallback = (\<lambda>v. None), sent = False\<rparr>,
      \<lparr>level = 5, name = ''time_zone'', opt_value = 3600, fallback = (\<lambda>v. None), sent = False\<rparr>]"

text \<open>
  A server that answers every login with a redirect to another server: it sends its
  challenge and, whatever the response, the redirect.
\<close>

definition demo_challenge :: string where
  "demo_challenge = ''sXYZ:mserver:9:SHA256,SHA1:LIT:SHA512:''"

definition redirect_prompt :: string where
  "redirect_prompt = ''^mapi:monetdb://other:50000/demo'' @ [CHR 0x0A]"

definition redirect_server :: sock where
  "redirect_server = fresh_sock [spec_frames True demo_challenge, spec_frames True redirect_prompt]"

text \<open>
  A server that advertises the options level 4 and the binary export level 1, and
  accepts the login: after the response it sends an empty block. A client about to
  connect to it.
\<close>

definition options_challenge :: string where
  "options_challenge = ''sXYZ:mserver:9:SHA256,SHA1:LIT:SHA512:sql=4:BINARY=1:''"

definition options_server :: sock where
  "options_server = fresh_sock [spec_frames True options_challenge, spec_frames True []]"

definition options_client :: conn where
  "options_client = (new_conn demo_target)\<lparr>endpoints := [Inr (options_server, True)]\<rparr>"

text \<open>Three handshake options; the fallback of the second one raises.\<close>

definition failing_options :: "int \<Rightarrow> HandshakeOption list" where
  "failing_options binexport =
     [\<lparr>level = 2, name = ''reply_size'', opt_value = 100, fallback = (\<lambda>v. None), sent = False\<rparr>,
      \<lparr>level = 4, name = ''columnar_protocol'', opt_value = 1,
        fallback = (\<lambda>v. Some (Raise OperationalError ''columnar protocol refused'')), sent = False\<rparr>,
      \<lparr>level = 5, name = ''time_zone'', opt_value = 3600, fallback = (\<lambda>v. None), sent = False\<rparr>]"

section \<open>Properties of the framer\<close>


lemma getbytes_loop_reads:
  assumes "\<not> closed s" and "[] \<notin> set (incoming s)"
    and "concat (incoming s) = data @ rest"
    and "end = offset + length data" and "end \<le> length buffer"
  shows "\<exists>segs. getbytes_loop s buffer offset end
            = Inr (s\<lparr>incoming := segs\<rparr>, take offset buffer @ data @ drop end buffer)
          \<and> concat segs = rest \<and> [] \<notin> set segs"
  using assms
proof (induction "length data" arbitrary: s buffer offset data rule: less_induct)
  case less
  show ?case
  proof (cases data)
    case Nil
    with less.prems have "getbytes_loop s buffer offset end = Inr (s, buffer)"
      by (subst getbytes_loop.simps) simp
    moreover have "s\<lparr>incoming := incoming s\<rparr> = s" by simp
    ultimately show ?thesis using less.prems Nil
      by (intro exI [of _ "incoming s"]) simp
  next
    case (Cons d ds)
    with less.prems obtain seg segs0 where inc: "incoming s = seg # segs0"
      by (cases "incoming s") auto
    with less.prems have segne: "seg \<noteq> []" and ne0: "[] \<notin> set segs0" by auto
    define m where "m = length data"
    define d1 where "d1 = take m seg"
    define segs1 where "segs1 = (if length seg \<le> m then segs0 else drop m seg # segs0)"
    have mpos: "0 < m" using Cons by (simp add: m_def)
    have rc: "recv_into s (end - offset) = Inr (s\<lparr>incoming := segs1\<rparr>, d1)"
      using less.prems inc by (simp add: recv_into_def m_def d1_def segs1_def)
    have d1ne: "d1 \<noteq> []" using segne mpos by (simp add: d1_def)
    have cat: "d1 @ concat segs1 = data @ rest"
    proof -
      have "d1 @ concat segs1 = seg @ concat segs0"
        by (simp add: d1_def segs1_def append_assoc [symmetric] del: append_assoc)
      with less.prems(3) inc show ?thesis by simp
    qed
    have d1len: "length d1 \<le> m" by (simp add: d1_def)
    define data' where "data' = drop (length d1) data"
    have dsplit: "data = d1 @ data'"
    proof -
      have "take (length d1) (d1 @ concat segs1) = take (length d1) (data @ rest)"
        using cat by simp
      then have "d1 = take (length d1) data" using d1len by (simp add: m_def)
      then show ?thesis by (simp add: data'_def) (metis append_take_drop_id)
    qed
    have cat': "concat segs1 = data' @ rest"
      using cat dsplit by (metis append_assoc same_append_eq)
    have ne1: "[] \<notin> set segs1" using ne0 by (auto simp: segs1_def)
    have lt: "length data' < length data" using dsplit d1ne
      by (metis add_diff_cancel_right' data'_def diff_less length_append length_drop
          length_greater_0_conv less.prems(4) less_add_same_cancel1 mpos m_def)
    let ?b1 = "take offset buffer @ d1 @ drop (offset + length d1) buffer"
    have lenb1: "length ?b1 = length buffer"
      using less.prems(4,5) d1len by (simp add: m_def)
    have e': "end = (offset + length d1) + length data'"
      using less.prems(4) dsplit by (metis add.assoc length_append)
    from less.hyps [OF lt, of "s\<lparr>incoming := segs1\<rparr>" "offset + length d1" ?b1] cat' ne1 e' lenb1
      less.prems(1,5)
    obtain segs where
      rec: "getbytes_loop (s\<lparr>incoming := segs1\<rparr>) ?b1 (offset + length d1) end
              = Inr (s\<lparr>incoming := segs\<rparr>, take (offset + length d1) ?b1 @ data' @ drop end ?b1)"
      and segs: "concat segs = rest" "[] \<notin> set segs"
      by auto
    have lt_end: "offset < end" using less.prems(4) Cons by simp
    have t1: "take (offset + length d1) ?b1 = take offset buffer @ d1"
      using less.prems(4,5) d1len by (simp add: m_def)
    have t2: "drop end ?b1 = drop end buffer"
    proof -
      have "length (take offset buffer @ d1) = offset + length d1"
        using less.prems(4,5) by simp
      then have "drop end ?b1 = drop (length data') (drop (offset + length d1) buffer)"
        using e' by (simp del: length_append append_assoc add: append_assoc [symmetric])
      also have "\<dots> = drop end buffer" using e' by (simp add: add.commute)
      finally show ?thesis .
    qed
    have "getbytes_loop s buffer offset end
            = Inr (s\<lparr>incoming := segs\<rparr>, take offset buffer @ data @ drop end buffer)"
      using rc rec d1ne lt_end t1 t2 dsplit
      by (simp add: getbytes_loop.simps [of s buffer offset "end"])
    with segs show ?thesis by blast
  qed
qed


lemma getbytes_reads:
  assumes "\<not> closed s" and "[] \<notin> set (incoming s)"
    and "concat (incoming s) = data @ rest"
    and "offset \<le> length buffer"
  shows "\<exists>segs buffer'. getbytes s buffer offset (length data)
            = Inr (s\<lparr>incoming := segs\<rparr>, buffer', offset + length data)
          \<and> concat segs = rest \<and> [] \<notin> set segs
          \<and> take (offset + length data) buffer' = take offset buffer @ data
          \<and> offset + length data \<le> length buffer'"
proof -
  define e where "e = length data + offset"
  define B where "B = (if length buffer < e
                     then buffer @ replicate ((1 + (e - length buffer) div 8192) * 8192) (CHR 0x00)
                     else buffer)"
  have lenB: "e \<le> length B"
  proof (cases "length buffer < e")
    case True
    have "e - length buffer < (1 + (e - length buffer) div 8192) * 8192"
      by (simp add: dividend_less_times_div)
    with True show ?thesis by (simp add: B_def)
  next
    case False
    then show ?thesis by (simp add: B_def)
  qed
  have takeB: "take offset B = take offset buffer"
    using assms(4) by (simp add: B_def)
  from getbytes_loop_reads [OF assms(1-3), of e offset B] lenB
  obtain segs where
    lp: "getbytes_loop s B offset e = Inr (s\<lparr>incoming := segs\<rparr>, take offset B @ data @ drop e B)"
    and segs: "concat segs = rest" "[] \<notin> set segs"
    by (auto simp: e_def add.commute)
  have off: "length (take offset B) = offset" using lenB by (simp add: e_def)
  have "getbytes s buffer offset (length data)
          = Inr (s\<lparr>incoming := segs\<rparr>, take offset B @ data @ drop e B, offset + length data)"
    using lp by (simp add: getbytes_def Let_def e_def [symmetric] B_def [symmetric]) (simp add: e_def)
  moreover have "take (offset + length data) (take offset B @ data @ drop e B) = take offset buffer @ data"
    using off takeB by simp
  moreover have "offset + length data \<le> length (take offset B @ data @ drop e B)"
    using off by simp
  ultimately show ?thesis using segs by blast
qed


lemma unpack_header:
  fixes v :: nat
  assumes "v < 65536"
  shows "(of_char (char_of (v mod 256)) :: nat) + 256 * of_char (char_of (v div 256)) = v"
proof -
  from assms have "v div 256 < 256" by simp
  then show ?thesis by simp
qed

lemma get_minor_block_reads:
  fixes b :: nat
  assumes "\<not> closed s" and "[] \<notin> set (incoming s)"
    and inc: "concat (incoming s) = [char_of (v mod 256), char_of (v div 256)] @ payload @ rest"
    and v: "v = 2 * length payload + b" and b: "b \<le> 1" and small: "v < 65536"
    and off: "offset \<le> length buffer"
  shows "\<exists>segs buffer'. get_minor_block s buffer offset
            = Inr (s\<lparr>incoming := segs\<rparr>, buffer', offset + length payload, b = 1)
          \<and> concat segs = rest \<and> [] \<notin> set segs
          \<and> take (offset + length payload) buffer' = take offset buffer @ payload
          \<and> offset + length payload \<le> length buffer'"
proof -
  let ?hdr = "[char_of (v mod 256), char_of (v div 256)]"
  have "\<exists>segs1 buffer1.
          getbytes s buffer offset 2 = Inr (s\<lparr>incoming := segs1\<rparr>, buffer1, offset + 2)
        \<and> concat segs1 = payload @ rest \<and> [] \<notin> set segs1
        \<and> take (offset + 2) buffer1 = take offset buffer @ ?hdr
        \<and> offset + 2 \<le> length buffer1"
    using getbytes_reads [OF assms(1,2) _ off, of ?hdr "payload @ rest"] inc
    by (simp add: numeral_2_eq_2)
  then obtain segs1 buffer1 where
    g1: "getbytes s buffer offset 2 = Inr (s\<lparr>incoming := segs1\<rparr>, buffer1, offset + 2)"
    and segs1: "concat segs1 = payload @ rest" "[] \<notin> set segs1"
    and tk1: "take (offset + 2) buffer1 = take offset buffer @ ?hdr"
    and len1: "offset + 2 \<le> length buffer1"
    by blast
  have lo: "length (take offset buffer) = offset" using off by simp
  have "buffer1 ! offset = take (offset + 2) buffer1 ! offset" by simp
  also have "\<dots> = char_of (v mod 256)" unfolding tk1 using lo by (simp add: nth_append)
  finally have b0: "buffer1 ! offset = char_of (v mod 256)" .
  have "buffer1 ! (offset + 1) = take (offset + 2) buffer1 ! (offset + 1)" by simp
  also have "\<dots> = char_of (v div 256)" unfolding tk1 using lo by (simp add: nth_append)
  finally have b1: "buffer1 ! (offset + 1) = char_of (v div 256)" .
  have unpacked: "(of_char (buffer1 ! offset) :: nat) + 256 * of_char (buffer1 ! (offset + 1)) = v"
    unfolding b0 b1 by (rule unpack_header [OF small])
  have len: "drop_bit 1 v = length payload" using v b by (simp add: drop_bit_eq_div)
  have lst: "(v AND 1 \<noteq> 0) = (b = 1)" using v b by (auto simp: and_one_eq)
  have tk0: "take offset buffer1 = take offset buffer"
  proof -
    have "take offset buffer1 = take offset (take (offset + 2) buffer1)" by simp
    also have "\<dots> = take offset buffer" unfolding tk1 using lo by simp
    finally show ?thesis .
  qed
  show ?thesis
  proof (cases "payload = []")
    case True
    have "get_minor_block s buffer offset = Inr (s\<lparr>incoming := segs1\<rparr>, buffer1, offset, b = 1)"
      using g1 unpacked len lst True by (simp add: get_minor_block_def Let_def)
    with segs1 True tk0 len1 show ?thesis by auto
  next
    case False
    have c1: "\<not> closed (s\<lparr>incoming := segs1\<rparr>)" using assms(1) by simp
    have i1: "[] \<notin> set (incoming (s\<lparr>incoming := segs1\<rparr>))" using segs1 by simp
    have cc: "concat (incoming (s\<lparr>incoming := segs1\<rparr>)) = payload @ rest" using segs1 by simp
    have o1: "offset \<le> length buffer1" using len1 by simp
    from getbytes_reads [OF c1 i1 cc o1]
    obtain segs2 buffer2 where
      g2: "getbytes (s\<lparr>incoming := segs1\<rparr>) buffer1 offset (length payload)
             = Inr (s\<lparr>incoming := segs2\<rparr>, buffer2, offset + length payload)"
      and segs2: "concat segs2 = rest" "[] \<notin> set segs2"
      and tk2: "take (offset + length payload) buffer2 = take offset buffer1 @ payload"
      and len2: "offset + length payload \<le> length buffer2"
      by auto
    have "get_minor_block s buffer offset
            = Inr (s\<lparr>incoming := segs2\<rparr>, buffer2, offset + length payload, b = 1)"
      using g1 g2 unpacked len lst False by (simp add: get_minor_block_def Let_def)
    with segs2 tk2 tk0 len2 show ?thesis by auto
  qed
qed


lemma putblock_raw_loop_sends:
  assumes "\<not> closed s" and "\<not> send_fails s"
  shows "putblock_raw_loop s block finish pos
           = Inr (s\<lparr>outgoing := outgoing s @ spec_frames finish (drop pos block)\<rparr>)"
  using assms
proof (induction s block finish pos rule: putblock_raw_loop.induct)
  case (1 s block finish pos)
  let ?data = "take MAX_PACKAGE_LENGTH (drop pos block)"
  show ?case
  proof (cases "length (drop pos block) < 8190")
    case True
    then have data: "?data = drop pos block" by (simp add: MAX_PACKAGE_LENGTH_def)
    have "struct_pack_H (push_bit 1 (length (drop pos block)) + (if finish then 1 else 0))
            = Inr (spec_header (length (drop pos block)) finish)"
      using True by (simp add: struct_pack_H_def spec_header_def push_bit_eq_mult Let_def mult.commute)
    then show ?thesis
      using True "1.prems" data
      apply (subst putblock_raw_loop.simps)
      apply (subst spec_frames.simps)
      apply (cases finish)
       apply (simp_all add: Let_def sock_send_def MAX_PACKAGE_LENGTH_def)
      done
  next
    case False
    then have len: "length ?data = 8190" by (simp add: MAX_PACKAGE_LENGTH_def)
    have hd: "struct_pack_H (push_bit 1 (length ?data) + 0) = Inr (spec_header 8190 False)"
      using len by (simp add: struct_pack_H_def spec_header_def push_bit_eq_mult Let_def)
    define s1 where "s1 = s\<lparr>outgoing := outgoing s @ spec_header 8190 False\<rparr>"
    define s2 where "s2 = s1\<lparr>outgoing := outgoing s1 @ ?data\<rparr>"
    have snd1: "sock_send s (spec_header 8190 False) = Inr s1"
      using "1.prems" by (simp add: sock_send_def s1_def)
    have snd2: "sock_send s1 ?data = Inr s2"
      using "1.prems" by (simp add: sock_send_def s1_def s2_def)
    have h2: "\<not> closed s2" "\<not> send_fails s2" using "1.prems" by (simp_all add: s1_def s2_def)
    have lastz: "(if length ?data < MAX_PACKAGE_LENGTH then 1 else 0 :: nat) = 0"
      using len by (simp add: MAX_PACKAGE_LENGTH_def)
    have hd2: "struct_pack_H (push_bit 1 (length ?data)
                 + (if finish then (if length ?data < MAX_PACKAGE_LENGTH then 1 else 0) else 0))
               = Inr (spec_header 8190 False)"
      using hd lastz by simp
    have nl: "\<not> (if length ?data < MAX_PACKAGE_LENGTH then 1 else 0 :: nat) \<noteq> 0"
      using lastz by simp
    have IH: "putblock_raw_loop s2 block finish (pos + length ?data)
                = Inr (s2\<lparr>outgoing := outgoing s2 @ spec_frames finish (drop (pos + length ?data) block)\<rparr>)"
      by (rule "1.IH" [OF refl refl refl hd2 snd1 snd2 nl h2])
    have unfold: "putblock_raw_loop s block finish pos
                    = putblock_raw_loop s2 block finish (pos + length ?data)"
      apply (subst putblock_raw_loop.simps)
      using hd2 snd1 snd2 lastz apply (simp only: Let_def sum.case if_False simp_thms)
      done
    have fr: "spec_frames finish (drop pos block)
                = spec_header 8190 False @ ?data @ spec_frames finish (drop (pos + length ?data) block)"
      using False len
      by (subst spec_frames.simps) (simp add: MAX_PACKAGE_LENGTH_def add.commute)
    show ?thesis unfolding unfold IH fr by (simp add: s1_def s2_def)
  qed
qed


lemma getblock_raw_reads:
  assumes "\<not> closed r" and "[] \<notin> set (incoming r)"
    and "concat (incoming r) = spec_frames True p @ rest"
    and "offset \<le> length buffer"
  shows "\<exists>segs buffer'. getblock_raw r buffer offset
            = Inr (r\<lparr>incoming := segs\<rparr>, buffer', offset + length p)
          \<and> concat segs = rest \<and> [] \<notin> set segs
          \<and> take (offset + length p) buffer' = take offset buffer @ p"
  using assms
proof (induction "length p" arbitrary: r buffer offset p rule: less_induct)
  case less
  show ?case
  proof (cases "length p < 8190")
    case True
    define v where "v = 2 * length p + (1::nat)"
    have fr: "spec_frames True p = [char_of (v mod 256), char_of (v div 256)] @ p"
      using True by (subst spec_frames.simps) (simp add: spec_header_def v_def)
    have inc: "concat (incoming r) = [char_of (v mod 256), char_of (v div 256)] @ p @ rest"
      using less.prems(3) fr by simp
    have small: "v < 65536" using True by (simp add: v_def)
    from get_minor_block_reads [OF less.prems(1,2) inc v_def _ small less.prems(4)]
    obtain segs buffer' where
      mb: "get_minor_block r buffer offset = Inr (r\<lparr>incoming := segs\<rparr>, buffer', offset + length p, True)"
      and rest: "concat segs = rest" "[] \<notin> set segs"
        "take (offset + length p) buffer' = take offset buffer @ p"
      by auto
    have "getblock_raw r buffer offset = Inr (r\<lparr>incoming := segs\<rparr>, buffer', offset + length p)"
      by (subst getblock_raw.simps) (simp add: mb)
    with rest show ?thesis by blast
  next
    case False
    define v where "v = 2 * length (take 8190 p) + (0::nat)"
    define p' where "p' = drop 8190 p"
    have lenc: "length (take 8190 p) = 8190" using False by simp
    have fr: "spec_frames True p
                = [char_of (v mod 256), char_of (v div 256)] @ take 8190 p @ spec_frames True p'"
      using False by (subst spec_frames.simps) (simp add: spec_header_def v_def p'_def)
    have inc: "concat (incoming r)
                 = [char_of (v mod 256), char_of (v div 256)] @ take 8190 p @ (spec_frames True p' @ rest)"
      using less.prems(3) fr by simp
    have small: "v < 65536" using lenc by (simp add: v_def)
    from get_minor_block_reads [OF less.prems(1,2) inc v_def _ small less.prems(4)]
    obtain segs1 buffer1 where
      mb: "get_minor_block r buffer offset
             = Inr (r\<lparr>incoming := segs1\<rparr>, buffer1, offset + length (take 8190 p), False)"
      and rest1: "concat segs1 = spec_frames True p' @ rest" "[] \<notin> set segs1"
        "take (offset + length (take 8190 p)) buffer1 = take offset buffer @ take 8190 p"
        "offset + length (take 8190 p) \<le> length buffer1"
      by auto
    have lt: "length p' < length p" using False by (simp add: p'_def)
    have c1: "\<not> closed (r\<lparr>incoming := segs1\<rparr>)" using less.prems(1) by simp
    have i1: "[] \<notin> set (incoming (r\<lparr>incoming := segs1\<rparr>))" using rest1 by simp
    have cc: "concat (incoming (r\<lparr>incoming := segs1\<rparr>)) = spec_frames True p' @ rest"
      using rest1 by simp
    from less.hyps [OF lt c1 i1 cc rest1(4)]
    obtain segs buffer' where
      rec: "getblock_raw (r\<lparr>incoming := segs1\<rparr>) buffer1 (offset + length (take 8190 p))
              = Inr (r\<lparr>incoming := segs\<rparr>, buffer', offset + length (take 8190 p) + length p')"
      and rest2: "concat segs = rest" "[] \<notin> set segs"
        "take (offset + length (take 8190 p) + length p') buffer'
           = take (offset + length (take 8190 p)) buffer1 @ p'"
      by auto
    have total: "offset + length (take 8190 p) + length p' = offset + length p"
      using False by (simp add: p'_def)
    have "getblock_raw r buffer offset = Inr (r\<lparr>incoming := segs\<rparr>, buffer', offset + length p)"
      using rec total by (subst getblock_raw.simps) (simp only: mb sum.case prod.case if_False)
    moreover have "take (offset + length p) buffer' = take offset buffer @ p"
    proof -
      have "take (offset + length p) buffer' = take (offset + length (take 8190 p)) buffer1 @ p'"
        using rest2(3) unfolding total .
      also have "\<dots> = take offset buffer @ take 8190 p @ p'" unfolding rest1(3) by simp
      also have "\<dots> = take offset buffer @ p" by (simp add: p'_def)
      finally show ?thesis .
    qed
    ultimately show ?thesis using rest2 by blast
  qed
qed


lemma spec_frames_multiple:
  "length P = k * 8190 \<Longrightarrow>
   spec_frames True P
     = concat (map (\<lambda>i. spec_header 8190 False @ take 8190 (drop (i * 8190) P)) [0..<k])
       @ spec_header 0 True"
proof (induction k arbitrary: P)
  case 0
  then show ?case by (subst spec_frames.simps) simp
next
  case (Suc k)
  then have len: "length (drop 8190 P) = k * 8190" by simp
  have ge: "\<not> length P < 8190" using Suc.prems by simp
  have idx: "[0..<Suc k] = 0 # map Suc [0..<k]"
    by (simp add: upt_conv_Cons map_Suc_upt del: upt_Suc)
  have "spec_frames True P = spec_header 8190 False @ take 8190 P @ spec_frames True (drop 8190 P)"
    using ge by (subst spec_frames.simps) simp
  also have "spec_frames True (drop 8190 P)
      = concat (map (\<lambda>i. spec_header 8190 False @ take 8190 (drop (i * 8190) (drop 8190 P))) [0..<k])
        @ spec_header 0 True"
    by (rule Suc.IH [OF len])
  finally show ?case
    unfolding idx by (simp add: o_def add.commute)
qed

text \<open>
  Claim C1. A payload \<open>P\<close> written with \<open>finish = True\<close> on a working socket goes
  out as the frames of the specification (minor blocks of at most 8190 bytes, each after
  its 16-bit little-endian header \<open>(length << 1) | last\<close>), and a reader that receives
  exactly these bytes, in whatever segments they arrive and whatever follows them,
  returns from \<^verbatim>\<open>_getblock_raw\<close> with \<open>P\<close> in the first \<open>length P\<close> bytes of its buffer.
\<close>

theorem framing_roundtrip:
  assumes "\<not> closed w" and "\<not> send_fails w"
  shows "putblock_raw w P True = Inr (w\<lparr>outgoing := outgoing w @ spec_frames True P\<rparr>) \<and>
         (\<forall>(r::sock) buffer rest.
            \<not> closed r \<and> [] \<notin> set (incoming r) \<and> concat (incoming r) = spec_frames True P @ rest
            \<longrightarrow> (\<exists>segs buffer'.
                   getblock_raw r buffer 0 = Inr (r\<lparr>incoming := segs\<rparr>, buffer', length P)
                 \<and> take (length P) buffer' = P \<and> concat segs = rest))"
proof (intro conjI allI impI)
  show "putblock_raw w P True = Inr (w\<lparr>outgoing := outgoing w @ spec_frames True P\<rparr>)"
    using putblock_raw_loop_sends [OF assms, of P True 0] by (simp add: putblock_raw_def)
next
  fix r :: sock and buffer rest
  assume h: "\<not> closed r \<and> [] \<notin> set (incoming r) \<and> concat (incoming r) = spec_frames True P @ rest"
  then have "\<exists>segs buffer'. getblock_raw r buffer 0
            = Inr (r\<lparr>incoming := segs\<rparr>, buffer', 0 + length P)
          \<and> concat segs = rest \<and> [] \<notin> set segs
          \<and> take (0 + length P) buffer' = take 0 buffer @ P"
    by (intro getblock_raw_reads) simp_all
  then show "\<exists>segs buffer'.
               getblock_raw r buffer 0 = Inr (r\<lparr>incoming := segs\<rparr>, buffer', length P)
             \<and> take (length P) buffer' = P \<and> concat segs = rest"
    by auto
qed


theorem framing_roundtrip_witness:
  "putblock_raw \<lparr>incoming = [], outgoing = [], closed = False, send_fails = False\<rparr> ''SELECT 1;'' True
     = Inr \<lparr>incoming = [], outgoing = [CHR 0x13, CHR 0x00] @ ''SELECT 1;'', closed = False, send_fails = False\<rparr>
   \<and> (\<exists>segs buffer'.
         getblock_raw \<lparr>incoming = [[CHR 0x13], [CHR 0x00, CHR ''S''], ''ELECT'', '' 1;''],
                       outgoing = [], closed = False, send_fails = False\<rparr> [] 0
           = Inr (\<lparr>incoming = segs, outgoing = [], closed = False, send_fails = False\<rparr>, buffer', 9)
       \<and> take 9 buffer' = ''SELECT 1;'' \<and> concat segs = [])"
proof -
  let ?w = "\<lparr>incoming = [], outgoing = [], closed = False, send_fails = False\<rparr>"
  let ?r = "\<lparr>incoming = [[CHR 0x13], [CHR 0x00, CHR ''S''], ''ELECT'', '' 1;''],
             outgoing = [], closed = False, send_fails = False\<rparr>"
  have fr: "spec_frames True ''SELECT 1;'' = [CHR 0x13, CHR 0x00] @ ''SELECT 1;''"
    by (subst spec_frames.simps) (simp add: spec_header_def char_of_def bit_0)
  have len: "length ''SELECT 1;'' = 9" by simp
  have hw: "\<not> closed ?w" "\<not> send_fails ?w" by simp_all
  note rt = framing_roundtrip [OF hw, of "''SELECT 1;''", unfolded fr len]
  from rt have a: "putblock_raw ?w ''SELECT 1;'' True
     = Inr \<lparr>incoming = [], outgoing = [CHR 0x13, CHR 0x00] @ ''SELECT 1;'', closed = False, send_fails = False\<rparr>"
    by simp
  have hr: "\<not> closed ?r \<and> [] \<notin> set (incoming ?r)
        \<and> concat (incoming ?r) = ([CHR 0x13, CHR 0x00] @ ''SELECT 1;'') @ []"
    by simp
  from rt have "\<forall>r buffer rest.
        \<not> closed r \<and> [] \<notin> set (incoming r)
        \<and> concat (incoming r) = ([CHR 0x13, CHR 0x00] @ ''SELECT 1;'') @ rest
      \<longrightarrow> (\<exists>segs buffer'.
             getblock_raw r buffer 0 = Inr (r\<lparr>incoming := segs\<rparr>, buffer', 9)
           \<and> take 9 buffer' = ''SELECT 1;'' \<and> concat segs = rest)" ..
  with hr have "\<exists>segs buffer'.
             getblock_raw ?r [] 0 = Inr (?r\<lparr>incoming := segs\<rparr>, buffer', 9)
           \<and> take 9 buffer' = ''SELECT 1;'' \<and> concat segs = []"
    by blast
  then obtain segs buffer' where
    "getblock_raw ?r [] 0 = Inr (?r\<lparr>incoming := segs\<rparr>, buffer', 9)"
    "take 9 buffer' = ''SELECT 1;''" "concat segs = []"
    by blast
  then have "getblock_raw ?r [] 0
           = Inr (\<lparr>incoming = segs, outgoing = [], closed = False, send_fails = False\<rparr>, buffer', 9)
       \<and> take 9 buffer' = ''SELECT 1;'' \<and> concat segs = []"
    by simp
  then have "\<exists>segs buffer'. getblock_raw ?r [] 0
           = Inr (\<lparr>incoming = segs, outgoing = [], closed = False, send_fails = False\<rparr>, buffer', 9)
       \<and> take 9 buffer' = ''SELECT 1;'' \<and> concat segs = []"
    by blast
  with a show ?thesis by blast
qed

text \<open>
  Claim C7. When the length of \<open>P\<close> is \<open>k\<close> times 8190, what \<^verbatim>\<open>_putblock_raw\<close> sends with
  \<open>finish = True\<close> is \<open>k\<close> full chunks of 8190 bytes, each after the header of value
  \<open>8190 << 1\<close> (last bit 0), and then a block of length zero whose header has the value 1:
  the last bit, and nothing after it. The claim's case \<open>0 < length P\<close> is \<open>0 < k\<close>.
\<close>

theorem exact_multiple_ends_with_empty_last_block:
  assumes "\<not> closed w" and "\<not> send_fails w" and "length P = k * 8190"
  shows "putblock_raw w P True
           = Inr (w\<lparr>outgoing := outgoing w
                   @ concat (map (\<lambda>i. spec_header 8190 False @ take 8190 (drop (i * 8190) P)) [0..<k])
                   @ spec_header 0 True\<rparr>)
         \<and> spec_header 8190 False = [CHR 0xFC, CHR 0x3F]
         \<and> spec_header 0 True = [CHR 0x01, CHR 0x00]"
proof -
  have "spec_header 8190 False = [CHR 0xFC, CHR 0x3F]"
    by (simp add: spec_header_def char_of_def bit_0)
  moreover have "spec_header 0 True = [CHR 0x01, CHR 0x00]"
    by (simp add: spec_header_def char_of_def bit_0)
  moreover have "putblock_raw w P True = Inr (w\<lparr>outgoing := outgoing w @ spec_frames True P\<rparr>)"
    using putblock_raw_loop_sends [OF assms(1,2), of P True 0] by (simp add: putblock_raw_def)
  ultimately show ?thesis using spec_frames_multiple [OF assms(3)] by simp
qed

theorem exact_multiple_witness:
  "putblock_raw \<lparr>incoming = [], outgoing = [], closed = False, send_fails = False\<rparr>
      (replicate 8190 (CHR ''a'')) True
    = Inr \<lparr>incoming = [], outgoing = [CHR 0xFC, CHR 0x3F] @ replicate 8190 (CHR ''a'') @ [CHR 0x01, CHR 0x00],
           closed = False, send_fails = False\<rparr>"
proof -
  let ?w = "\<lparr>incoming = [], outgoing = [], closed = False, send_fails = False\<rparr>"
  have hw: "\<not> closed ?w" "\<not> send_fails ?w" by simp_all
  have len: "length (replicate 8190 (CHR ''a'')) = 1 * 8190" by simp
  from exact_multiple_ends_with_empty_last_block [OF hw len]
  show ?thesis by simp
qed


section \<open>Reading from a closed connection\<close>


lemma getbytes_loop_closed:
  "getbytes_loop s buffer offset end = Inr (s1, buffer1) \<Longrightarrow> closed s1 = closed s"
proof (induction s buffer offset "end" arbitrary: s1 buffer1 rule: getbytes_loop.induct)
  case (1 s buffer offset "end")
  show ?case
  proof (cases "offset < end")
    case False
    with "1.prems" show ?thesis
      by (simp add: getbytes_loop.simps [of s buffer offset "end"])
  next
    case True
    with "1.prems" obtain s2 data where
      rc: "recv_into s (end - offset) = Inr (s2, data)" and ne: "length data \<noteq> 0" and
      rest: "getbytes_loop s2 (take offset buffer @ data @ drop (offset + length data) buffer)
               (offset + length data) end = Inr (s1, buffer1)"
      by (auto simp: getbytes_loop.simps [of s buffer offset "end"] split: sum.splits if_splits)
    from rc have "closed s2 = closed s"
      by (auto simp: recv_into_def split: if_splits list.splits)
    with "1.IH" [OF True rc _ _ rest] ne show ?thesis by simp
  qed
qed

lemma getbytes_closed:
  "getbytes s buffer offset count = Inr (s1, buffer1, e) \<Longrightarrow> closed s1 = closed s"
  by (auto simp: getbytes_def Let_def split: sum.splits dest: getbytes_loop_closed)

lemma getbytes_loop_starved:
  assumes "\<not> closed s" and "starved (incoming s) (end - offset)"
  shows "getbytes_loop s buffer offset end = Inl (Raise BrokenPipeError ''Server closed connection'')"
  using assms
proof (induction "incoming s" arbitrary: s buffer offset)
  case Nil
  from Nil.prems(2) have lt: "offset < end" by (cases "end - offset") auto
  have "recv_into s (end - offset) = Inr (s, [])"
    using Nil.hyps [symmetric] Nil.prems(1) by (simp add: recv_into_def)
  with lt show ?case by (subst getbytes_loop.simps) simp
next
  case (Cons seg segs)
  from Cons.prems(2) obtain n where n: "end - offset = Suc n" by (cases "end - offset") auto
  then have lt: "offset < end" by simp
  have inc: "incoming s = seg # segs" using Cons.hyps(2) by simp
  show ?case
  proof (cases "seg = []")
    case True
    have "recv_into s (end - offset) = Inr (s\<lparr>incoming := segs\<rparr>, [])"
      using inc Cons.prems(1) True by (simp add: recv_into_def)
    with lt show ?thesis by (subst getbytes_loop.simps) simp
  next
    case False
    with Cons.prems(2) inc n have short: "length seg < Suc n"
      and st: "starved segs (Suc n - length seg)" by auto
    have rc: "recv_into s (end - offset) = Inr (s\<lparr>incoming := segs\<rparr>, seg)"
      using inc Cons.prems(1) short n by (simp add: recv_into_def)
    have "end - (offset + length seg) = Suc n - length seg" using n by simp
    with st have st': "starved (incoming (s\<lparr>incoming := segs\<rparr>)) (end - (offset + length seg))"
      by simp
    have "getbytes_loop (s\<lparr>incoming := segs\<rparr>)
            (take offset buffer @ seg @ drop (offset + length seg) buffer) (offset + length seg) end
          = Inl (Raise BrokenPipeError ''Server closed connection'')"
      by (rule Cons.hyps(1)) (use Cons.prems(1) st' in simp_all)
    with rc lt False show ?thesis by (subst getbytes_loop.simps) simp
  qed
qed

lemma getbytes_starved:
  assumes "\<not> closed s" and "starved (incoming s) count"
  shows "getbytes s buffer offset count = Inl (Raise BrokenPipeError ''Server closed connection'')"
  using getbytes_loop_starved [OF assms(1), of "count + offset" offset] assms(2)
  by (simp add: getbytes_def Let_def)

text \<open>
  Claim C3, as amended. The exception of \<^verbatim>\<open>_getbytes\<close> is the built-in \<^verbatim>\<open>BrokenPipeError\<close>
  with the message \<^verbatim>\<open>Server closed connection\<close>, not an error of the Interface kind.
  Whenever a receive returns 0 bytes before the requested count is reached, on an open
  socket, \<^verbatim>\<open>_getbytes\<close> raises it; so does \<^verbatim>\<open>_get_minor_block\<close>, when this happens in
  the two header bytes and when it happens in the payload that the header announces.
\<close>

theorem zero_byte_read_raises_broken_pipe:
  assumes "\<not> closed s"
  shows "(starved (incoming s) count \<longrightarrow>
            getbytes s buffer offset count = Inl (Raise BrokenPipeError ''Server closed connection''))
       \<and> (starved (incoming s) 2 \<longrightarrow>
            get_minor_block s buffer offset = Inl (Raise BrokenPipeError ''Server closed connection''))
       \<and> (\<forall>s1 buffer1 e.
            getbytes s buffer offset 2 = Inr (s1, buffer1, e)
            \<and> starved (incoming s1)
                 (drop_bit 1 ((of_char (buffer1 ! offset) :: nat) + 256 * of_char (buffer1 ! (offset + 1))))
            \<longrightarrow> get_minor_block s buffer offset = Inl (Raise BrokenPipeError ''Server closed connection''))"
proof (intro conjI allI impI)
  assume "starved (incoming s) count"
  with assms show "getbytes s buffer offset count = Inl (Raise BrokenPipeError ''Server closed connection'')"
    by (rule getbytes_starved)
next
  assume "starved (incoming s) 2"
  with assms have "getbytes s buffer offset 2 = Inl (Raise BrokenPipeError ''Server closed connection'')"
    by (rule getbytes_starved)
  then show "get_minor_block s buffer offset = Inl (Raise BrokenPipeError ''Server closed connection'')"
    by (simp add: get_minor_block_def)
next
  fix s1 buffer1 e
  let ?len = "drop_bit 1 ((of_char (buffer1 ! offset) :: nat) + 256 * of_char (buffer1 ! (offset + 1)))"
  assume h: "getbytes s buffer offset 2 = Inr (s1, buffer1, e) \<and> starved (incoming s1) ?len"
  then have g: "getbytes s buffer offset 2 = Inr (s1, buffer1, e)" and st: "starved (incoming s1) ?len"
    by simp_all
  from g assms have c1: "\<not> closed s1" by (simp add: getbytes_closed)
  from st have ne: "?len \<noteq> 0" by (cases ?len) auto
  from getbytes_starved [OF c1 st]
  have "getbytes s1 buffer1 offset ?len = Inl (Raise BrokenPipeError ''Server closed connection'')" .
  with g ne show "get_minor_block s buffer offset = Inl (Raise BrokenPipeError ''Server closed connection'')"
    by (simp add: get_minor_block_def Let_def)
qed

theorem zero_byte_read_witness:
  "get_minor_block \<lparr>incoming = [[CHR 0x13]], outgoing = [], closed = False, send_fails = False\<rparr>
      (replicate 8192 (CHR 0x00)) 0
     = Inl (Raise BrokenPipeError ''Server closed connection'')"
proof -
  let ?s = "\<lparr>incoming = [[CHR 0x13]], outgoing = [], closed = False, send_fails = False\<rparr>"
  have c: "\<not> closed ?s" by simp
  have st: "starved (incoming ?s) 2" by (simp add: numeral_2_eq_2)
  from zero_byte_read_raises_broken_pipe [OF c, of 2 "replicate 8192 (CHR 0x00)" 0] st
  show ?thesis by blast
qed

text \<open>
  Claim C3 as stated fails: on a socket whose peer has closed, reading a minor block
  raises \<^verbatim>\<open>BrokenPipeError\<close>, which is not \<^verbatim>\<open>InterfaceError\<close>.
\<close>

theorem zero_byte_read_not_interface_error:
  "get_minor_block \<lparr>incoming = [], outgoing = [], closed = False, send_fails = False\<rparr>
      (replicate 8192 (CHR 0x00)) 0
     = Inl (Raise BrokenPipeError ''Server closed connection'')
   \<and> get_minor_block \<lparr>incoming = [], outgoing = [], closed = False, send_fails = False\<rparr>
      (replicate 8192 (CHR 0x00)) 0
     \<noteq> Inl (Raise InterfaceError ''Server closed connection'')"
  by (simp add: get_minor_block_def getbytes_def getbytes_loop.simps recv_into_def)


section \<open>Properties of the error classifier\<close>


lemma find_char_None: "find_char c xs = None \<longleftrightarrow> c \<notin> set xs"
  by (induction xs) auto

lemma find_char_Some:
  "find_char c xs = Some k \<longleftrightarrow> k < length xs \<and> xs ! k = c \<and> (\<forall>j<k. xs ! j \<noteq> c)"
proof (induction xs arbitrary: k)
  case Nil
  show ?case by simp
next
  case (Cons x xs)
  show ?case
  proof (cases "x = c")
    case True
    then show ?thesis by (cases k) auto
  next
    case False
    show ?thesis
    proof (cases k)
      case 0
      with False show ?thesis by auto
    next
      case (Suc k')
      have "(\<forall>j<Suc k'. (x # xs) ! j \<noteq> c) \<longleftrightarrow> (\<forall>j<k'. xs ! j \<noteq> c)"
        using False by (auto simp: less_Suc_eq_0_disj)
      with Suc False Cons.IH [of k'] show ?thesis by auto
    qed
  qed
qed

lemma str_index_Inr:
  "str_index s c start = Inr i \<longleftrightarrow>
     start \<le> i \<and> i < length s \<and> s ! i = c \<and> (\<forall>j. start \<le> j \<and> j < i \<longrightarrow> s ! j \<noteq> c)"
proof
  assume "str_index s c start = Inr i"
  then obtain k where k: "find_char c (drop start s) = Some k" and i: "i = start + k"
    by (auto simp: str_index_def split: option.splits)
  from k have kl: "k < length s - start" and kc: "drop start s ! k = c"
    and kf: "\<forall>j<k. drop start s ! j \<noteq> c"
    by (simp_all add: find_char_Some)
  from kl have sl: "start + k < length s" by simp
  have "\<forall>j. start \<le> j \<and> j < i \<longrightarrow> s ! j \<noteq> c"
  proof (intro allI impI)
    fix j assume j: "start \<le> j \<and> j < i"
    then have "j - start < k" using i by auto
    with kf have "drop start s ! (j - start) \<noteq> c" by blast
    moreover have "start + (j - start) = j" using j by simp
    ultimately show "s ! j \<noteq> c" using sl j i by (simp add: nth_drop)
  qed
  with kl kc sl i show "start \<le> i \<and> i < length s \<and> s ! i = c \<and> (\<forall>j. start \<le> j \<and> j < i \<longrightarrow> s ! j \<noteq> c)"
    by (simp add: nth_drop)
next
  assume h: "start \<le> i \<and> i < length s \<and> s ! i = c \<and> (\<forall>j. start \<le> j \<and> j < i \<longrightarrow> s ! j \<noteq> c)"
  define k where "k = i - start"
  have i: "i = start + k" using h by (simp add: k_def)
  have "k < length (drop start s)" using h by (simp add: k_def) arith
  moreover have "drop start s ! k = c" using h i by (simp add: nth_drop)
  moreover have "\<forall>j<k. drop start s ! j \<noteq> c"
  proof (intro allI impI)
    fix j assume "j < k"
    then have "start \<le> start + j \<and> start + j < i" using i by simp
    with h have "s ! (start + j) \<noteq> c" by blast
    then show "drop start s ! j \<noteq> c" using h \<open>j < k\<close> i by (simp add: nth_drop)
  qed
  ultimately have "find_char c (drop start s) = Some k" by (simp add: find_char_Some)
  then show "str_index s c start = Inr i" by (simp add: str_index_def i)
qed

lemma str_index_Inl:
  "str_index s c start = Inl e \<longleftrightarrow>
     e = Raise ValueError ''substring not found'' \<and> \<not> (\<exists>i\<ge>start. i < length s \<and> s ! i = c)"
proof -
  have "c \<notin> set (drop start s) \<longleftrightarrow> \<not> (\<exists>i\<ge>start. i < length s \<and> s ! i = c)"
  proof -
    have "c \<in> set (drop start s) \<longleftrightarrow> (\<exists>k<length (drop start s). drop start s ! k = c)"
      by (auto simp: in_set_conv_nth)
    also have "\<dots> \<longleftrightarrow> (\<exists>i\<ge>start. i < length s \<and> s ! i = c)"
    proof
      assume "\<exists>k<length (drop start s). drop start s ! k = c"
      then obtain k where "k < length s - start" "drop start s ! k = c" by auto
      then have "start \<le> start + k \<and> start + k < length s \<and> s ! (start + k) = c"
        by (simp add: nth_drop)
      then show "\<exists>i\<ge>start. i < length s \<and> s ! i = c" by blast
    next
      assume "\<exists>i\<ge>start. i < length s \<and> s ! i = c"
      then obtain i where i: "start \<le> i" "i < length s" "s ! i = c" by blast
      then have "i - start < length (drop start s) \<and> drop start s ! (i - start) = c"
        by (simp add: nth_drop)
      then show "\<exists>k<length (drop start s). drop start s ! k = c" by blast
    qed
    finally show ?thesis by simp
  qed
  then show ?thesis
    by (auto simp: str_index_def find_char_None [symmetric] split: option.splits)
qed


lemma errors_cases:
  "errors code = (if code = ''42S02'' then Some OperationalError
                  else if code \<in> {''40002'', ''2D000'', ''40000'', ''M0M29''} then Some IntegrityError
                  else None)"
  by (simp add: errors_def)

lemma classify_remaining:
  "(if length err > 5 \<and> errors (take 5 err) \<noteq> None
    then Inr (the (errors (take 5 err)), err)
    else Inr (OperationalError, err))
   = (Inr (if 5 < length err \<and> take 5 err \<in> {''40002'', ''2D000'', ''40000'', ''M0M29''}
           then IntegrityError else OperationalError, err) :: error + exc_class \<times> string)"
  by (simp add: errors_cases)

text \<open>
  Where the colon search succeeds, the classification is the one that claim C4 states:
  for every error string that, when it starts with \<^verbatim>\<open>SQLException:\<close>, holds a colon at
  some index from 14 on, the classifier drops everything up to 10 characters past the
  first such colon when the prefix is there, and nothing otherwise; the remaining string
  is the message it returns. The kind is that of the table when the message is longer
  than 5 characters and starts with one of its codes (\<^verbatim>\<open>42S02\<close> is Operational, as is the
  default; the other four are Integrity), and Operational otherwise.
  \<^verbatim>\<open>40002!unique violation\<close> is classified as Integrity.
\<close>

lemma handle_error_classifies:
  assumes "take 13 E = ''SQLException:'' \<longrightarrow> (\<exists>i\<ge>14. i < length E \<and> E ! i = CHR '':'')"
  shows "(\<exists>rest.
            (if take 13 E = ''SQLException:''
             then \<exists>i. 14 \<le> i \<and> i < length E \<and> E ! i = CHR '':''
                    \<and> (\<forall>j. 14 \<le> j \<and> j < i \<longrightarrow> E ! j \<noteq> CHR '':'')
                    \<and> rest = drop (i + 10) E
             else rest = E)
          \<and> handle_error E
              = Inr (if 5 < length rest \<and> take 5 rest \<in> {''40002'', ''2D000'', ''40000'', ''M0M29''}
                     then IntegrityError else OperationalError, rest))
       \<and> handle_error ''40002!unique violation'' = Inr (IntegrityError, ''40002!unique violation'')"
proof
  show "\<exists>rest.
            (if take 13 E = ''SQLException:''
             then \<exists>i. 14 \<le> i \<and> i < length E \<and> E ! i = CHR '':''
                    \<and> (\<forall>j. 14 \<le> j \<and> j < i \<longrightarrow> E ! j \<noteq> CHR '':'')
                    \<and> rest = drop (i + 10) E
             else rest = E)
          \<and> handle_error E
              = Inr (if 5 < length rest \<and> take 5 rest \<in> {''40002'', ''2D000'', ''40000'', ''M0M29''}
                     then IntegrityError else OperationalError, rest)"
  proof (cases "take 13 E = ''SQLException:''")
    case False
    then have "handle_error E
                 = Inr (if 5 < length E \<and> take 5 E \<in> {''40002'', ''2D000'', ''40000'', ''M0M29''}
                        then IntegrityError else OperationalError, E)"
      unfolding handle_error_def by (simp only: if_False sum.case classify_remaining)
    with False show ?thesis by simp
  next
    case True
    with assms have "\<exists>i\<ge>14. i < length E \<and> E ! i = CHR '':''" by simp
    then obtain idx where idx: "str_index E CHR '':'' 14 = Inr idx"
      using str_index_Inl [of E "CHR '':''" 14] by (cases "str_index E CHR '':'' 14") auto
    then have props: "14 \<le> idx \<and> idx < length E \<and> E ! idx = CHR '':''
                      \<and> (\<forall>j. 14 \<le> j \<and> j < idx \<longrightarrow> E ! j \<noteq> CHR '':'')"
      by (simp add: str_index_Inr)
    have "handle_error E
            = Inr (if 5 < length (drop (idx + 10) E)
                      \<and> take 5 (drop (idx + 10) E) \<in> {''40002'', ''2D000'', ''40000'', ''M0M29''}
                   then IntegrityError else OperationalError, drop (idx + 10) E)"
      unfolding handle_error_def using True idx
      by (simp only: simp_thms if_True sum.case classify_remaining)
    with True props show ?thesis by (intro exI [of _ "drop (idx + 10) E"]) auto
  qed
next
  show "handle_error ''40002!unique violation'' = Inr (IntegrityError, ''40002!unique violation'')"
    by (simp add: handle_error_def errors_def)
qed

lemma handle_error_classifies_example:
  "handle_error ''SQLException:assert:123456789M0M29!duplicate key''
     = Inr (IntegrityError, ''M0M29!duplicate key'')"
proof -
  let ?E = "''SQLException:assert:123456789M0M29!duplicate key''"
  have pre: "take 13 ?E = ''SQLException:'' \<longrightarrow> (\<exists>i\<ge>14. i < length ?E \<and> ?E ! i = CHR '':'')"
    by (intro impI exI [of _ 19]) simp
  from handle_error_classifies [OF pre]
  obtain rest i where
    i: "14 \<le> i" "i < length ?E" "?E ! i = CHR '':''" "\<forall>j. 14 \<le> j \<and> j < i \<longrightarrow> ?E ! j \<noteq> CHR '':''"
       "rest = drop (i + 10) ?E"
    and r: "handle_error ?E
              = Inr (if 5 < length rest \<and> take 5 rest \<in> {''40002'', ''2D000'', ''40000'', ''M0M29''}
                     then IntegrityError else OperationalError, rest)"
    by auto
  have "i = 19"
  proof (rule ccontr)
    assume "i \<noteq> 19"
    then consider "i < 19" | "19 < i" by linarith
    then show False
    proof cases
      case 1
      with i(1) have "i \<in> {14, 15, 16, 17, 18}" by auto
      with i(3) show False by auto
    next
      case 2
      then have "14 \<le> (19::nat) \<and> 19 < i" by simp
      with i(4) have "?E ! 19 \<noteq> CHR '':''" by blast
      then show False by simp
    qed
  qed
  with i(5) r show ?thesis by simp
qed

text \<open>
  Claim C4 does not hold of the code for every error string. On \<^verbatim>\<open>SQLException:\<close>, a
  string with the prefix and no colon from index 14 on, \<^verbatim>\<open>str.index\<close> raises
  \<^verbatim>\<open>ValueError\<close> and \<^verbatim>\<open>handle_error\<close> returns nothing, where the claim, and the docstring
  of \<^verbatim>\<open>handle_error\<close> (\<^verbatim>\<open>returns OperationalError if unknown error or no error code in string\<close>),
  have it return \<^verbatim>\<open>OperationalError\<close> with the message.
\<close>

theorem handle_error_missing_colon_raises:
  "handle_error ''SQLException:'' = Inl (Raise ValueError ''substring not found'')"
  by (simp add: handle_error_def str_index_def)

text \<open>
  Claim C10. \<^verbatim>\<open>handle_error\<close> returns a pair of an error kind and a message for every
  string that satisfies the precondition: if it starts with \<^verbatim>\<open>SQLException:\<close>, a colon
  stands at some index from 14 on. The precondition is needed: where it fails, the
  colon search raises \<^verbatim>\<open>ValueError\<close>.
\<close>

theorem handle_error_total:
  "((take 13 E = ''SQLException:'' \<longrightarrow> (\<exists>i\<ge>14. i < length E \<and> E ! i = CHR '':''))
      \<longrightarrow> (\<exists>kind msg. handle_error E = Inr (kind, msg)))
   \<and> (\<not> (take 13 E = ''SQLException:'' \<longrightarrow> (\<exists>i\<ge>14. i < length E \<and> E ! i = CHR '':''))
      \<longrightarrow> handle_error E = Inl (Raise ValueError ''substring not found''))"
proof (intro conjI impI)
  assume pre: "take 13 E = ''SQLException:'' \<longrightarrow> (\<exists>i\<ge>14. i < length E \<and> E ! i = CHR '':'')"
  show "\<exists>kind msg. handle_error E = Inr (kind, msg)"
  proof (cases "take 13 E = ''SQLException:''")
    case False
    then show ?thesis by (simp add: handle_error_def)
  next
    case True
    with pre obtain idx where "str_index E CHR '':'' 14 = Inr idx"
      using str_index_Inl [of E "CHR '':''" 14] by (cases "str_index E CHR '':'' 14") auto
    with True show ?thesis by (simp add: handle_error_def)
  qed
next
  assume "\<not> (take 13 E = ''SQLException:'' \<longrightarrow> (\<exists>i\<ge>14. i < length E \<and> E ! i = CHR '':''))"
  then have p: "take 13 E = ''SQLException:''" and n: "\<not> (\<exists>i\<ge>14. i < length E \<and> E ! i = CHR '':'')"
    by simp_all
  from n have "str_index E CHR '':'' 14 = Inl (Raise ValueError ''substring not found'')"
    using str_index_Inl [of E "CHR '':''" 14 "Raise ValueError ''substring not found''"] by simp
  with p show "handle_error E = Inl (Raise ValueError ''substring not found'')"
    by (simp add: handle_error_def)
qed

theorem handle_error_total_witness:
  "(\<exists>kind msg. handle_error ''SQLException:assert:123456789M0M29!duplicate key'' = Inr (kind, msg))
   \<and> handle_error ''SQLException:no colon'' = Inl (Raise ValueError ''substring not found'')"
proof -
  let ?E = "''SQLException:assert:123456789M0M29!duplicate key''"
  let ?F = "''SQLException:no colon''"
  have pre: "take 13 ?E = ''SQLException:'' \<longrightarrow> (\<exists>i\<ge>14. i < length ?E \<and> ?E ! i = CHR '':'')"
    by (intro impI exI [of _ 19]) simp
  have npre: "\<not> (take 13 ?F = ''SQLException:'' \<longrightarrow> (\<exists>i\<ge>14. i < length ?F \<and> ?F ! i = CHR '':''))"
  proof -
    have "\<not> (\<exists>i\<ge>14. i < length ?F \<and> ?F ! i = CHR '':'')"
    proof
      assume "\<exists>i\<ge>14. i < length ?F \<and> ?F ! i = CHR '':''"
      then obtain i where i: "14 \<le> i" "i < length ?F" "?F ! i = CHR '':''" by blast
      then have "i \<in> {14, 15, 16, 17, 18, 19, 20}" by auto
      with i(3) show False by auto
    qed
    then show ?thesis by simp
  qed
  from handle_error_total [of ?E] pre have "\<exists>kind msg. handle_error ?E = Inr (kind, msg)" by blast
  moreover from handle_error_total [of ?F] npre
  have "handle_error ?F = Inl (Raise ValueError ''substring not found'')" by blast
  ultimately show ?thesis by blast
qed


section \<open>Sabotage and commands on a connection that is not ready\<close>

lemma cmd_not_ready:
  "state c \<noteq> STATE_READY \<Longrightarrow> cmd ev c operation = Some (Inl (Raise ProgrammingError ''Not connected''))"
  by (subst cmd.simps) (simp add: log_to_def)

lemma binary_cmd_not_ready:
  "state c \<noteq> STATE_READY \<Longrightarrow> binary_cmd c operation = Inl (Raise ProgrammingError ''Not connected'')"
  by (simp add: binary_cmd_def log_to_def)

lemma bad_header: "struct_pack_H 16386 = Inr [CHR 0x02, CHR 0x40]"
  by (simp add: struct_pack_H_def char_of_def bit_0)

text \<open>
  Claim C6, as amended. \<^verbatim>\<open>struct.pack('<H', ...)\<close> gives two bytes, so the header that
  \<^verbatim>\<open>_sabotage\<close> emits has 2 bytes, not 4; its value, 16386, is greater than
  \<open>(8190 << 1) + 1\<close>. On a ready connection whose socket takes the send, the header and
  the body \<^verbatim>\<open>ERROR\x80ERROR\<close> are sent and the socket is closed. When the send raises
  (the socket is closed already, or the operating system reports an error), the
  exception is swallowed, nothing is emitted and the socket is dropped as it is, not
  closed. In both cases \<^verbatim>\<open>_sabotage\<close> returns, the state is \<open>STATE_INIT\<close> and there is no
  socket, and \<^verbatim>\<open>cmd\<close> and \<^verbatim>\<open>binary_cmd\<close> raise \<^verbatim>\<open>ProgrammingError("Not connected")\<close>
  afterwards, as they do in every state other than \<open>STATE_READY\<close>.
\<close>

theorem sabotage_ready:
  assumes "state c = STATE_READY" and "socket c = Some s"
  shows "(\<not> closed s \<and> \<not> send_fails s \<longrightarrow>
            sabotage c = Inr (c\<lparr>socket := None, state := STATE_INIT,
                               released := released c
                                 @ [s\<lparr>outgoing := outgoing s @ [CHR 0x02, CHR 0x40]
                                                     @ ''ERROR'' @ [CHR 0x80] @ ''ERROR'',
                                      closed := True\<rparr>]\<rparr>))
       \<and> (closed s \<or> send_fails s \<longrightarrow>
            sabotage c = Inr (c\<lparr>socket := None, state := STATE_INIT,
                               released := released c @ [s]\<rparr>))
       \<and> (of_char (CHR 0x02) + 256 * of_char (CHR 0x40) :: nat) > push_bit 1 8190 + 1
       \<and> (\<exists>c'. sabotage c = Inr c' \<and> state c' = STATE_INIT \<and> socket c' = None
              \<and> (\<forall>ev operation.
                    cmd ev c' operation = Some (Inl (Raise ProgrammingError ''Not connected''))
                  \<and> binary_cmd c' operation = Inl (Raise ProgrammingError ''Not connected'')))
       \<and> (\<forall>ev c' operation. state c' \<noteq> STATE_READY \<longrightarrow>
              cmd ev c' operation = Some (Inl (Raise ProgrammingError ''Not connected''))
            \<and> binary_cmd c' operation = Inl (Raise ProgrammingError ''Not connected''))"
proof (intro conjI)
  show "\<not> closed s \<and> \<not> send_fails s \<longrightarrow>
            sabotage c = Inr (c\<lparr>socket := None, state := STATE_INIT,
                               released := released c
                                 @ [s\<lparr>outgoing := outgoing s @ [CHR 0x02, CHR 0x40]
                                                     @ ''ERROR'' @ [CHR 0x80] @ ''ERROR'',
                                      closed := True\<rparr>]\<rparr>)"
    using assms(2) by (simp add: sabotage_def Let_def bad_header sock_send_def sock_close_def bad_body_def)
next
  show "closed s \<or> send_fails s \<longrightarrow>
            sabotage c = Inr (c\<lparr>socket := None, state := STATE_INIT,
                               released := released c @ [s]\<rparr>)"
    using assms(2) by (simp add: sabotage_def Let_def bad_header sock_send_def)
next
  show "(of_char (CHR 0x02) + 256 * of_char (CHR 0x40) :: nat) > push_bit 1 8190 + 1"
    by (simp add: push_bit_eq_mult)
next
  have "\<exists>c'. sabotage c = Inr c' \<and> state c' = STATE_INIT \<and> socket c' = None"
    using assms(2)
    by (cases "sock_send s ([CHR 0x02, CHR 0x40] @ bad_body)")
       (simp_all add: sabotage_def Let_def bad_header)
  then obtain c' where c': "sabotage c = Inr c'" "state c' = STATE_INIT" "socket c' = None"
    by blast
  then have "state c' \<noteq> STATE_READY" by (simp add: STATE_INIT_def STATE_READY_def)
  then have "\<forall>ev operation.
               cmd ev c' operation = Some (Inl (Raise ProgrammingError ''Not connected''))
             \<and> binary_cmd c' operation = Inl (Raise ProgrammingError ''Not connected'')"
    by (simp add: cmd_not_ready binary_cmd_not_ready)
  with c' show "\<exists>c'. sabotage c = Inr c' \<and> state c' = STATE_INIT \<and> socket c' = None
              \<and> (\<forall>ev operation.
                    cmd ev c' operation = Some (Inl (Raise ProgrammingError ''Not connected''))
                  \<and> binary_cmd c' operation = Inl (Raise ProgrammingError ''Not connected''))"
    by blast
next
  show "\<forall>ev c' operation. state c' \<noteq> STATE_READY \<longrightarrow>
              cmd ev c' operation = Some (Inl (Raise ProgrammingError ''Not connected''))
            \<and> binary_cmd c' operation = Inl (Raise ProgrammingError ''Not connected'')"
    by (simp add: cmd_not_ready binary_cmd_not_ready)
qed

theorem sabotage_ready_witness:
  "sabotage (ready_conn (fresh_sock []))
     = Inr ((ready_conn (fresh_sock []))\<lparr>socket := None, state := STATE_INIT,
              released := [\<lparr>incoming = [],
                            outgoing = [CHR 0x02, CHR 0x40] @ ''ERROR'' @ [CHR 0x80] @ ''ERROR'',
                            closed = True, send_fails = False\<rparr>]\<rparr>)
   \<and> sabotage (ready_conn ((fresh_sock [])\<lparr>send_fails := True\<rparr>))
     = Inr ((ready_conn ((fresh_sock [])\<lparr>send_fails := True\<rparr>))\<lparr>socket := None, state := STATE_INIT,
              released := [\<lparr>incoming = [], outgoing = [], closed = False, send_fails = True\<rparr>]\<rparr>)
   \<and> (\<exists>c'. sabotage (ready_conn ((fresh_sock [])\<lparr>send_fails := True\<rparr>)) = Inr c'
          \<and> state c' = STATE_INIT \<and> socket c' = None
          \<and> cmd demo_env c' ''SELECT 1;'' = Some (Inl (Raise ProgrammingError ''Not connected'')))"
proof -
  let ?s = "fresh_sock []"
  let ?b = "(fresh_sock [])\<lparr>send_fails := True\<rparr>"
  have r: "state (ready_conn ?s) = STATE_READY" "socket (ready_conn ?s) = Some ?s"
    "state (ready_conn ?b) = STATE_READY" "socket (ready_conn ?b) = Some ?b"
    by (simp_all add: ready_conn_def)
  have h: "\<not> closed ?s \<and> \<not> send_fails ?s" by (simp add: fresh_sock_def)
  have hb: "closed ?b \<or> send_fails ?b" by simp
  from sabotage_ready [OF r(1,2)] h
  have a: "sabotage (ready_conn ?s)
     = Inr ((ready_conn ?s)\<lparr>socket := None, state := STATE_INIT,
              released := released (ready_conn ?s)
                 @ [?s\<lparr>outgoing := outgoing ?s @ [CHR 0x02, CHR 0x40] @ ''ERROR'' @ [CHR 0x80] @ ''ERROR'',
                      closed := True\<rparr>]\<rparr>)"
    by blast
  note instb = sabotage_ready [OF r(3,4)]
  from instb [THEN conjunct2, THEN conjunct1] hb
  have f: "sabotage (ready_conn ?b)
     = Inr ((ready_conn ?b)\<lparr>socket := None, state := STATE_INIT,
              released := released (ready_conn ?b) @ [?b]\<rparr>)"
    by (rule mp)
  from instb
  have b: "\<exists>c'. sabotage (ready_conn ?b) = Inr c' \<and> state c' = STATE_INIT \<and> socket c' = None
              \<and> (\<forall>ev operation.
                    cmd ev c' operation = Some (Inl (Raise ProgrammingError ''Not connected''))
                  \<and> binary_cmd c' operation = Inl (Raise ProgrammingError ''Not connected''))"
    by blast
  from a have a': "sabotage (ready_conn ?s)
     = Inr ((ready_conn ?s)\<lparr>socket := None, state := STATE_INIT,
              released := [\<lparr>incoming = [],
                            outgoing = [CHR 0x02, CHR 0x40] @ ''ERROR'' @ [CHR 0x80] @ ''ERROR'',
                            closed = True, send_fails = False\<rparr>]\<rparr>)"
    by (simp add: ready_conn_def new_conn_def fresh_sock_def)
  from f have f': "sabotage (ready_conn ?b)
     = Inr ((ready_conn ?b)\<lparr>socket := None, state := STATE_INIT,
              released := [\<lparr>incoming = [], outgoing = [], closed = False, send_fails = True\<rparr>]\<rparr>)"
    by (simp add: ready_conn_def new_conn_def fresh_sock_def)
  from b have b': "\<exists>c'. sabotage (ready_conn ?b) = Inr c'
          \<and> state c' = STATE_INIT \<and> socket c' = None
          \<and> cmd demo_env c' ''SELECT 1;'' = Some (Inl (Raise ProgrammingError ''Not connected''))"
    by blast
  from a' f' b' show ?thesis by (intro conjI)
qed

text \<open>
  Claim C6 as stated fails in the size of the header: what goes out is 13 bytes, the
  11 bytes of the body after a header of 2. It also fails where the send raises: the
  exception is swallowed, but nothing has been emitted and the socket is not closed.
\<close>

theorem sabotage_header_is_two_bytes:
  "sabotage (ready_conn (fresh_sock []))
     = Inr ((ready_conn (fresh_sock []))\<lparr>socket := None, state := STATE_INIT,
              released := [\<lparr>incoming = [],
                            outgoing = [CHR 0x02, CHR 0x40] @ ''ERROR'' @ [CHR 0x80] @ ''ERROR'',
                            closed = True, send_fails = False\<rparr>]\<rparr>)
   \<and> length ([CHR 0x02, CHR 0x40] @ ''ERROR'' @ [CHR 0x80] @ ''ERROR'') = 2 + length bad_body
   \<and> length ([CHR 0x02, CHR 0x40] @ ''ERROR'' @ [CHR 0x80] @ ''ERROR'') \<noteq> 4 + length bad_body
   \<and> sabotage (ready_conn ((fresh_sock [])\<lparr>send_fails := True\<rparr>))
     = Inr ((ready_conn ((fresh_sock [])\<lparr>send_fails := True\<rparr>))\<lparr>socket := None, state := STATE_INIT,
              released := [\<lparr>incoming = [], outgoing = [], closed = False, send_fails = True\<rparr>]\<rparr>)"
  by (simp add: sabotage_def Let_def bad_header sock_send_def sock_close_def bad_body_def
        ready_conn_def new_conn_def fresh_sock_def)


section \<open>Information messages\<close>

text \<open>
  Claim C9, as amended. On a ready connection, when the response to the operation starts
  with \<^verbatim>\<open>#\<close>, none of the earlier cases applies, \<^verbatim>\<open>cmd\<close> logs the rest of the response
  as an information message and ends without a \<^verbatim>\<open>return\<close> statement: its value is
  \<^verbatim>\<open>None\<close>, not the empty string.
\<close>

theorem cmd_info_returns_None:
  assumes "state c = STATE_READY"
    and "putblock (log_to DEBUG (''executing command '' @ operation) c) operation = Inr c1"
    and "getblock_and_transfer_files ev c1 = Some (Inr (response, c2))"
    and "take 1 response = ''#''"
  shows "cmd ev c operation = Some (Inr (None, log_to INFO (drop 1 response) c2))"
proof -
  from assms(4) obtain rest where r: "response = CHR ''#'' # rest"
    by (cases response) auto
  have a: "length response \<noteq> 0" using r by simp
  have b: "\<not> starts_with response MSG_OK" using r by (simp add: starts_with_def MSG_OK_def)
  have m: "response \<noteq> MSG_MORE" using r by (simp add: MSG_MORE_def)
  have u: "update_error_line response = None"
    using r by (simp add: update_error_line_def MSG_QUPDATE_def)
  have q: "take 1 response \<notin> {MSG_Q, MSG_HEADER, MSG_TUPLE}"
    using r by (simp add: MSG_Q_def MSG_HEADER_def MSG_TUPLE_def)
  have e: "take 1 response \<noteq> MSG_ERROR" using r by (simp add: MSG_ERROR_def)
  have i: "take 1 response = MSG_INFO" using r by (simp add: MSG_INFO_def)
  have st: "state (log_to DEBUG (''executing command '' @ operation) c) = STATE_READY"
    using assms(1) by (simp add: log_to_def)
  show ?thesis
    apply (subst cmd.simps)
    apply (simp only: Let_def st assms(2,3) a b m u q e simp_thms if_True if_False
             sum.case option.case prod.case)
    apply (simp only: i simp_thms if_True)
    done
qed


lemma info_putblock:
  "putblock (log_to DEBUG (''executing command '' @ ''SELECT 1;'') info_conn) ''SELECT 1;''
     = Inr ((log_to DEBUG ''executing command SELECT 1;'' info_conn)
              \<lparr>socket := Some ((fresh_sock [CHR 0x0D # CHR 0x00 # ''#hello''])
                                 \<lparr>outgoing := CHR 0x13 # CHR 0x00 # ''SELECT 1;''\<rparr>)\<rparr>)"
  by (simp add: putblock_def putblock_raw_def putblock_raw_loop.simps struct_pack_H_def
        sock_send_def MAX_PACKAGE_LENGTH_def truthy_def info_conn_def ready_conn_def new_conn_def
        fresh_sock_def log_to_def Let_def char_of_def bit_0)

lemma info_getblock_raw:
  "getblock_raw ((fresh_sock [CHR 0x0D # CHR 0x00 # ''#hello''])\<lparr>outgoing := out\<rparr>)
      (replicate 8192 (CHR 0x00)) 0
   = Inr ((fresh_sock [])\<lparr>outgoing := out\<rparr>, ''#hello'' @ replicate 8186 (CHR 0x00), 6)"
  by (simp add: getblock_raw.simps get_minor_block_def getbytes_def getbytes_loop.simps
        recv_into_def fresh_sock_def Let_def drop_bit_eq_div and_one_eq)

lemma info_transfer_loop:
  "socket c = Some ((fresh_sock [CHR 0x0D # CHR 0x00 # ''#hello''])\<lparr>outgoing := out\<rparr>) \<Longrightarrow>
   transfer_loop ev c (replicate 8192 (CHR 0x00)) 0
     = Some (Inr (''#hello'' @ replicate 8186 (CHR 0x00), 6,
                  c\<lparr>socket := Some ((fresh_sock [])\<lparr>outgoing := out\<rparr>)\<rparr>))"
  apply (subst transfer_loop.simps)
  apply (simp add: info_getblock_raw Let_def bytearray_rfind_def py_bound_def rfind_loop.simps)
  done

lemma info_getblock:
  "getblock_and_transfer_files demo_env
     ((log_to DEBUG ''executing command SELECT 1;'' info_conn)
              \<lparr>socket := Some ((fresh_sock [CHR 0x0D # CHR 0x00 # ''#hello''])
                                 \<lparr>outgoing := CHR 0x13 # CHR 0x00 # ''SELECT 1;''\<rparr>)\<rparr>)
     = Some (Inr (''#hello'',
         (log_to DEBUG ''executing command SELECT 1;'' info_conn)
              \<lparr>socket := Some ((fresh_sock [])\<lparr>outgoing := CHR 0x13 # CHR 0x00 # ''SELECT 1;''\<rparr>),
               stashed_buffer := Some (''#hello'' @ replicate 8186 (CHR 0x00))\<rparr>))"
proof -
  let ?c1 = "(log_to DEBUG ''executing command SELECT 1;'' info_conn)
              \<lparr>socket := Some ((fresh_sock [CHR 0x0D # CHR 0x00 # ''#hello''])
                                 \<lparr>outgoing := CHR 0x13 # CHR 0x00 # ''SELECT 1;''\<rparr>)\<rparr>"
  have gb: "get_buffer ?c1 = (replicate 8192 (CHR 0x00), ?c1)"
    by (simp add: get_buffer_def info_conn_def ready_conn_def new_conn_def log_to_def)
  have raw: "\<not> truthy (is_raw_control ?c1)"
    by (simp add: truthy_def info_conn_def ready_conn_def new_conn_def log_to_def)
  have so: "socket ?c1 = Some ((fresh_sock [CHR 0x0D # CHR 0x00 # ''#hello''])
                                 \<lparr>outgoing := CHR 0x13 # CHR 0x00 # ''SELECT 1;''\<rparr>)"
    by simp
  have dec: "decode_utf8 ''#hello'' = Inr ''#hello''" by (simp add: decode_utf8_def)
  show ?thesis
    unfolding getblock_and_transfer_files_def
    apply (simp only: raw if_False gb prod.case Let_def info_transfer_loop [OF so] option.case sum.case)
    apply (simp add: dec stash_buffer_def info_conn_def ready_conn_def new_conn_def log_to_def)
    done
qed

theorem cmd_info_witness:
  "cmd demo_env info_conn ''SELECT 1;''
     = Some (Inr (None,
         (new_conn demo_target)
           \<lparr>state := STATE_READY,
            socket := Some ((fresh_sock [])\<lparr>outgoing := CHR 0x13 # CHR 0x00 # ''SELECT 1;''\<rparr>),
            is_tcp := Some True, is_raw_control := Some False,
            stashed_buffer := Some (''#hello'' @ replicate 8186 (CHR 0x00)),
            logger := [(DEBUG, ''executing command SELECT 1;''), (INFO, ''hello'')]\<rparr>))"
proof -
  have st: "state info_conn = STATE_READY"
    by (simp add: info_conn_def ready_conn_def)
  have hash: "take 1 ''#hello'' = ''#''" by simp
  have pb: "putblock (log_to DEBUG (''executing command '' @ ''SELECT 1;'') info_conn) ''SELECT 1;''
     = Inr ((log_to DEBUG ''executing command SELECT 1;'' info_conn)
              \<lparr>socket := Some ((fresh_sock [CHR 0x0D # CHR 0x00 # ''#hello''])
                                 \<lparr>outgoing := CHR 0x13 # CHR 0x00 # ''SELECT 1;''\<rparr>)\<rparr>)"
    by (rule info_putblock)
  from cmd_info_returns_None [OF st pb info_getblock hash]
  show ?thesis
    by (simp add: info_conn_def ready_conn_def new_conn_def log_to_def)
qed

text \<open>
  Claim C9 as stated fails: the value of \<^verbatim>\<open>cmd\<close> for the reply \<^verbatim>\<open>#hello\<close> is \<^verbatim>\<open>None\<close>.
\<close>

theorem cmd_info_result_is_not_empty_string:
  "map_option (map_sum id fst) (cmd demo_env info_conn ''SELECT 1;'') = Some (Inr None)
   \<and> map_option (map_sum id fst) (cmd demo_env info_conn ''SELECT 1;'') \<noteq> Some (Inr (Some []))"
proof -
  have st: "state (log_to DEBUG (''executing command '' @ ''SELECT 1;'') info_conn) = STATE_READY"
    by (simp add: info_conn_def ready_conn_def log_to_def)
  have "\<exists>c'. cmd demo_env info_conn ''SELECT 1;'' = Some (Inr (None, c'))"
    apply (subst cmd.simps)
    apply (simp only: Let_def st info_putblock simp_thms if_False sum.case)
    apply (simp add: info_getblock [simplified] starts_with_def MSG_OK_def MSG_MORE_def
             update_error_line_def MSG_QUPDATE_def MSG_Q_def MSG_HEADER_def MSG_TUPLE_def
             MSG_ERROR_def MSG_INFO_def)
    done
  then show ?thesis by auto
qed


section \<open>The login response\<close>

lemma split_on_append:
  "c \<notin> set a \<Longrightarrow> split_on c (a @ c # rest) = a # split_on c rest"
  by (induction a) auto

lemma select_hash_find:
  "select_hash ev hs pw salt
     = (case find (\<lambda>i. \<not> isl (hashlib_new ev i)) hs of
          None \<Rightarrow> None
        | Some i \<Rightarrow> Some (''{'' @ i @ ''}'' @ projr (hashlib_new ev i) (pw @ salt)))"
  by (induction hs) (auto split: sum.splits)

lemma select_hash_None:
  "\<forall>i\<in>set hs. isl (hashlib_new ev i) \<Longrightarrow> select_hash ev hs pw salt = None"
  by (induction hs) (auto split: sum.splits)

lemma challenge_response_no_hash:
  assumes sp: "split_on CHR '':'' challenge = flds @ [[]]"
    and len: "6 \<le> length flds"
    and endian: "flds ! 4 \<in> {''LIT'', ''BIG''}"
    and proto: "flds ! 2 = ''9''"
    and algo: "\<not> isl (hashlib_new ev (flds ! 5))"
    and none: "\<forall>i\<in>set (split_on CHR '','' (flds ! 3)). isl (hashlib_new ev i)"
  shows "challenge_response ev c challenge
           = Inl (Raise NotSupportedError
                    (''Unsupported hash algorithms required for login: '' @ flds ! 3))"
proof -
  obtain h where h: "hashlib_new ev (flds ! 5) = Inr h"
    using algo by (cases "hashlib_new ev (flds ! 5)") auto
  have e: "(if flds ! 4 = ''LIT'' then Inr ''little''
            else if flds ! 4 = ''BIG'' then Inr ''big''
            else Inl (Raise NotSupportedError (''Unknown byte order: '' @ flds ! 4)))
           = (Inr (if flds ! 4 = ''LIT'' then ''little'' else ''big'') :: error + string)"
    using endian by auto
  have l: "\<not> length (flds @ [[]]) < 7" using len by simp
  show ?thesis
    unfolding challenge_response_def response_line_def sp
    by (simp only: Let_def last_snoc butlast_snoc l simp_thms if_False e sum.case proto if_True h
          select_hash_None [OF none] option.case split_beta)
qed


lemma example_challenge_split:
  assumes "CHR '':'' \<notin> set server_type"
  shows "split_on CHR '':'' (''sXYZ:'' @ server_type @ '':9:SHA256,SHA1:LIT:SHA512:'')
           = [''sXYZ'', server_type, ''9'', ''SHA256,SHA1'', ''LIT'', ''SHA512'', []]"
proof -
  have "split_on CHR '':'' (server_type @ CHR '':'' # ''9:SHA256,SHA1:LIT:SHA512:'')
          = server_type # split_on CHR '':'' ''9:SHA256,SHA1:LIT:SHA512:''"
    by (rule split_on_append [OF assms])
  then show ?thesis by simp
qed

lemma example_challenge_response:
  assumes h512: "hashlib_new ev ''SHA512'' = Inr h512"
    and h256: "hashlib_new ev ''SHA256'' = Inr h256"
    and st: "server_type \<noteq> ''merovingian''" and nc: "CHR '':'' \<notin> set server_type"
    and tg: "user (target c) = Some ''monetdb''" "password (target c) = Some ''monetdb''"
            "effective_language (target c) = ''sql''" "database (target c) = Some ''demo''"
  shows "challenge_response ev c (''sXYZ:'' @ server_type @ '':9:SHA256,SHA1:LIT:SHA512:'')
           = Inr (''BIG:monetdb:{SHA256}'' @ h256 (h512 ''monetdb'' @ ''sXYZ'') @ '':sql:demo:'',
                  c\<lparr>server_endian := Some ''little'', binexport_level := 0,
                    option_objects := (case handshake_options_callback c of
                                         None \<Rightarrow> [] | Some callback \<Rightarrow> callback 0),
                    remaining_handshake_options :=
                      filter (\<lambda>opt. \<not> sent opt)
                        (case handshake_options_callback c of
                           None \<Rightarrow> [] | Some callback \<Rightarrow> callback 0)\<rparr>)"
  unfolding challenge_response_def example_challenge_split [OF nc]
  using st by (simp add: response_line_def read_binexport_level_def Let_def h512 h256 tg or_empty_def)


text \<open>
  Claim C2. For a challenge of the six fields salt \<^verbatim>\<open>sXYZ\<close>, a server type other than
  \<^verbatim>\<open>merovingian\<close>, protocol \<^verbatim>\<open>9\<close>, hashes \<^verbatim>\<open>SHA256,SHA1\<close>, byte order \<^verbatim>\<open>LIT\<close> and
  password hash \<^verbatim>\<open>SHA512\<close>, and a target with user and password \<^verbatim>\<open>monetdb\<close>, language
  \<^verbatim>\<open>sql\<close> and database \<^verbatim>\<open>demo\<close>, the response line is
  \<^verbatim>\<open>BIG:monetdb:{SHA256}<hex>:sql:demo:\<close>, where \<^verbatim>\<open><hex>\<close> is the SHA256 hex digest of
  the SHA512 hex digest of \<^verbatim>\<open>monetdb\<close> followed by \<^verbatim>\<open>sXYZ\<close> (\<open>h512\<close> and \<open>h256\<close> are what
  \<^verbatim>\<open>hashlib\<close> provides under these names). In general the algorithm chosen is the
  first of the list that \<^verbatim>\<open>hashlib.new\<close> accepts, and when it accepts none of them the
  challenge is answered with \<^verbatim>\<open>NotSupportedError\<close>.
\<close>

theorem challenge_response_hash_selection:
  assumes "hashlib_new ev ''SHA512'' = Inr h512"
    and "hashlib_new ev ''SHA256'' = Inr h256"
    and "server_type \<noteq> ''merovingian''" and "CHR '':'' \<notin> set server_type"
    and "user (target c) = Some ''monetdb''" and "password (target c) = Some ''monetdb''"
    and "effective_language (target c) = ''sql''" and "database (target c) = Some ''demo''"
  shows "(\<exists>c'. challenge_response ev c (''sXYZ:'' @ server_type @ '':9:SHA256,SHA1:LIT:SHA512:'')
             = Inr (''BIG:monetdb:{SHA256}'' @ h256 (h512 ''monetdb'' @ ''sXYZ'') @ '':sql:demo:'', c'))
       \<and> (\<forall>hs pw salt.
            select_hash ev hs pw salt
              = (case find (\<lambda>i. \<not> isl (hashlib_new ev i)) hs of
                   None \<Rightarrow> None
                 | Some i \<Rightarrow> Some (''{'' @ i @ ''}'' @ projr (hashlib_new ev i) (pw @ salt))))
       \<and> (\<forall>challenge flds.
            split_on CHR '':'' challenge = flds @ [[]] \<and> 6 \<le> length flds
            \<and> flds ! 4 \<in> {''LIT'', ''BIG''} \<and> flds ! 2 = ''9''
            \<and> \<not> isl (hashlib_new ev (flds ! 5))
            \<and> (\<forall>i\<in>set (split_on CHR '','' (flds ! 3)). isl (hashlib_new ev i))
            \<longrightarrow> challenge_response ev c challenge
                  = Inl (Raise NotSupportedError
                           (''Unsupported hash algorithms required for login: '' @ flds ! 3)))"
proof (intro conjI allI impI)
  show "\<exists>c'. challenge_response ev c (''sXYZ:'' @ server_type @ '':9:SHA256,SHA1:LIT:SHA512:'')
             = Inr (''BIG:monetdb:{SHA256}'' @ h256 (h512 ''monetdb'' @ ''sXYZ'') @ '':sql:demo:'', c')"
    using example_challenge_response [OF assms] by blast
next
  fix hs pw salt
  show "select_hash ev hs pw salt
          = (case find (\<lambda>i. \<not> isl (hashlib_new ev i)) hs of
               None \<Rightarrow> None
             | Some i \<Rightarrow> Some (''{'' @ i @ ''}'' @ projr (hashlib_new ev i) (pw @ salt)))"
    by (rule select_hash_find)
next
  fix challenge flds
  assume "split_on CHR '':'' challenge = flds @ [[]] \<and> 6 \<le> length flds
            \<and> flds ! 4 \<in> {''LIT'', ''BIG''} \<and> flds ! 2 = ''9''
            \<and> \<not> isl (hashlib_new ev (flds ! 5))
            \<and> (\<forall>i\<in>set (split_on CHR '','' (flds ! 3)). isl (hashlib_new ev i))"
  then show "challenge_response ev c challenge
               = Inl (Raise NotSupportedError
                        (''Unsupported hash algorithms required for login: '' @ flds ! 3))"
    by (intro challenge_response_no_hash) simp_all
qed

theorem challenge_response_hash_selection_witness:
  "(\<exists>c'. challenge_response demo_env (new_conn demo_target) ''sXYZ:mserver:9:SHA256,SHA1:LIT:SHA512:''
          = Inr (''BIG:monetdb:{SHA256}SHA256(SHA512(monetdb)sXYZ):sql:demo:'', c'))
   \<and> select_hash demo_env [''MD5'', ''SHA1'', ''SHA256''] ''pw'' ''salt'' = Some ''{SHA1}SHA1(pwsalt)''
   \<and> challenge_response demo_env (new_conn demo_target) ''sXYZ:mserver:9:MD5,RIPEMD160:LIT:SHA512:''
       = Inl (Raise NotSupportedError ''Unsupported hash algorithms required for login: MD5,RIPEMD160'')"
proof -
  have h: "hashlib_new demo_env ''SHA512'' = Inr (demo_hash ''SHA512'')"
    "hashlib_new demo_env ''SHA256'' = Inr (demo_hash ''SHA256'')"
    by (simp_all add: demo_env_def)
  have s: "''mserver'' \<noteq> ''merovingian''" "CHR '':'' \<notin> set ''mserver''" by simp_all
  have t: "user (target (new_conn demo_target)) = Some ''monetdb''"
    "password (target (new_conn demo_target)) = Some ''monetdb''"
    "effective_language (target (new_conn demo_target)) = ''sql''"
    "database (target (new_conn demo_target)) = Some ''demo''"
    by (simp_all add: new_conn_def demo_target_def)
  note inst = challenge_response_hash_selection [OF h s t]
  from inst have a: "\<exists>c'. challenge_response demo_env (new_conn demo_target)
                            (''sXYZ:'' @ ''mserver'' @ '':9:SHA256,SHA1:LIT:SHA512:'')
          = Inr (''BIG:monetdb:{SHA256}'' @ demo_hash ''SHA256'' (demo_hash ''SHA512'' ''monetdb'' @ ''sXYZ'')
                  @ '':sql:demo:'', c')"
    by blast
  from inst have b: "select_hash demo_env [''MD5'', ''SHA1'', ''SHA256''] ''pw'' ''salt''
          = (case find (\<lambda>i. \<not> isl (hashlib_new demo_env i)) [''MD5'', ''SHA1'', ''SHA256''] of
               None \<Rightarrow> None
             | Some i \<Rightarrow> Some (''{'' @ i @ ''}'' @ projr (hashlib_new demo_env i) (''pw'' @ ''salt'')))"
    by blast
  have pre: "split_on CHR '':'' ''sXYZ:mserver:9:MD5,RIPEMD160:LIT:SHA512:''
               = [''sXYZ'', ''mserver'', ''9'', ''MD5,RIPEMD160'', ''LIT'', ''SHA512''] @ [[]]
            \<and> 6 \<le> length [''sXYZ'', ''mserver'', ''9'', ''MD5,RIPEMD160'', ''LIT'', ''SHA512'']
            \<and> [''sXYZ'', ''mserver'', ''9'', ''MD5,RIPEMD160'', ''LIT'', ''SHA512''] ! 4 \<in> {''LIT'', ''BIG''}
            \<and> [''sXYZ'', ''mserver'', ''9'', ''MD5,RIPEMD160'', ''LIT'', ''SHA512''] ! 2 = ''9''
            \<and> \<not> isl (hashlib_new demo_env ([''sXYZ'', ''mserver'', ''9'', ''MD5,RIPEMD160'', ''LIT'', ''SHA512''] ! 5))
            \<and> (\<forall>i\<in>set (split_on CHR '','' ([''sXYZ'', ''mserver'', ''9'', ''MD5,RIPEMD160'', ''LIT'', ''SHA512''] ! 3)).
                  isl (hashlib_new demo_env i))"
    by (simp add: demo_env_def)
  from inst have "\<forall>challenge flds.
            split_on CHR '':'' challenge = flds @ [[]] \<and> 6 \<le> length flds
            \<and> flds ! 4 \<in> {''LIT'', ''BIG''} \<and> flds ! 2 = ''9''
            \<and> \<not> isl (hashlib_new demo_env (flds ! 5))
            \<and> (\<forall>i\<in>set (split_on CHR '','' (flds ! 3)). isl (hashlib_new demo_env i))
            \<longrightarrow> challenge_response demo_env (new_conn demo_target) challenge
                  = Inl (Raise NotSupportedError
                           (''Unsupported hash algorithms required for login: '' @ flds ! 3))"
    by blast
  from this pre
  have c: "challenge_response demo_env (new_conn demo_target) ''sXYZ:mserver:9:MD5,RIPEMD160:LIT:SHA512:''
       = Inl (Raise NotSupportedError
                (''Unsupported hash algorithms required for login: ''
                   @ [''sXYZ'', ''mserver'', ''9'', ''MD5,RIPEMD160'', ''LIT'', ''SHA512''] ! 3))"
    by blast
  from a have a': "\<exists>c'. challenge_response demo_env (new_conn demo_target) ''sXYZ:mserver:9:SHA256,SHA1:LIT:SHA512:''
          = Inr (''BIG:monetdb:{SHA256}SHA256(SHA512(monetdb)sXYZ):sql:demo:'', c')"
    by (simp add: demo_hash_def)
  from b have b': "select_hash demo_env [''MD5'', ''SHA1'', ''SHA256''] ''pw'' ''salt'' = Some ''{SHA1}SHA1(pwsalt)''"
    by (simp add: demo_env_def demo_hash_def)
  from c have c': "challenge_response demo_env (new_conn demo_target) ''sXYZ:mserver:9:MD5,RIPEMD160:LIT:SHA512:''
       = Inl (Raise NotSupportedError ''Unsupported hash algorithms required for login: MD5,RIPEMD160'')"
    by simp
  from a' b' c' show ?thesis by blast
qed

section \<open>The redirect loop\<close>

lemma connect_loop_bound: "fst (connect_loop ev n c) \<le> n"
proof (induction n arbitrary: c)
  case 0
  show ?case by simp
next
  case (Suc n)
  show ?case
  proof (cases "if socket c = None then new_connection ev c else Inr c")
    case (Inl e)
    then show ?thesis by simp
  next
    case (Inr c1)
    show ?thesis
    proof (cases "truthy (is_raw_control c1)")
      case True
      with Inr show ?thesis by simp
    next
      case False
      show ?thesis
      proof (cases "login ev c1")
        case (Inl e)
        with Inr False show ?thesis by simp
      next
        case r: (Inr p)
        obtain ok c2 where p: "p = (ok, c2)" by (cases p)
        show ?thesis
        proof (cases ok)
          case True
          with Inr False r p show ?thesis by simp
        next
          case nok: False
          have "fst (connect_loop ev n c2) \<le> n" by (rule Suc.IH)
          with Inr False r p nok show ?thesis by (simp add: split_beta)
        qed
      qed
    qed
  qed
qed

lemma connect_loop_all_redirect:
  "all_redirect ev n c \<Longrightarrow>
   connect_loop ev n c = (n, Inl (Raise OperationalError ''too many redirects''))"
proof (induction n arbitrary: c)
  case 0
  show ?case by simp
next
  case (Suc n)
  from Suc.prems obtain c1 c2 where
    c1: "(if socket c = None then new_connection ev c else Inr c) = Inr c1"
    and raw: "\<not> truthy (is_raw_control c1)"
    and lg: "login ev c1 = Inr (False, c2)"
    and rest: "all_redirect ev n c2"
    by (auto split: sum.splits)
  from Suc.IH [OF rest] c1 raw lg show ?case by simp
qed

text \<open>
  Claim C5. The loop of \<^verbatim>\<open>connect\<close> enters at most 10 iterations. If each of the 10 ends
  with \<^verbatim>\<open>_login\<close> returning \<^verbatim>\<open>False\<close>, a redirect, the loop is exhausted and \<^verbatim>\<open>connect\<close>
  raises \<^verbatim>\<open>OperationalError("too many redirects")\<close>.
\<close>

theorem connect_too_many_redirects:
  "fst (connect_loop ev 10 c) \<le> 10
   \<and> (all_redirect ev 10 c \<longrightarrow>
        connect_loop ev 10 c = (10, Inl (Raise OperationalError ''too many redirects'')))
   \<and> (validate ev tgt = None \<and> socket c = None
        \<and> all_redirect ev 10
             ((case callback of None \<Rightarrow> c
               | Some cb \<Rightarrow> c\<lparr>handshake_options_callback := Some cb\<rparr>)\<lparr>target := tgt\<rparr>)
      \<longrightarrow> connect ev c tgt callback = Inl (Raise OperationalError ''too many redirects''))"
proof (intro conjI impI)
  show "fst (connect_loop ev 10 c) \<le> 10" by (rule connect_loop_bound)
next
  assume "all_redirect ev 10 c"
  then show "connect_loop ev 10 c = (10, Inl (Raise OperationalError ''too many redirects''))"
    by (rule connect_loop_all_redirect)
next
  let ?c2 = "(case callback of None \<Rightarrow> c
              | Some cb \<Rightarrow> c\<lparr>handshake_options_callback := Some cb\<rparr>)\<lparr>target := tgt\<rparr>"
  assume h: "validate ev tgt = None \<and> socket c = None \<and> all_redirect ev 10 ?c2"
  then have lp: "connect_loop ev 10 ?c2 = (10, Inl (Raise OperationalError ''too many redirects''))"
    by (intro connect_loop_all_redirect) simp
  have so: "socket ?c2 = None" using h by (cases callback) simp_all
  have tg: "target ?c2 = tgt" by simp
  show "connect ev c tgt callback = Inl (Raise OperationalError ''too many redirects'')"
    unfolding connect_def Let_def
    by (simp only: tg so lp h option.case sum.case snd_conv)
qed

subsection \<open>Reading and writing blocks on a connection\<close>

lemma spec_frames_nonempty: "spec_frames fin p \<noteq> []"
  by (subst spec_frames.simps) (simp add: spec_header_def Let_def)

lemma putblock_framed:
  assumes "\<not> truthy (is_raw_control c)" and "socket c = Some s"
    and "\<not> closed s" and "\<not> send_fails s"
  shows "putblock c block
           = Inr (c\<lparr>socket := Some (s\<lparr>outgoing := outgoing s @ spec_frames True block\<rparr>)\<rparr>)"
  using assms putblock_raw_loop_sends [OF assms(3,4), of block True 0]
  by (simp add: putblock_def putblock_raw_def)

lemma getblock_framed:
  assumes raw: "\<not> truthy (is_raw_control c)" and so: "socket c = Some s"
    and op: "\<not> closed s" and ne: "[] \<notin> set (incoming s)"
    and inc: "concat (incoming s) = spec_frames True P @ rest"
    and valid: "utf8_valid (map of_char P)"
  shows "\<exists>segs st. getblock c = Inr (P, c\<lparr>socket := Some (s\<lparr>incoming := segs\<rparr>), stashed_buffer := st\<rparr>)
                   \<and> concat segs = rest \<and> [] \<notin> set segs"
proof -
  obtain buf st0 where gb: "get_buffer c = (buf, c\<lparr>stashed_buffer := st0\<rparr>)"
  proof (cases "stashed_buffer c")
    case None
    then have "get_buffer c = (replicate 8192 (CHR 0x00), c\<lparr>stashed_buffer := None\<rparr>)"
      by (simp add: get_buffer_def)
    then show ?thesis by (rule that)
  next
    case (Some b)
    show ?thesis
    proof (cases "b = []")
      case True
      with Some have "get_buffer c = (replicate 8192 (CHR 0x00), c\<lparr>stashed_buffer := Some b\<rparr>)"
        by (simp add: get_buffer_def)
      then show ?thesis by (rule that)
    next
      case False
      with Some have "get_buffer c = (b, c\<lparr>stashed_buffer := None\<rparr>)"
        by (simp add: get_buffer_def)
      then show ?thesis by (rule that)
    qed
  qed
  from getblock_raw_reads [OF op ne inc, of 0 buf]
  obtain segs buf' where
    rd: "getblock_raw s buf 0 = Inr (s\<lparr>incoming := segs\<rparr>, buf', length P)"
    and segs: "concat segs = rest" "[] \<notin> set segs"
    and tk: "take (length P) buf' = P"
    by auto
  have dec: "decode_utf8 (take (length P) buf') = Inr P"
    using valid tk by (simp add: decode_utf8_def)
  have "\<exists>st. stash_buffer buf' (c\<lparr>stashed_buffer := st0, socket := Some (s\<lparr>incoming := segs\<rparr>)\<rparr>)
                         = c\<lparr>socket := Some (s\<lparr>incoming := segs\<rparr>), stashed_buffer := st\<rparr>"
  proof (cases st0)
    case None
    then show ?thesis by (intro exI [of _ "Some buf'"]) (simp add: stash_buffer_def)
  next
    case (Some a)
    show ?thesis
    proof (cases "length a < length buf'")
      case True
      with Some show ?thesis by (intro exI [of _ "Some buf'"]) (simp add: stash_buffer_def)
    next
      case False
      with Some show ?thesis by (intro exI [of _ "Some a"]) (simp add: stash_buffer_def)
    qed
  qed
  then obtain st where sb: "stash_buffer buf' (c\<lparr>stashed_buffer := st0, socket := Some (s\<lparr>incoming := segs\<rparr>)\<rparr>)
                         = c\<lparr>socket := Some (s\<lparr>incoming := segs\<rparr>), stashed_buffer := st\<rparr>"
    by blast
  have "getblock c = Inr (P, c\<lparr>socket := Some (s\<lparr>incoming := segs\<rparr>), stashed_buffer := st\<rparr>)"
    using raw so by (simp add: getblock_def gb rd dec sb)
  with segs show ?thesis by blast
qed


lemma demo_challenge_response:
  assumes "target c = demo_target" and "handshake_options_callback c = None"
  shows "challenge_response demo_env c demo_challenge
           = Inr (''BIG:monetdb:{SHA256}SHA256(SHA512(monetdb)sXYZ):sql:demo:'',
                  c\<lparr>server_endian := Some ''little'', binexport_level := 0,
                    option_objects := [], remaining_handshake_options := []\<rparr>)"
proof -
  have h: "hashlib_new demo_env ''SHA512'' = Inr (demo_hash ''SHA512'')"
    "hashlib_new demo_env ''SHA256'' = Inr (demo_hash ''SHA256'')"
    by (simp_all add: demo_env_def)
  have s: "''mserver'' \<noteq> ''merovingian''" "CHR '':'' \<notin> set ''mserver''" by simp_all
  have t: "user (target c) = Some ''monetdb''" "password (target c) = Some ''monetdb''"
    "effective_language (target c) = ''sql''" "database (target c) = Some ''demo''"
    using assms(1) by (simp_all add: demo_target_def)
  from example_challenge_response [OF h s t] assms(2)
  show ?thesis by (simp add: demo_challenge_def demo_hash_def)
qed

lemma redirect_dispatch:
  "str_strip redirect_prompt = ''^mapi:monetdb://other:50000/demo''"
  by (simp add: str_strip_def strip_with_def redirect_prompt_def str_isspace_def)

lemma redirect_round:
  assumes so: "socket c = None"
    and ep: "endpoints c = Inr (redirect_server, True) # eps"
    and tg: "target c = demo_target"
    and cb: "handshake_options_callback c = None"
  shows "\<exists>c1 c2. new_connection demo_env c = Inr c1 \<and> \<not> truthy (is_raw_control c1)
              \<and> login demo_env c1 = Inr (False, c2)
              \<and> socket c2 = None \<and> endpoints c2 = eps \<and> target c2 = demo_target
              \<and> handshake_options_callback c2 = None"
proof -
  define s1 where "s1 = redirect_server\<lparr>outgoing := replicate 8 (CHR 0x00)\<rparr>"
  define c1 where "c1 = c\<lparr>socket := Some s1, is_tcp := Some True, endpoints := eps,
                          is_raw_control := Some False\<rparr>"
  have nc: "new_connection demo_env c = Inr c1"
    using ep tg
    by (simp add: new_connection_def try_connect_def prime_or_wrap_connection_def truthy_def
          sock_send_def redirect_server_def fresh_sock_def demo_target_def c1_def s1_def Let_def)
  have raw1: "\<not> truthy (is_raw_control c1)" by (simp add: c1_def truthy_def)
  have so1: "socket c1 = Some s1" by (simp add: c1_def)
  have op1: "\<not> closed s1" "\<not> send_fails s1"
    by (simp_all add: s1_def redirect_server_def fresh_sock_def)
  have ne1: "[] \<notin> set (incoming s1)"
    by (simp add: s1_def redirect_server_def fresh_sock_def spec_frames_nonempty [symmetric])
  have inc1: "concat (incoming s1) = spec_frames True demo_challenge @ spec_frames True redirect_prompt"
    by (simp add: s1_def redirect_server_def fresh_sock_def)
  have v1: "utf8_valid (map of_char demo_challenge)" by (simp add: demo_challenge_def)
  from getblock_framed [OF raw1 so1 op1(1) ne1 inc1 v1]
  obtain segs1 st1 where
    g1: "getblock c1 = Inr (demo_challenge, c1\<lparr>socket := Some (s1\<lparr>incoming := segs1\<rparr>), stashed_buffer := st1\<rparr>)"
    and segs1: "concat segs1 = spec_frames True redirect_prompt" "[] \<notin> set segs1"
    by blast
  define ca where "ca = c1\<lparr>socket := Some (s1\<lparr>incoming := segs1\<rparr>), stashed_buffer := st1\<rparr>"
  have tga: "target ca = demo_target" and cba: "handshake_options_callback ca = None"
    using tg cb by (simp_all add: ca_def c1_def)
  define cb' where "cb' = ca\<lparr>server_endian := Some ''little'', binexport_level := 0,
                    option_objects := [], remaining_handshake_options := []\<rparr>"
  have cr: "challenge_response demo_env ca demo_challenge
              = Inr (''BIG:monetdb:{SHA256}SHA256(SHA512(monetdb)sXYZ):sql:demo:'', cb')"
    unfolding cb'_def by (rule demo_challenge_response [OF tga cba])
  define s2 where "s2 = s1\<lparr>incoming := segs1\<rparr>"
  have rawb: "\<not> truthy (is_raw_control cb')" and sob: "socket cb' = Some s2"
    by (simp_all add: cb'_def ca_def c1_def truthy_def s2_def)
  have op2: "\<not> closed s2" "\<not> send_fails s2" using op1 by (simp_all add: s2_def)
  define s3 where "s3 = s2\<lparr>outgoing := outgoing s2
                     @ spec_frames True ''BIG:monetdb:{SHA256}SHA256(SHA512(monetdb)sXYZ):sql:demo:''\<rparr>"
  define cc where "cc = cb'\<lparr>socket := Some s3\<rparr>"
  have pb: "putblock cb' ''BIG:monetdb:{SHA256}SHA256(SHA512(monetdb)sXYZ):sql:demo:'' = Inr cc"
    unfolding cc_def s3_def by (rule putblock_framed [OF rawb sob op2])
  have rawc: "\<not> truthy (is_raw_control cc)" and soc: "socket cc = Some s3"
    using rawb by (simp_all add: cc_def)
  have op3: "\<not> closed s3" using op2 by (simp add: s3_def)
  have ne3: "[] \<notin> set (incoming s3)" using segs1 by (simp add: s3_def s2_def)
  have inc3: "concat (incoming s3) = spec_frames True redirect_prompt @ []"
    using segs1 by (simp add: s3_def s2_def)
  have v3: "utf8_valid (map of_char redirect_prompt)" by (simp add: redirect_prompt_def)
  from getblock_framed [OF rawc soc op3 ne3 inc3 v3]
  obtain segs4 st4 where
    g4: "getblock cc = Inr (redirect_prompt, cc\<lparr>socket := Some (s3\<lparr>incoming := segs4\<rparr>), stashed_buffer := st4\<rparr>)"
    by blast
  define cd where "cd = cc\<lparr>socket := Some (s3\<lparr>incoming := segs4\<rparr>), stashed_buffer := st4\<rparr>"
  define ce where "ce = release_socket
      ((log_to DEBUG (''redirect to '' @ ''mapi:monetdb://other:50000/demo'') cd)
         \<lparr>socket := Some (sock_close (s3\<lparr>incoming := segs4\<rparr>))\<rparr>)"
  have tgd: "target cd = demo_target"
    using tga by (simp add: cd_def cc_def cb'_def)
  have hr: "handle_redirect demo_env cd ''mapi:monetdb://other:50000/demo'' = Inr ce"
    using tgd
    by (simp add: handle_redirect_def starts_with_def Let_def demo_env_def log_to_def ce_def cd_def)
  have lg: "login demo_env c1 = Inr (False, ce)"
    unfolding login_def
    apply (simp only: so1 g1 ca_def [symmetric] cr pb g4 cd_def [symmetric]
             sum.case prod.case option.distinct if_False Let_def redirect_dispatch)
    apply (simp add: MSG_OK_def MSG_INFO_def MSG_ERROR_def MSG_REDIRECT_def starts_with_def hr)
    done
  have "socket ce = None" by (simp add: ce_def release_socket_def)
  moreover have "endpoints ce = eps"
    by (simp add: ce_def release_socket_def log_to_def cd_def cc_def cb'_def ca_def c1_def)
  moreover have "target ce = demo_target"
    using tgd by (simp add: ce_def release_socket_def log_to_def)
  moreover have "handshake_options_callback ce = None"
    using cb by (simp add: ce_def release_socket_def log_to_def cd_def cc_def cb'_def ca_def c1_def)
  ultimately show ?thesis using nc raw1 lg by blast
qed

lemma redirect_rounds:
  "socket c = None \<Longrightarrow> target c = demo_target \<Longrightarrow> handshake_options_callback c = None \<Longrightarrow>
   endpoints c = replicate n (Inr (redirect_server, True)) @ eps \<Longrightarrow>
   all_redirect demo_env n c"
proof (induction n arbitrary: c)
  case 0
  show ?case by simp
next
  case (Suc n)
  from Suc.prems(4)
  have ep: "endpoints c = Inr (redirect_server, True) # (replicate n (Inr (redirect_server, True)) @ eps)"
    by simp
  from redirect_round [OF Suc.prems(1) ep Suc.prems(2,3)]
  obtain c1 c2 where
    r: "new_connection demo_env c = Inr c1" "\<not> truthy (is_raw_control c1)"
       "login demo_env c1 = Inr (False, c2)"
       "socket c2 = None" "endpoints c2 = replicate n (Inr (redirect_server, True)) @ eps"
       "target c2 = demo_target" "handshake_options_callback c2 = None"
    by blast
  have "all_redirect demo_env n c2" by (rule Suc.IH [OF r(4,6,7,5)])
  with r(1,2,3) Suc.prems(1) show ?case by simp
qed

text \<open>
  Eleven servers in a chain, each redirecting to the next: the client logs in at ten
  of them and fails with \<^verbatim>\<open>OperationalError("too many redirects")\<close>.
\<close>

theorem eleven_redirects:
  "connect demo_env ((new_conn demo_target)\<lparr>endpoints := replicate 11 (Inr (redirect_server, True))\<rparr>)
      demo_target None
     = Inl (Raise OperationalError ''too many redirects'')
   \<and> connect_loop demo_env 10
        ((new_conn demo_target)\<lparr>endpoints := replicate 11 (Inr (redirect_server, True))\<rparr>)
     = (10, Inl (Raise OperationalError ''too many redirects''))"
proof -
  let ?c = "(new_conn demo_target)\<lparr>endpoints := replicate 11 (Inr (redirect_server, True))\<rparr>"
  have e: "endpoints ?c = replicate 10 (Inr (redirect_server, True)) @ [Inr (redirect_server, True)]"
    by (simp add: numeral_eq_Suc replicate_append_same)
  have so: "socket ?c = None" and tg: "target ?c = demo_target"
    and cb: "handshake_options_callback ?c = None"
    by (simp_all add: new_conn_def)
  have ar: "all_redirect demo_env 10 ?c" by (rule redirect_rounds [OF so tg cb e])
  have v: "validate demo_env demo_target = None" by (simp add: demo_env_def)
  have same: "(case None of None \<Rightarrow> ?c
               | Some cb \<Rightarrow> ?c\<lparr>handshake_options_callback := Some cb\<rparr>)\<lparr>target := demo_target\<rparr> = ?c"
    by (simp add: new_conn_def)
  note inst = connect_too_many_redirects [of demo_env ?c demo_target None]
  have a: "connect demo_env ?c demo_target None = Inl (Raise OperationalError ''too many redirects'')"
    by (rule inst [THEN conjunct2, THEN conjunct2, THEN mp]) (simp only: v so same ar simp_thms)
  have b: "connect_loop demo_env 10 ?c = (10, Inl (Raise OperationalError ''too many redirects''))"
    by (rule inst [THEN conjunct2, THEN conjunct1, THEN mp]) (rule ar)
  from a b show ?thesis by (rule conjI)
qed

section \<open>Handshake options\<close>

text \<open>What the loop over the options and the loop over the fallbacks compute.\<close>

lemma options_loop_eq:
  "options_loop N opts acc
     = (acc @ map (\<lambda>opt. name opt @ ''='' @ str_int (opt_value opt)) (filter (\<lambda>opt. level opt < N) opts),
        map (\<lambda>opt. if level opt < N then opt\<lparr>sent := True\<rparr> else opt) opts)"
  by (induction opts arbitrary: acc) (auto simp: Let_def)

lemma marked_fresh:
  assumes "\<forall>opt\<in>set opts. \<not> sent opt"
  shows "map (\<lambda>opt. if level opt < N then opt\<lparr>sent := True\<rparr> else opt) opts
           = map (\<lambda>opt. opt\<lparr>sent := (level opt < N)\<rparr>) opts"
    and "filter (\<lambda>opt. \<not> sent opt)
           (map (\<lambda>opt. if level opt < N then opt\<lparr>sent := True\<rparr> else opt) opts)
           = filter (\<lambda>opt. \<not> level opt < N) opts"
  using assms by (induction opts) auto

lemma remaining_unmarked:
  "filter (\<lambda>opt. \<not> sent opt) (map (\<lambda>opt. if level opt < N then opt\<lparr>sent := True\<rparr> else opt) opts)
     = filter (\<lambda>opt. \<not> level opt < N \<and> \<not> sent opt) opts"
  by (induction opts) auto

lemma fallback_loop_eq:
  "fallback_loop opts c
     = (c\<lparr>fallback_calls := fallback_calls c
           @ map (\<lambda>opt. (name opt, opt_value opt))
               (takeWhile (\<lambda>opt. fallback opt (opt_value opt) = None) opts
                @ take 1 (dropWhile (\<lambda>opt. fallback opt (opt_value opt) = None) opts))\<rparr>,
        case dropWhile (\<lambda>opt. fallback opt (opt_value opt) = None) opts of
          [] \<Rightarrow> None
        | opt # rest \<Rightarrow> fallback opt (opt_value opt))"
proof (induction opts arbitrary: c)
  case Nil
  show ?case by simp
next
  case (Cons opt opts)
  show ?case
  proof (cases "fallback opt (opt_value opt)")
    case None
    then show ?thesis by (simp add: Let_def Cons.IH)
  next
    case (Some e)
    then show ?thesis by (simp add: Let_def)
  qed
qed

text \<open>What a login response that was computed looks like.\<close>

lemma challenge_response_Inr:
  assumes "challenge_response ev c challenge = Inr (response, c')"
  shows "\<exists>se base.
           response_line ev c (butlast (split_on CHR '':'' challenge)) = Inr (se, base)
         \<and> remaining_handshake_options c' = filter (\<lambda>opt. \<not> sent opt) (option_objects c')
         \<and> (if 7 \<le> length (butlast (split_on CHR '':'' challenge))
             then \<exists>N. options_level_loop ev
                         (split_on CHR '','' (butlast (split_on CHR '':'' challenge) ! 6)) 0 = Inr N
                      \<and> response
                          = base @ ''FILETRANS:''
                              @ join '','' (map (\<lambda>opt. name opt @ ''='' @ str_int (opt_value opt))
                                             (filter (\<lambda>opt. level opt < N)
                                                (case handshake_options_callback c of
                                                   None \<Rightarrow> []
                                                 | Some callback \<Rightarrow> callback (binexport_level c'))))
                              @ '':''
                      \<and> option_objects c'
                          = map (\<lambda>opt. if level opt < N then opt\<lparr>sent := True\<rparr> else opt)
                              (case handshake_options_callback c of
                                 None \<Rightarrow> []
                               | Some callback \<Rightarrow> callback (binexport_level c'))
             else response = base
                  \<and> option_objects c' = (case handshake_options_callback c of
                                            None \<Rightarrow> []
                                          | Some callback \<Rightarrow> callback (binexport_level c')))"
proof -
  let ?ch = "butlast (split_on CHR '':'' challenge)"
  from assms obtain se base where rl: "response_line ev c ?ch = Inr (se, base)"
    unfolding challenge_response_def Let_def
    by (auto split: if_splits sum.splits prod.splits)
  from assms rl obtain binexport where bl: "read_binexport_level ev ?ch = Inr binexport"
    unfolding challenge_response_def Let_def
    by (auto split: if_splits sum.splits prod.splits)
  let ?opts = "case handshake_options_callback c of None \<Rightarrow> [] | Some callback \<Rightarrow> callback binexport"
  have ok: "\<not> (last (split_on CHR '':'' challenge) \<noteq> [] \<or> length (split_on CHR '':'' challenge) < 7)"
    using assms unfolding challenge_response_def Let_def by (auto split: if_splits)
  show ?thesis
  proof (cases "7 \<le> length ?ch")
    case True
    with assms rl bl ok obtain N where
      lv: "options_level_loop ev (split_on CHR '','' (?ch ! 6)) 0 = Inr N"
      unfolding challenge_response_def Let_def
      by (auto split: if_splits sum.splits prod.splits)
    from assms have
      "response = base @ ''FILETRANS:''
                    @ join '','' (map (\<lambda>opt. name opt @ ''='' @ str_int (opt_value opt))
                                   (filter (\<lambda>opt. level opt < N) ?opts)) @ '':''"
      and "c' = c\<lparr>server_endian := Some se, binexport_level := binexport,
                   option_objects := map (\<lambda>opt. if level opt < N then opt\<lparr>sent := True\<rparr> else opt) ?opts,
                   remaining_handshake_options :=
                     filter (\<lambda>opt. \<not> sent opt)
                       (map (\<lambda>opt. if level opt < N then opt\<lparr>sent := True\<rparr> else opt) ?opts)\<rparr>"
      unfolding challenge_response_def Let_def options_loop_eq
      using ok rl bl lv True by simp_all
    then have "response = base @ ''FILETRANS:''
                    @ join '','' (map (\<lambda>opt. name opt @ ''='' @ str_int (opt_value opt))
                                   (filter (\<lambda>opt. level opt < N) ?opts)) @ '':''"
      and "binexport_level c' = binexport"
      and "option_objects c' = map (\<lambda>opt. if level opt < N then opt\<lparr>sent := True\<rparr> else opt) ?opts"
      and "remaining_handshake_options c' = filter (\<lambda>opt. \<not> sent opt) (option_objects c')"
      by simp_all
    with rl lv True show ?thesis by (simp cong: option.case_cong)
  next
    case False
    from assms have "response = base"
      and "c' = c\<lparr>server_endian := Some se, binexport_level := binexport,
                   option_objects := ?opts,
                   remaining_handshake_options := filter (\<lambda>opt. \<not> sent opt) ?opts\<rparr>"
      unfolding challenge_response_def Let_def
      using ok rl bl False by simp_all
    then have "response = base" and "binexport_level c' = binexport"
      and "option_objects c' = ?opts"
      and "remaining_handshake_options c' = filter (\<lambda>opt. \<not> sent opt) (option_objects c')"
      by simp_all
    with rl False show ?thesis by (simp cong: option.case_cong)
  qed
qed

text \<open>
  What reading and writing a block, computing the login response, a redirect and a new
  connection leave as it is.
\<close>

lemma getblock_fields:
  "getblock c = Inr (x, c') \<Longrightarrow> c' = c\<lparr>socket := socket c', stashed_buffer := stashed_buffer c'\<rparr>"
  by (auto simp: getblock_def recv_to_end_def get_buffer_def stash_buffer_def Let_def
           split: if_splits option.splits sum.splits prod.splits)

lemma putblock_fields:
  "putblock c block = Inr c' \<Longrightarrow> c' = c\<lparr>socket := socket c'\<rparr>"
  by (auto simp: putblock_def send_all_and_shutdown_def Let_def
           split: if_splits option.splits sum.splits)

lemma challenge_response_fields:
  "challenge_response ev c challenge = Inr (response, c') \<Longrightarrow>
   c' = c\<lparr>server_endian := server_endian c', binexport_level := binexport_level c',
          option_objects := option_objects c',
          remaining_handshake_options := remaining_handshake_options c'\<rparr>"
  by (auto simp: challenge_response_def Let_def split: if_splits sum.splits prod.splits)

lemma handle_redirect_fields:
  "handle_redirect ev c redirect = Inr c' \<Longrightarrow>
   handshake_options_callback c' = handshake_options_callback c
   \<and> fallback_calls c' = fallback_calls c"
  by (auto simp: handle_redirect_def release_socket_def log_to_def Let_def
           split: if_splits option.splits sum.splits)

lemma new_connection_fields:
  "new_connection ev c = Inr c' \<Longrightarrow>
   handshake_options_callback c' = handshake_options_callback c
   \<and> fallback_calls c' = fallback_calls c"
  by (auto simp: new_connection_def try_connect_def prime_or_wrap_connection_def Let_def
           split: if_splits option.splits sum.splits list.splits prod.splits)

text \<open>The steps of a login that returned, and what it leaves as it is.\<close>

lemma login_steps:
  assumes "login ev c1 = Inr (ok, c4)"
  shows "\<exists>challenge ca response c' cb.
           getblock c1 = Inr (challenge, ca)
         \<and> challenge_response ev ca challenge = Inr (response, c')
         \<and> putblock c' response = Inr cb
         \<and> handshake_options_callback ca = handshake_options_callback c1
         \<and> handshake_options_callback c4 = handshake_options_callback c1
         \<and> fallback_calls c4 = fallback_calls c1
         \<and> (ok \<longrightarrow> option_objects c4 = option_objects c'
                  \<and> remaining_handshake_options c4 = remaining_handshake_options c'
                  \<and> binexport_level c4 = binexport_level c'
                  \<and> is_raw_control c4 = is_raw_control c1
                  \<and> state c4 = state c1)"
proof -
  from assms obtain challenge ca where g1: "getblock c1 = Inr (challenge, ca)"
    by (auto simp: login_def split: if_splits sum.splits)
  from assms g1 obtain response c' where cr: "challenge_response ev ca challenge = Inr (response, c')"
    by (auto simp: login_def split: if_splits sum.splits)
  from assms g1 cr obtain cb where pb: "putblock c' response = Inr cb"
    by (auto simp: login_def split: if_splits sum.splits)
  from assms g1 cr pb obtain prompt0 cd where g2: "getblock cb = Inr (prompt0, cd)"
    by (auto simp: login_def split: if_splits sum.splits)
  note fa = getblock_fields [OF g1]
  note fr = challenge_response_fields [OF cr]
  note fb = putblock_fields [OF pb]
  note fd = getblock_fields [OF g2]
  have same: "handshake_options_callback cd = handshake_options_callback c1"
    "fallback_calls cd = fallback_calls c1"
    "option_objects cd = option_objects c'"
    "remaining_handshake_options cd = remaining_handshake_options c'"
    "binexport_level cd = binexport_level c'"
    "is_raw_control cd = is_raw_control c1"
    "state cd = state c1"
    by (subst fd, subst fb, subst fr, subst fa, simp)+
  have sa: "handshake_options_callback ca = handshake_options_callback c1"
    by (subst fa) simp
  from assms g1 cr pb g2 have
    "(ok \<and> (c4 = cd \<or> c4 = log_to INFO (drop 1 (str_strip prompt0)) cd))
     \<or> (\<not> ok \<and> (\<exists>r. handle_redirect ev cd r = Inr c4))"
    by (auto simp: login_def Let_def split: if_splits sum.splits)
  then have "handshake_options_callback c4 = handshake_options_callback c1
         \<and> fallback_calls c4 = fallback_calls c1
         \<and> (ok \<longrightarrow> option_objects c4 = option_objects c'
                  \<and> remaining_handshake_options c4 = remaining_handshake_options c'
                  \<and> binexport_level c4 = binexport_level c'
                  \<and> is_raw_control c4 = is_raw_control c1
                  \<and> state c4 = state c1)"
    using same by (auto simp: log_to_def dest: handle_redirect_fields)
  with g1 cr pb sa show ?thesis by blast
qed

text \<open>
  A connection that the loop of \<^verbatim>\<open>connect\<close> ends with, other than a raw control
  connection, comes out of a login that succeeded.
\<close>

lemma connect_loop_login:
  "snd (connect_loop ev n c) = Inr c4 \<Longrightarrow> \<not> truthy (is_raw_control c4) \<Longrightarrow>
   \<exists>c1. login ev c1 = Inr (True, c4)
      \<and> handshake_options_callback c1 = handshake_options_callback c
      \<and> fallback_calls c1 = fallback_calls c"
proof (induction n arbitrary: c)
  case 0
  then show ?case by simp
next
  case (Suc n)
  from Suc.prems(1) obtain c1 where
    c1: "(if socket c = None then new_connection ev c else Inr c) = Inr c1"
    by (cases "if socket c = None then new_connection ev c else Inr c") simp_all
  then have k1: "handshake_options_callback c1 = handshake_options_callback c
                 \<and> fallback_calls c1 = fallback_calls c"
    by (auto split: if_splits dest: new_connection_fields)
  have nraw: "\<not> truthy (is_raw_control c1)"
  proof
    assume "truthy (is_raw_control c1)"
    with Suc.prems(1) c1 have "c4 = c1" by simp
    with Suc.prems(2) \<open>truthy (is_raw_control c1)\<close> show False by simp
  qed
  from Suc.prems(1) c1 nraw obtain ok c2 where lg: "login ev c1 = Inr (ok, c2)"
    by (cases "login ev c1") auto
  show ?case
  proof (cases ok)
    case True
    with Suc.prems(1) c1 nraw lg have "c4 = c2" by simp
    with lg True k1 show ?thesis by (intro exI [of _ c1]) simp
  next
    case False
    with Suc.prems(1) c1 nraw lg have "snd (connect_loop ev n c2) = Inr c4"
      by (simp add: split_beta)
    from Suc.IH [OF this Suc.prems(2)] obtain c1' where
      "login ev c1' = Inr (True, c4)"
      "handshake_options_callback c1' = handshake_options_callback c2"
      "fallback_calls c1' = fallback_calls c2"
      by blast
    moreover from login_steps [OF lg] have "handshake_options_callback c2 = handshake_options_callback c1"
      "fallback_calls c2 = fallback_calls c1" by auto
    ultimately show ?thesis using k1 by auto
  qed
qed

text \<open>\<^verbatim>\<open>connect\<close> after its loop.\<close>

lemma connect_after_loop:
  assumes "validate ev tgt = None" and "socket c = None"
    and "snd (connect_loop ev 10 (c\<lparr>handshake_options_callback := Some callback, target := tgt\<rparr>)) = Inr c4"
  shows "connect ev c tgt (Some callback)
           = (case snd (connect_ready c4) of
                None \<Rightarrow> Inr (fst (connect_ready c4))
              | Some e \<Rightarrow> Inl e)"
  using assms by (simp add: connect_def Let_def split: prod.splits option.splits)

text \<open>
  Claim C8, as amended. Let \<^verbatim>\<open>connect\<close> run with a callback, on a valid target and a
  connection without a socket; let its loop end with a working connection \<open>c4\<close> that is
  not a raw control connection, let \<open>c1\<close> be the connection on which \<^verbatim>\<open>_login\<close> succeeded
  and \<open>challenge\<close> the challenge it read. The login response is computed from that
  challenge and sent. When the challenge has the options field, with \<open>N\<close> the level it
  advertises and \<open>opts\<close> the options the callback returns: the response ends with
  \<^verbatim>\<open>FILETRANS:\<close> and the entries \<^verbatim>\<open>name=intval\<close> of exactly the options with \<open>level < N\<close>, in
  list order; exactly these are marked as sent; the options left for after the login
  are those whose flag \<open>sent\<close> is not set, and none of them has \<open>level < N\<close> (for options
  that arrive unmarked, as their constructor leaves them, they are exactly the options
  with \<open>level \<ge> N\<close>). No fallback is invoked before the connection is ready. \<^verbatim>\<open>connect\<close>
  then sets the state to \<open>STATE_READY\<close> and invokes the fallbacks of the options left, in
  list order, each with the option's value, up to the first that raises: when none
  raises, each is invoked exactly once and \<^verbatim>\<open>connect\<close> returns; when one raises,
  \<^verbatim>\<open>connect\<close> raises its exception and the fallbacks after it are not invoked.
\<close>

theorem handshake_options_sent_or_deferred:
  assumes v: "validate ev tgt = None" and so: "socket c = None"
    and lp: "snd (connect_loop ev 10 (c\<lparr>handshake_options_callback := Some callback, target := tgt\<rparr>))
               = Inr c4"
    and raw: "\<not> truthy (is_raw_control c4)"
    and lg: "login ev c1 = Inr (True, c4)"
    and g1: "getblock c1 = Inr (challenge, ca)"
  shows "\<exists>response c' cb.
      challenge_response ev ca challenge = Inr (response, c')
    \<and> putblock c' response = Inr cb
    \<and> (7 \<le> length (butlast (split_on CHR '':'' challenge)) \<longrightarrow>
        (\<exists>N se base.
            options_level_loop ev
              (split_on CHR '','' (butlast (split_on CHR '':'' challenge) ! 6)) 0 = Inr N
          \<and> response_line ev ca (butlast (split_on CHR '':'' challenge)) = Inr (se, base)
          \<and> response = base @ ''FILETRANS:''
                @ join '','' (map (\<lambda>opt. name opt @ ''='' @ str_int (opt_value opt))
                               (filter (\<lambda>opt. level opt < N) (callback (binexport_level c4))))
                @ '':''
          \<and> option_objects c4
              = map (\<lambda>opt. if level opt < N then opt\<lparr>sent := True\<rparr> else opt)
                  (callback (binexport_level c4))
          \<and> remaining_handshake_options c4
              = filter (\<lambda>opt. \<not> level opt < N \<and> \<not> sent opt) (callback (binexport_level c4))
          \<and> ((\<forall>opt\<in>set (callback (binexport_level c4)). \<not> sent opt) \<longrightarrow>
                option_objects c4
                  = map (\<lambda>opt. opt\<lparr>sent := (level opt < N)\<rparr>) (callback (binexport_level c4))
              \<and> remaining_handshake_options c4
                  = filter (\<lambda>opt. \<not> level opt < N) (callback (binexport_level c4)))))
    \<and> remaining_handshake_options c4 = filter (\<lambda>opt. \<not> sent opt) (option_objects c4)
    \<and> fallback_calls c4 = fallback_calls c
    \<and> connect_ready c4
        = (c4\<lparr>state := STATE_READY,
              fallback_calls := fallback_calls c
                @ map (\<lambda>opt. (name opt, opt_value opt))
                    (takeWhile (\<lambda>opt. fallback opt (opt_value opt) = None)
                       (remaining_handshake_options c4)
                     @ take 1 (dropWhile (\<lambda>opt. fallback opt (opt_value opt) = None)
                                 (remaining_handshake_options c4)))\<rparr>,
           case dropWhile (\<lambda>opt. fallback opt (opt_value opt) = None)
                  (remaining_handshake_options c4) of
             [] \<Rightarrow> None
           | opt # rest \<Rightarrow> fallback opt (opt_value opt))
    \<and> connect ev c tgt (Some callback)
        = (case snd (connect_ready c4) of
             None \<Rightarrow> Inr (fst (connect_ready c4))
           | Some e \<Rightarrow> Inl e)
    \<and> ((\<forall>opt\<in>set (remaining_handshake_options c4). fallback opt (opt_value opt) = None) \<longrightarrow>
          connect ev c tgt (Some callback)
            = Inr (c4\<lparr>state := STATE_READY,
                      fallback_calls := fallback_calls c
                        @ map (\<lambda>opt. (name opt, opt_value opt))
                            (remaining_handshake_options c4)\<rparr>))
    \<and> (\<forall>pre opt rest e.
          remaining_handshake_options c4 = pre @ opt # rest
          \<and> (\<forall>p\<in>set pre. fallback p (opt_value p) = None)
          \<and> fallback opt (opt_value opt) = Some e \<longrightarrow>
            connect ev c tgt (Some callback) = Inl e
          \<and> fallback_calls (fst (connect_ready c4))
              = fallback_calls c @ map (\<lambda>opt. (name opt, opt_value opt)) (pre @ [opt]))"
proof -
  let ?ret = "\<lambda>opt. fallback opt (opt_value opt) = None"
  let ?nv = "\<lambda>opt. (name opt, opt_value opt)"
  let ?rem = "remaining_handshake_options c4"
  from connect_loop_login [OF lp raw] obtain c0 where
    lg0: "login ev c0 = Inr (True, c4)"
    and cb0: "handshake_options_callback c0 = Some callback"
    and fc0: "fallback_calls c0 = fallback_calls c"
    by auto
  from login_steps [OF lg0] cb0 fc0 have
    cb4: "handshake_options_callback c4 = Some callback"
    and fc4: "fallback_calls c4 = fallback_calls c"
    by auto
  from login_steps [OF lg] g1 cb4 obtain response c' cb where
    cr: "challenge_response ev ca challenge = Inr (response, c')"
    and pb: "putblock c' response = Inr cb"
    and cba: "handshake_options_callback ca = Some callback"
    and oo: "option_objects c4 = option_objects c'"
    and rr: "remaining_handshake_options c4 = remaining_handshake_options c'"
    and bl: "binexport_level c4 = binexport_level c'"
    by auto
  let ?ch = "butlast (split_on CHR '':'' challenge)"
  let ?opts = "callback (binexport_level c4)"
  let ?cbo = "case handshake_options_callback ca of
                None \<Rightarrow> [] | Some callback \<Rightarrow> callback (binexport_level c')"
  have opts_eq: "?cbo = ?opts" using cba bl by simp
  from challenge_response_Inr [OF cr] obtain se base where
    base: "response_line ev ca ?ch = Inr (se, base)"
    and rem: "remaining_handshake_options c' = filter (\<lambda>opt. \<not> sent opt) (option_objects c')"
    and ifp: "if 7 \<le> length ?ch
         then \<exists>N. options_level_loop ev (split_on CHR '','' (?ch ! 6)) 0 = Inr N
              \<and> response = base @ ''FILETRANS:''
                   @ join '','' (map (\<lambda>opt. name opt @ ''='' @ str_int (opt_value opt))
                                  (filter (\<lambda>opt. level opt < N) ?cbo))
                   @ '':''
              \<and> option_objects c'
                   = map (\<lambda>opt. if level opt < N then opt\<lparr>sent := True\<rparr> else opt) ?cbo
         else response = base \<and> option_objects c' = ?cbo"
    by blast
  have fld: "\<exists>N. options_level_loop ev (split_on CHR '','' (?ch ! 6)) 0 = Inr N
              \<and> response = base @ ''FILETRANS:''
                   @ join '','' (map (\<lambda>opt. name opt @ ''='' @ str_int (opt_value opt))
                                  (filter (\<lambda>opt. level opt < N) ?opts))
                   @ '':''
              \<and> option_objects c'
                   = map (\<lambda>opt. if level opt < N then opt\<lparr>sent := True\<rparr> else opt) ?opts"
    if "7 \<le> length ?ch"
    using ifp that unfolding opts_eq by (simp only: if_True)
  have A: "7 \<le> length ?ch \<longrightarrow>
        (\<exists>N se base.
            options_level_loop ev (split_on CHR '','' (?ch ! 6)) 0 = Inr N
          \<and> response_line ev ca ?ch = Inr (se, base)
          \<and> response = base @ ''FILETRANS:''
                @ join '','' (map (\<lambda>opt. name opt @ ''='' @ str_int (opt_value opt))
                               (filter (\<lambda>opt. level opt < N) ?opts))
                @ '':''
          \<and> option_objects c4
              = map (\<lambda>opt. if level opt < N then opt\<lparr>sent := True\<rparr> else opt) ?opts
          \<and> remaining_handshake_options c4
              = filter (\<lambda>opt. \<not> level opt < N \<and> \<not> sent opt) ?opts
          \<and> ((\<forall>opt\<in>set ?opts. \<not> sent opt) \<longrightarrow>
                option_objects c4 = map (\<lambda>opt. opt\<lparr>sent := (level opt < N)\<rparr>) ?opts
              \<and> remaining_handshake_options c4 = filter (\<lambda>opt. \<not> level opt < N) ?opts))"
  proof
    assume "7 \<le> length ?ch"
    from fld [OF this] obtain N where
      lv: "options_level_loop ev (split_on CHR '','' (?ch ! 6)) 0 = Inr N"
      and resp: "response = base @ ''FILETRANS:''
                   @ join '','' (map (\<lambda>opt. name opt @ ''='' @ str_int (opt_value opt))
                                  (filter (\<lambda>opt. level opt < N) ?opts))
                   @ '':''"
      and objs: "option_objects c'
                   = map (\<lambda>opt. if level opt < N then opt\<lparr>sent := True\<rparr> else opt) ?opts"
      by blast
    have o4: "option_objects c4
                = map (\<lambda>opt. if level opt < N then opt\<lparr>sent := True\<rparr> else opt) ?opts"
      using oo objs by simp
    have r4: "remaining_handshake_options c4
                = filter (\<lambda>opt. \<not> level opt < N \<and> \<not> sent opt) ?opts"
      using rr rem objs by (simp add: remaining_unmarked)
    have fr: "(\<forall>opt\<in>set ?opts. \<not> sent opt) \<longrightarrow>
                option_objects c4 = map (\<lambda>opt. opt\<lparr>sent := (level opt < N)\<rparr>) ?opts
              \<and> remaining_handshake_options c4 = filter (\<lambda>opt. \<not> level opt < N) ?opts"
    proof
      assume f: "\<forall>opt\<in>set ?opts. \<not> sent opt"
      show "option_objects c4 = map (\<lambda>opt. opt\<lparr>sent := (level opt < N)\<rparr>) ?opts
              \<and> remaining_handshake_options c4 = filter (\<lambda>opt. \<not> level opt < N) ?opts"
      proof
        show "option_objects c4 = map (\<lambda>opt. opt\<lparr>sent := (level opt < N)\<rparr>) ?opts"
          using o4 marked_fresh(1) [OF f, of N] by (simp only:)
        have "filter (\<lambda>opt. \<not> level opt < N \<and> \<not> sent opt) ?opts
                = filter (\<lambda>opt. \<not> level opt < N) ?opts"
          using f by (intro filter_cong) auto
        with r4 show "remaining_handshake_options c4 = filter (\<lambda>opt. \<not> level opt < N) ?opts"
          by (simp only:)
      qed
    qed
    from lv base resp o4 r4 fr show "\<exists>N se base.
            options_level_loop ev (split_on CHR '','' (?ch ! 6)) 0 = Inr N
          \<and> response_line ev ca ?ch = Inr (se, base)
          \<and> response = base @ ''FILETRANS:''
                @ join '','' (map (\<lambda>opt. name opt @ ''='' @ str_int (opt_value opt))
                               (filter (\<lambda>opt. level opt < N) ?opts))
                @ '':''
          \<and> option_objects c4
              = map (\<lambda>opt. if level opt < N then opt\<lparr>sent := True\<rparr> else opt) ?opts
          \<and> remaining_handshake_options c4
              = filter (\<lambda>opt. \<not> level opt < N \<and> \<not> sent opt) ?opts
          \<and> ((\<forall>opt\<in>set ?opts. \<not> sent opt) \<longrightarrow>
                option_objects c4 = map (\<lambda>opt. opt\<lparr>sent := (level opt < N)\<rparr>) ?opts
              \<and> remaining_handshake_options c4 = filter (\<lambda>opt. \<not> level opt < N) ?opts)"
      by blast
  qed
  have B: "remaining_handshake_options c4 = filter (\<lambda>opt. \<not> sent opt) (option_objects c4)"
    using rr rem oo by simp
  have C: "connect_ready c4
        = (c4\<lparr>state := STATE_READY,
              fallback_calls := fallback_calls c
                @ map ?nv (takeWhile ?ret ?rem @ take 1 (dropWhile ?ret ?rem))\<rparr>,
           case dropWhile ?ret ?rem of [] \<Rightarrow> None | opt # rest \<Rightarrow> fallback opt (opt_value opt))"
    unfolding connect_ready_def Let_def fallback_loop_eq using fc4 by simp
  have D: "connect ev c tgt (Some callback)
        = (case snd (connect_ready c4) of
             None \<Rightarrow> Inr (fst (connect_ready c4))
           | Some e \<Rightarrow> Inl e)"
    by (rule connect_after_loop [OF v so lp])
  have E: "(\<forall>opt\<in>set ?rem. ?ret opt) \<longrightarrow>
          connect ev c tgt (Some callback)
            = Inr (c4\<lparr>state := STATE_READY,
                      fallback_calls := fallback_calls c @ map ?nv ?rem\<rparr>)"
  proof
    assume "\<forall>opt\<in>set ?rem. ?ret opt"
    then have tw: "takeWhile ?ret ?rem = ?rem" and dw: "dropWhile ?ret ?rem = []" by simp_all
    show "connect ev c tgt (Some callback)
            = Inr (c4\<lparr>state := STATE_READY,
                      fallback_calls := fallback_calls c @ map ?nv ?rem\<rparr>)"
      unfolding D C tw dw by simp
  qed
  have F: "\<forall>pre opt rest e.
          ?rem = pre @ opt # rest \<and> (\<forall>p\<in>set pre. ?ret p) \<and> fallback opt (opt_value opt) = Some e \<longrightarrow>
            connect ev c tgt (Some callback) = Inl e
          \<and> fallback_calls (fst (connect_ready c4)) = fallback_calls c @ map ?nv (pre @ [opt])"
  proof (intro allI impI)
    fix pre opt rest e
    assume h: "?rem = pre @ opt # rest \<and> (\<forall>p\<in>set pre. ?ret p) \<and> fallback opt (opt_value opt) = Some e"
    then have tw: "takeWhile ?ret ?rem = pre" and dw: "dropWhile ?ret ?rem = opt # rest"
      by (simp_all add: takeWhile_append2 dropWhile_append2)
    from h have e: "fallback opt (opt_value opt) = Some e" by simp
    show "connect ev c tgt (Some callback) = Inl e
          \<and> fallback_calls (fst (connect_ready c4)) = fallback_calls c @ map ?nv (pre @ [opt])"
      unfolding D C tw dw by (simp add: e)
  qed
  from cr pb A B fc4 C D E F show ?thesis by blast
qed

text \<open>A login at the server of the example that accepts every response.\<close>

lemma options_challenge_split:
  "split_on CHR '':'' ''sXYZ:mserver:9:SHA256,SHA1:LIT:SHA512:sql=4:BINARY=1:''
     = [''sXYZ'', ''mserver'', ''9'', ''SHA256,SHA1'', ''LIT'', ''SHA512'', ''sql=4'', ''BINARY=1'', []]"
  by simp

lemma options_level_4:
  "options_level_loop demo_env (split_on CHR '','' ''sql=4'') 0 = Inr 4"
  by (simp add: starts_with_def demo_env_def demo_int_def)

lemma options_challenge_response_any:
  assumes tg: "target c = demo_target" and cb: "handshake_options_callback c = Some cbk"
  shows "challenge_response demo_env c options_challenge
     = Inr (''BIG:monetdb:{SHA256}SHA256(SHA512(monetdb)sXYZ):sql:demo:FILETRANS:''
              @ join '','' (map (\<lambda>opt. name opt @ ''='' @ str_int (opt_value opt))
                             (filter (\<lambda>opt. level opt < 4) (cbk 1)))
              @ '':'',
            c\<lparr>server_endian := Some ''little'', binexport_level := 1,
              option_objects :=
                map (\<lambda>opt. if level opt < 4 then opt\<lparr>sent := True\<rparr> else opt) (cbk 1),
              remaining_handshake_options :=
                filter (\<lambda>opt. \<not> sent opt)
                  (map (\<lambda>opt. if level opt < 4 then opt\<lparr>sent := True\<rparr> else opt) (cbk 1))\<rparr>)"
proof -
  have rl: "response_line demo_env c
     [''sXYZ'', ''mserver'', ''9'', ''SHA256,SHA1'', ''LIT'', ''SHA512'', ''sql=4'', ''BINARY=1'']
     = Inr (''little'', ''BIG:monetdb:{SHA256}SHA256(SHA512(monetdb)sXYZ):sql:demo:'')"
    using tg
    by (simp add: response_line_def Let_def demo_env_def demo_hash_def demo_target_def or_empty_def)
  have bl: "read_binexport_level demo_env
              [''sXYZ'', ''mserver'', ''9'', ''SHA256,SHA1'', ''LIT'', ''SHA512'', ''sql=4'', ''BINARY=1'']
              = Inr 1"
    by (simp add: read_binexport_level_def starts_with_def demo_env_def demo_int_def)
  show ?thesis
    unfolding challenge_response_def options_challenge_def options_challenge_split
    by (simp add: Let_def rl bl cb options_level_4 [simplified] options_loop_eq)
qed

lemma options_round:
  assumes so: "socket c = None"
    and ep: "endpoints c = Inr (options_server, True) # eps"
    and tg: "target c = demo_target"
    and cb: "handshake_options_callback c = Some cbk"
  shows "\<exists>c1 ca c4 s. snd (connect_loop demo_env 10 c) = Inr c4
              \<and> login demo_env c1 = Inr (True, c4)
              \<and> getblock c1 = Inr (options_challenge, ca)
              \<and> target ca = demo_target
              \<and> \<not> truthy (is_raw_control c4)
              \<and> socket c4 = Some s
              \<and> outgoing s = replicate 8 (CHR 0x00)
                   @ spec_frames True
                       (''BIG:monetdb:{SHA256}SHA256(SHA512(monetdb)sXYZ):sql:demo:FILETRANS:''
                        @ join '','' (map (\<lambda>opt. name opt @ ''='' @ str_int (opt_value opt))
                                       (filter (\<lambda>opt. level opt < 4) (cbk 1)))
                        @ '':'')
              \<and> binexport_level c4 = 1
              \<and> option_objects c4
                   = map (\<lambda>opt. if level opt < 4 then opt\<lparr>sent := True\<rparr> else opt) (cbk 1)
              \<and> remaining_handshake_options c4
                   = filter (\<lambda>opt. \<not> sent opt)
                       (map (\<lambda>opt. if level opt < 4 then opt\<lparr>sent := True\<rparr> else opt) (cbk 1))
              \<and> fallback_calls c4 = fallback_calls c
              \<and> state c4 = state c"
proof -
  let ?resp = "''BIG:monetdb:{SHA256}SHA256(SHA512(monetdb)sXYZ):sql:demo:FILETRANS:''
                 @ join '','' (map (\<lambda>opt. name opt @ ''='' @ str_int (opt_value opt))
                                (filter (\<lambda>opt. level opt < 4) (cbk 1)))
                 @ '':''"
  define s1 where "s1 = options_server\<lparr>outgoing := replicate 8 (CHR 0x00)\<rparr>"
  define c1 where "c1 = c\<lparr>socket := Some s1, is_tcp := Some True, endpoints := eps,
                          is_raw_control := Some False\<rparr>"
  have nc: "new_connection demo_env c = Inr c1"
    using ep tg
    by (simp add: new_connection_def try_connect_def prime_or_wrap_connection_def truthy_def
          sock_send_def options_server_def fresh_sock_def demo_target_def c1_def s1_def Let_def)
  have raw1: "\<not> truthy (is_raw_control c1)" by (simp add: c1_def truthy_def)
  have so1: "socket c1 = Some s1" by (simp add: c1_def)
  have op1: "\<not> closed s1" "\<not> send_fails s1"
    by (simp_all add: s1_def options_server_def fresh_sock_def)
  have ne1: "[] \<notin> set (incoming s1)"
    by (simp add: s1_def options_server_def fresh_sock_def spec_frames_nonempty [symmetric])
  have inc1: "concat (incoming s1) = spec_frames True options_challenge @ spec_frames True []"
    by (simp add: s1_def options_server_def fresh_sock_def)
  have v1: "utf8_valid (map of_char options_challenge)" by (simp add: options_challenge_def)
  from getblock_framed [OF raw1 so1 op1(1) ne1 inc1 v1]
  obtain segs1 st1 where
    g1: "getblock c1 = Inr (options_challenge, c1\<lparr>socket := Some (s1\<lparr>incoming := segs1\<rparr>), stashed_buffer := st1\<rparr>)"
    and segs1: "concat segs1 = spec_frames True []" "[] \<notin> set segs1"
    by blast
  define ca where "ca = c1\<lparr>socket := Some (s1\<lparr>incoming := segs1\<rparr>), stashed_buffer := st1\<rparr>"
  have tga: "target ca = demo_target" and cba: "handshake_options_callback ca = Some cbk"
    using tg cb by (simp_all add: ca_def c1_def)
  define cb' where "cb' = ca\<lparr>server_endian := Some ''little'', binexport_level := 1,
              option_objects :=
                map (\<lambda>opt. if level opt < 4 then opt\<lparr>sent := True\<rparr> else opt) (cbk 1),
              remaining_handshake_options :=
                filter (\<lambda>opt. \<not> sent opt)
                  (map (\<lambda>opt. if level opt < 4 then opt\<lparr>sent := True\<rparr> else opt) (cbk 1))\<rparr>"
  have cr: "challenge_response demo_env ca options_challenge = Inr (?resp, cb')"
    unfolding cb'_def by (rule options_challenge_response_any [OF tga cba])
  define s2 where "s2 = s1\<lparr>incoming := segs1\<rparr>"
  have rawb: "\<not> truthy (is_raw_control cb')" and sob: "socket cb' = Some s2"
    by (simp_all add: cb'_def ca_def c1_def truthy_def s2_def)
  have op2: "\<not> closed s2" "\<not> send_fails s2" using op1 by (simp_all add: s2_def)
  define s3 where "s3 = s2\<lparr>outgoing := outgoing s2 @ spec_frames True ?resp\<rparr>"
  define cc where "cc = cb'\<lparr>socket := Some s3\<rparr>"
  have pb: "putblock cb' ?resp = Inr cc"
    unfolding cc_def s3_def by (rule putblock_framed [OF rawb sob op2])
  have rawc: "\<not> truthy (is_raw_control cc)" and soc: "socket cc = Some s3"
    using rawb by (simp_all add: cc_def)
  have op3: "\<not> closed s3" using op2 by (simp add: s3_def)
  have ne3: "[] \<notin> set (incoming s3)" using segs1 by (simp add: s3_def s2_def)
  have inc3: "concat (incoming s3) = spec_frames True [] @ []"
    using segs1 by (simp add: s3_def s2_def)
  have v3: "utf8_valid (map of_char [])" by simp
  from getblock_framed [OF rawc soc op3 ne3 inc3 v3]
  obtain segs4 st4 where
    g4: "getblock cc = Inr ([], cc\<lparr>socket := Some (s3\<lparr>incoming := segs4\<rparr>), stashed_buffer := st4\<rparr>)"
    by blast
  define cd where "cd = cc\<lparr>socket := Some (s3\<lparr>incoming := segs4\<rparr>), stashed_buffer := st4\<rparr>"
  have st: "str_strip [] = []" by (simp add: str_strip_def strip_with_def)
  have lg: "login demo_env c1 = Inr (True, cd)"
    unfolding login_def
    by (simp only: so1 g1 ca_def [symmetric] cr pb g4 cd_def [symmetric]
          sum.case prod.case option.distinct if_False Let_def st list.size simp_thms if_True)
  have lp: "snd (connect_loop demo_env 10 c) = Inr cd"
    using so nc raw1 lg by (simp add: numeral_eq_Suc)
  have "socket cd = Some (s3\<lparr>incoming := segs4\<rparr>)" by (simp add: cd_def)
  moreover have "outgoing (s3\<lparr>incoming := segs4\<rparr>) = replicate 8 (CHR 0x00) @ spec_frames True ?resp"
    by (simp add: s3_def s2_def s1_def)
  moreover have "\<not> truthy (is_raw_control cd)" using rawc by (simp add: cd_def)
  moreover have "binexport_level cd = 1" by (simp add: cd_def cc_def cb'_def)
  moreover have "option_objects cd
                   = map (\<lambda>opt. if level opt < 4 then opt\<lparr>sent := True\<rparr> else opt) (cbk 1)"
    by (simp add: cd_def cc_def cb'_def)
  moreover have "remaining_handshake_options cd
                   = filter (\<lambda>opt. \<not> sent opt)
                       (map (\<lambda>opt. if level opt < 4 then opt\<lparr>sent := True\<rparr> else opt) (cbk 1))"
    by (simp add: cd_def cc_def cb'_def)
  moreover have "fallback_calls cd = fallback_calls c"
    by (simp add: cd_def cc_def cb'_def ca_def c1_def)
  moreover have "state cd = state c"
    by (simp add: cd_def cc_def cb'_def ca_def c1_def)
  ultimately show ?thesis using lp lg g1 [folded ca_def] tga by blast
qed

lemma demo_options_entries:
  "join '','' (map (\<lambda>opt. name opt @ ''='' @ str_int (opt_value opt))
                (filter (\<lambda>opt. level opt < 4) (demo_options 1)))
     = ''auto_commit=1,reply_size=100''"
proof -
  have s1: "str_int 1 = ''1''" by (simp add: str_int_def str_nat.simps char_of_def bit_0)
  have s100: "str_int 100 = ''100''" by (simp add: str_int_def str_nat.simps char_of_def bit_0)
  show ?thesis by (simp add: demo_options_def s1 s100)
qed

lemma options_client_fields:
  "socket (options_client\<lparr>handshake_options_callback := Some cbk, target := demo_target\<rparr>) = None"
  "endpoints (options_client\<lparr>handshake_options_callback := Some cbk, target := demo_target\<rparr>)
     = Inr (options_server, True) # []"
  "target (options_client\<lparr>handshake_options_callback := Some cbk, target := demo_target\<rparr>) = demo_target"
  "handshake_options_callback
     (options_client\<lparr>handshake_options_callback := Some cbk, target := demo_target\<rparr>) = Some cbk"
  "fallback_calls (options_client\<lparr>handshake_options_callback := Some cbk, target := demo_target\<rparr>) = []"
  "socket options_client = None" "fallback_calls options_client = []"
  by (simp_all add: options_client_def new_conn_def)

theorem handshake_options_witness:
  "(\<exists>c1 ca c' cf s.
       getblock c1 = Inr (options_challenge, ca)
     \<and> challenge_response demo_env ca options_challenge
         = Inr (''BIG:monetdb:{SHA256}SHA256(SHA512(monetdb)sXYZ):sql:demo:FILETRANS:auto_commit=1,reply_size=100:'', c')
     \<and> connect demo_env options_client demo_target (Some demo_options) = Inr cf
     \<and> state cf = STATE_READY
     \<and> socket cf = Some s
     \<and> outgoing s = replicate 8 (CHR 0x00)
          @ spec_frames True ''BIG:monetdb:{SHA256}SHA256(SHA512(monetdb)sXYZ):sql:demo:FILETRANS:auto_commit=1,reply_size=100:''
     \<and> map name (option_objects cf) = [''auto_commit'', ''reply_size'', ''time_zone'']
     \<and> map sent (option_objects cf) = [True, True, False]
     \<and> map name (remaining_handshake_options cf) = [''time_zone'']
     \<and> fallback_calls cf = [(''time_zone'', 3600)])
   \<and> connect demo_env options_client demo_target (Some failing_options)
       = Inl (Raise OperationalError ''columnar protocol refused'')"
proof -
  let ?c = "options_client\<lparr>handshake_options_callback := Some demo_options, target := demo_target\<rparr>"
  let ?resp = "''BIG:monetdb:{SHA256}SHA256(SHA512(monetdb)sXYZ):sql:demo:FILETRANS:auto_commit=1,reply_size=100:''"
  have v: "validate demo_env demo_target = None" by (simp add: demo_env_def)
  from options_round [OF options_client_fields(1,2,3,4), of demo_options]
  obtain c1 ca c4 s where
    lp: "snd (connect_loop demo_env 10 ?c) = Inr c4"
    and lg: "login demo_env c1 = Inr (True, c4)"
    and g1: "getblock c1 = Inr (options_challenge, ca)"
    and tga: "target ca = demo_target"
    and raw: "\<not> truthy (is_raw_control c4)"
    and so4: "socket c4 = Some s"
    and out: "outgoing s = replicate 8 (CHR 0x00) @ spec_frames True ?resp"
    and bl: "binexport_level c4 = 1"
    and st: "state c4 = state ?c"
    unfolding demo_options_entries by (auto simp: )
  note inst = handshake_options_sent_or_deferred [OF v options_client_fields(6) lp raw lg g1]
  then obtain response c' cb where
    cr: "challenge_response demo_env ca options_challenge = Inr (response, c')"
    and A: "7 \<le> length (butlast (split_on CHR '':'' options_challenge)) \<longrightarrow>
        (\<exists>N se base.
            options_level_loop demo_env
              (split_on CHR '','' (butlast (split_on CHR '':'' options_challenge) ! 6)) 0 = Inr N
          \<and> response_line demo_env ca (butlast (split_on CHR '':'' options_challenge)) = Inr (se, base)
          \<and> response = base @ ''FILETRANS:''
                @ join '','' (map (\<lambda>opt. name opt @ ''='' @ str_int (opt_value opt))
                               (filter (\<lambda>opt. level opt < N) (demo_options (binexport_level c4))))
                @ '':''
          \<and> option_objects c4
              = map (\<lambda>opt. if level opt < N then opt\<lparr>sent := True\<rparr> else opt)
                  (demo_options (binexport_level c4))
          \<and> remaining_handshake_options c4
              = filter (\<lambda>opt. \<not> level opt < N \<and> \<not> sent opt) (demo_options (binexport_level c4))
          \<and> ((\<forall>opt\<in>set (demo_options (binexport_level c4)). \<not> sent opt) \<longrightarrow>
                option_objects c4
                  = map (\<lambda>opt. opt\<lparr>sent := (level opt < N)\<rparr>) (demo_options (binexport_level c4))
              \<and> remaining_handshake_options c4
                  = filter (\<lambda>opt. \<not> level opt < N) (demo_options (binexport_level c4))))"
    and E: "(\<forall>opt\<in>set (remaining_handshake_options c4). fallback opt (opt_value opt) = None) \<longrightarrow>
          connect demo_env options_client demo_target (Some demo_options)
            = Inr (c4\<lparr>state := STATE_READY,
                      fallback_calls := fallback_calls options_client
                        @ map (\<lambda>opt. (name opt, opt_value opt))
                            (remaining_handshake_options c4)\<rparr>)"
    by (elim exE conjE)
  have fld: "7 \<le> length (butlast (split_on CHR '':'' options_challenge))"
    by (simp add: options_challenge_def)
  have six: "butlast (split_on CHR '':'' options_challenge) ! 6 = ''sql=4''"
    by (simp add: options_challenge_def)
  have rl: "response_line demo_env ca (butlast (split_on CHR '':'' options_challenge))
     = Inr (''little'', ''BIG:monetdb:{SHA256}SHA256(SHA512(monetdb)sXYZ):sql:demo:'')"
    using tga
    by (simp add: options_challenge_def response_line_def Let_def demo_env_def demo_hash_def
          demo_target_def or_empty_def)
  from A fld obtain N se base where
    lv: "options_level_loop demo_env (split_on CHR '','' ''sql=4'') 0 = Inr N"
    and rb: "response_line demo_env ca (butlast (split_on CHR '':'' options_challenge)) = Inr (se, base)"
    and resp: "response = base @ ''FILETRANS:''
                @ join '','' (map (\<lambda>opt. name opt @ ''='' @ str_int (opt_value opt))
                               (filter (\<lambda>opt. level opt < N) (demo_options 1)))
                @ '':''"
    and objs: "option_objects c4
              = map (\<lambda>opt. if level opt < N then opt\<lparr>sent := True\<rparr> else opt) (demo_options 1)"
    and rem: "remaining_handshake_options c4
              = filter (\<lambda>opt. \<not> level opt < N \<and> \<not> sent opt) (demo_options 1)"
    unfolding six bl by blast
  from lv options_level_4 have N: "N = 4" by simp
  from rb rl have base: "base = ''BIG:monetdb:{SHA256}SHA256(SHA512(monetdb)sXYZ):sql:demo:''" by simp
  have r: "response = ?resp"
    unfolding resp N base demo_options_entries by simp
  have o4: "map name (option_objects c4) = [''auto_commit'', ''reply_size'', ''time_zone'']"
    "map sent (option_objects c4) = [True, True, False]"
    unfolding objs N by (simp_all add: demo_options_def)
  have r4: "remaining_handshake_options c4
              = [\<lparr>level = 5, name = ''time_zone'', opt_value = 3600, fallback = (\<lambda>v. None), sent = False\<rparr>]"
    unfolding rem N by (simp add: demo_options_def)
  have ret: "\<forall>opt\<in>set (remaining_handshake_options c4). fallback opt (opt_value opt) = None"
    unfolding r4 by simp
  from E ret have cn: "connect demo_env options_client demo_target (Some demo_options)
            = Inr (c4\<lparr>state := STATE_READY,
                      fallback_calls := fallback_calls options_client
                        @ map (\<lambda>opt. (name opt, opt_value opt))
                            (remaining_handshake_options c4)\<rparr>)"
    by (rule mp)
  let ?cf = "c4\<lparr>state := STATE_READY,
                      fallback_calls := fallback_calls options_client
                        @ map (\<lambda>opt. (name opt, opt_value opt))
                            (remaining_handshake_options c4)\<rparr>"
  have good: "getblock c1 = Inr (options_challenge, ca)
     \<and> challenge_response demo_env ca options_challenge = Inr (?resp, c')
     \<and> connect demo_env options_client demo_target (Some demo_options) = Inr ?cf
     \<and> state ?cf = STATE_READY
     \<and> socket ?cf = Some s
     \<and> outgoing s = replicate 8 (CHR 0x00) @ spec_frames True ?resp
     \<and> map name (option_objects ?cf) = [''auto_commit'', ''reply_size'', ''time_zone'']
     \<and> map sent (option_objects ?cf) = [True, True, False]
     \<and> map name (remaining_handshake_options ?cf) = [''time_zone'']
     \<and> fallback_calls ?cf = [(''time_zone'', 3600)]"
    using g1 cr [unfolded r] cn so4 out o4
    by (simp add: r4 options_client_fields(7))
  let ?d = "options_client\<lparr>handshake_options_callback := Some failing_options, target := demo_target\<rparr>"
  from options_round [OF options_client_fields(1,2,3,4), of failing_options]
  obtain d1 da d4 where
    lpd: "snd (connect_loop demo_env 10 ?d) = Inr d4"
    and lgd: "login demo_env d1 = Inr (True, d4)"
    and g1d: "getblock d1 = Inr (options_challenge, da)"
    and rawd: "\<not> truthy (is_raw_control d4)"
    and remd: "remaining_handshake_options d4
                 = filter (\<lambda>opt. \<not> sent opt)
                     (map (\<lambda>opt. if level opt < 4 then opt\<lparr>sent := True\<rparr> else opt)
                        (failing_options 1))"
    by blast
  note instd = handshake_options_sent_or_deferred [OF v options_client_fields(6) lpd rawd lgd g1d]
  then have F: "\<forall>pre opt rest e.
          remaining_handshake_options d4 = pre @ opt # rest
          \<and> (\<forall>p\<in>set pre. fallback p (opt_value p) = None)
          \<and> fallback opt (opt_value opt) = Some e \<longrightarrow>
            connect demo_env options_client demo_target (Some failing_options) = Inl e
          \<and> fallback_calls (fst (connect_ready d4))
              = fallback_calls options_client @ map (\<lambda>opt. (name opt, opt_value opt)) (pre @ [opt])"
    by (elim exE conjE)
  let ?col = "\<lparr>level = 4, name = ''columnar_protocol'', opt_value = 1,
               fallback = (\<lambda>v. Some (Raise OperationalError ''columnar protocol refused'')),
               sent = False\<rparr>"
  let ?tz = "\<lparr>level = 5, name = ''time_zone'', opt_value = 3600, fallback = (\<lambda>v. None), sent = False\<rparr>"
  have rd: "remaining_handshake_options d4 = [] @ ?col # [?tz]"
    unfolding remd by (simp add: failing_options_def)
  have hd: "remaining_handshake_options d4 = [] @ ?col # [?tz]
          \<and> (\<forall>p\<in>set []. fallback p (opt_value p) = None)
          \<and> fallback ?col (opt_value ?col) = Some (Raise OperationalError ''columnar protocol refused'')"
    using rd by simp
  have bad: "connect demo_env options_client demo_target (Some failing_options)
               = Inl (Raise OperationalError ''columnar protocol refused'')"
    using F [THEN spec, THEN spec, THEN spec, THEN spec, THEN mp, OF hd] by (rule conjunct1)
  show ?thesis
  proof (rule conjI)
    show "connect demo_env options_client demo_target (Some failing_options)
            = Inl (Raise OperationalError ''columnar protocol refused'')"
      by (rule bad)
  next
    show "\<exists>c1 ca c' cf s.
       getblock c1 = Inr (options_challenge, ca)
     \<and> challenge_response demo_env ca options_challenge = Inr (?resp, c')
     \<and> connect demo_env options_client demo_target (Some demo_options) = Inr cf
     \<and> state cf = STATE_READY
     \<and> socket cf = Some s
     \<and> outgoing s = replicate 8 (CHR 0x00) @ spec_frames True ?resp
     \<and> map name (option_objects cf) = [''auto_commit'', ''reply_size'', ''time_zone'']
     \<and> map sent (option_objects cf) = [True, True, False]
     \<and> map name (remaining_handshake_options cf) = [''time_zone'']
     \<and> fallback_calls cf = [(''time_zone'', 3600)]"
      by (rule exI [of _ c1], rule exI [of _ ca], rule exI [of _ c'], rule exI [of _ ?cf],
          rule exI [of _ s]) (rule good)
  qed
qed

text \<open>
  Claim C8 as stated fails when a fallback raises. The callback returns the options
  \<^verbatim>\<open>reply_size\<close> (level 2), \<^verbatim>\<open>columnar_protocol\<close> (level 4, with a fallback that raises) and
  \<^verbatim>\<open>time_zone\<close> (level 5); the server advertises level 4. \<^verbatim>\<open>columnar_protocol\<close> and
  \<^verbatim>\<open>time_zone\<close> are not sent; \<^verbatim>\<open>connect\<close> invokes the fallback of \<^verbatim>\<open>columnar_protocol\<close> and
  raises its exception, and the fallback of \<^verbatim>\<open>time_zone\<close> is never invoked.
\<close>

theorem later_fallbacks_are_skipped_after_a_raise:
  "connect demo_env options_client demo_target (Some failing_options)
     = Inl (Raise OperationalError ''columnar protocol refused'')
   \<and> map_sum id (map name \<circ> remaining_handshake_options)
        (snd (connect_loop demo_env 10
               (options_client\<lparr>handshake_options_callback := Some failing_options,
                                target := demo_target\<rparr>)))
       = Inr [''columnar_protocol'', ''time_zone'']
   \<and> map_sum id (fallback_calls \<circ> fst \<circ> connect_ready)
        (snd (connect_loop demo_env 10
               (options_client\<lparr>handshake_options_callback := Some failing_options,
                                target := demo_target\<rparr>)))
       = Inr [(''columnar_protocol'', 1)]"
proof -
  let ?d = "options_client\<lparr>handshake_options_callback := Some failing_options, target := demo_target\<rparr>"
  have v: "validate demo_env demo_target = None" by (simp add: demo_env_def)
  from options_round [OF options_client_fields(1,2,3,4), of failing_options]
  obtain d4 where
    lpd: "snd (connect_loop demo_env 10 ?d) = Inr d4"
    and remd: "remaining_handshake_options d4
                 = filter (\<lambda>opt. \<not> sent opt)
                     (map (\<lambda>opt. if level opt < 4 then opt\<lparr>sent := True\<rparr> else opt)
                        (failing_options 1))"
    and fcd: "fallback_calls d4 = fallback_calls ?d"
    by blast
  have rd: "remaining_handshake_options d4
              = [\<lparr>level = 4, name = ''columnar_protocol'', opt_value = 1,
                   fallback = (\<lambda>v. Some (Raise OperationalError ''columnar protocol refused'')),
                   sent = False\<rparr>,
                 \<lparr>level = 5, name = ''time_zone'', opt_value = 3600, fallback = (\<lambda>v. None),
                   sent = False\<rparr>]"
    unfolding remd by (simp add: failing_options_def)
  have ready: "connect_ready d4
                 = (d4\<lparr>state := STATE_READY, fallback_calls := [(''columnar_protocol'', 1)]\<rparr>,
                    Some (Raise OperationalError ''columnar protocol refused''))"
    using fcd by (simp add: connect_ready_def Let_def rd options_client_fields(5))
  have a: "connect demo_env options_client demo_target (Some failing_options)
             = Inl (Raise OperationalError ''columnar protocol refused'')"
    unfolding connect_after_loop [OF v options_client_fields(6) lpd] ready by simp
  have b: "map_sum id (map name \<circ> remaining_handshake_options) (snd (connect_loop demo_env 10 ?d))
             = Inr [''columnar_protocol'', ''time_zone'']"
    unfolding lpd by (simp add: rd)
  have c: "map_sum id (fallback_calls \<circ> fst \<circ> connect_ready) (snd (connect_loop demo_env 10 ?d))
             = Inr [(''columnar_protocol'', 1)]"
    unfolding lpd by (simp add: ready)
  from a b c show ?thesis by (intro conjI)
qed

end
